(* ===== verification/Prelude.thy ===== *)
theory Prelude
  imports Main "HOL-Library.Word"
begin

text \<open>
  Shared vocabulary of the development: how Go values are represented, the collections of
  facts the components add to, and the generic lemmas on lists, options and association
  lists that more than one component uses.

  A Go map is an association list with the keys it ranges over in list order. Reading a key
  is \<open>map_of\<close>; reading with Go's zero value is \<open>mget\<close>. Go ranges over a map in
  an unspecified order; every loop over a map is modelled by a walk over the list, and where
  a result must not depend on the order this is proved.
\<close>

section \<open>Collections of facts\<close>

named_theorems policy_defs \<open>definitions of the policy matcher\<close>
named_theorems store_defs \<open>definitions of the job store operations\<close>
named_theorems lock_defs \<open>definitions of the lock scripts\<close>

section \<open>Go maps\<close>

type_synonym 'v gomap = "(string \<times> 'v) list"

definition mget :: "string gomap \<Rightarrow> string \<Rightarrow> string" where
  "mget m k = (case map_of m k of None \<Rightarrow> [] | Some v \<Rightarrow> v)"

definition mget_list :: "'a list gomap \<Rightarrow> string \<Rightarrow> 'a list" where
  "mget_list m k = (case map_of m k of None \<Rightarrow> [] | Some v \<Rightarrow> v)"

fun mput :: "string \<Rightarrow> 'v \<Rightarrow> 'v gomap \<Rightarrow> 'v gomap" where
  "mput k v [] = [(k, v)]"
| "mput k v ((k', v') # m) = (if k = k' then (k, v) # m else (k', v') # mput k v m)"

definition mdel :: "string \<Rightarrow> 'v gomap \<Rightarrow> 'v gomap" where
  "mdel k m = filter (\<lambda>(k', _). k' \<noteq> k) m"

definition keys :: "'v gomap \<Rightarrow> string set" where
  "keys m = fst ` set m"

definition wf_map :: "'v gomap \<Rightarrow> bool" where
  "wf_map m \<longleftrightarrow> distinct (map fst m)"

lemma map_of_mput [simp]: "map_of (mput k v m) = (map_of m)(k \<mapsto> v)"
  by (induction m) (auto simp: fun_eq_iff)

lemma map_of_mdel [simp]: "map_of (mdel k m) = (map_of m)(k := None)"
  by (induction m) (auto simp: mdel_def fun_eq_iff)

lemma keys_mput [simp]: "keys (mput k v m) = insert k (keys m)"
  by (induction m) (force simp: keys_def)+

lemma keys_Nil [simp]: "keys [] = {}"
  and keys_Cons [simp]: "keys ((k, v) # m) = insert k (keys m)"
  by (simp_all add: keys_def)

lemma wf_map_Nil [simp]: "wf_map []"
  and wf_map_Cons [simp]: "wf_map ((k, v) # m) \<longleftrightarrow> k \<notin> keys m \<and> wf_map m"
  by (simp_all add: wf_map_def keys_def)

lemma wf_mput [intro]: "wf_map m \<Longrightarrow> wf_map (mput k v m)"
  by (induction m) auto

lemma wf_mdel [intro]: "wf_map m \<Longrightarrow> wf_map (mdel k m)"
  by (induction m) (auto simp: mdel_def keys_def)

lemma mget_map_of: "map_of m k = Some v \<Longrightarrow> mget m k = v"
  by (simp add: mget_def)

section \<open>Joined keys\<close>

lemma separator_inject: "xs @ z # as = ys @ z # bs \<Longrightarrow> z \<notin> set xs \<Longrightarrow> z \<notin> set ys \<Longrightarrow> xs = ys"
proof (induction xs arbitrary: ys)
  case Nil then show ?case by (cases ys) auto
next
  case (Cons x xs) then show ?case by (cases ys) auto
qed

section \<open>First matches\<close>

text \<open>
  Most deciders of the program walk a list and stop at the first element that matches.
  The contract of such a walk: its value on the empty list, and the step on a cons.
\<close>

locale first_match =
  fixes matches :: "'r \<Rightarrow> 'i \<Rightarrow> bool"
    and decide :: "'r \<Rightarrow> 'i \<Rightarrow> 'd"
    and fallback :: "'i \<Rightarrow> 'd"
    and walk :: "'r list \<Rightarrow> 'i \<Rightarrow> 'd"
  assumes walk_Nil: "walk [] i = fallback i"
    and walk_Cons: "walk (r # rs) i = (if matches r i then decide r i else walk rs i)"
begin

lemma walk_skip: "\<forall>r \<in> set rs. \<not> matches r i \<Longrightarrow> walk (rs @ rs') i = walk rs' i"
  by (induction rs) (simp_all add: walk_Cons)

lemma walk_none: "\<forall>r \<in> set rs. \<not> matches r i \<Longrightarrow> walk rs i = fallback i"
  using walk_skip [of rs i "[]"] by (simp add: walk_Nil)

lemma walk_first: "\<forall>r \<in> set rs. \<not> matches r i \<Longrightarrow> matches r i \<Longrightarrow> walk (rs @ r # rs') i = decide r i"
  by (simp add: walk_skip walk_Cons)

lemma walk_prefix: "\<exists>r \<in> set rs. matches r i \<Longrightarrow> walk (rs @ rs') i = walk rs i"
  by (induction rs) (auto simp: walk_Cons)

lemma walk_decided: "\<exists>r \<in> set rs. matches r i \<Longrightarrow> \<exists>r \<in> set rs. matches r i \<and> walk rs i = decide r i"
  by (induction rs) (auto simp: walk_Cons)

lemma walk_cases:
  obtains "\<forall>r \<in> set rs. \<not> matches r i" "walk rs i = fallback i"
  | r where "r \<in> set rs" "matches r i" "walk rs i = decide r i"
  using walk_decided [of rs i] walk_none [of rs i] by blast

lemma walk_cong_on_matching:
  "filter (\<lambda>r. matches r i) rs = filter (\<lambda>r. matches r i) rs' \<Longrightarrow> walk rs i = walk rs' i"
proof -
  have "walk xs i = walk (filter (\<lambda>r. matches r i) xs) i" for xs
    by (induction xs) (simp_all add: walk_Cons)
  then show "filter (\<lambda>r. matches r i) rs = filter (\<lambda>r. matches r i) rs' \<Longrightarrow> walk rs i = walk rs' i"
    by metis
qed

end

end
