(* ===== verification/Go_Strings.thy ===== *)
theory Go_Strings
  imports Prelude
begin

text \<open>
  What the program uses of Go's packages \<open>strings\<close>, \<open>strconv\<close>, \<open>fmt\<close> and \<open>path\<close>.
  A Go string is the list of its bytes. The case and white-space functions act on ASCII
  characters and leave every byte above 127 alone; on an ASCII string they compute what the
  Go functions compute, and the policy vocabulary (tiers, decisions, topics, label keys) is
  ASCII. \<open>path_match\<close> follows the chunk-wise algorithm of \<open>path.Match\<close>, its lack of
  backtracking between chunks included.
\<close>

section \<open>Characters\<close>

definition is_space :: "char \<Rightarrow> bool" where
  "is_space c \<longleftrightarrow> c = CHR 0x20 \<or> c = CHR 0x09 \<or> c = CHR 0x0A \<or> c = CHR 0x0B \<or> c = CHR 0x0C \<or> c = CHR 0x0D"

text \<open>\<open>A\<close> to \<open>Z\<close> are the bytes 010xxxxx with 1 to 26 in the low five bits; lower case sets bit 5.\<close>

fun lower_char :: "char \<Rightarrow> char" where
  "lower_char (Char b0 b1 b2 b3 b4 b5 b6 b7) =
     (if \<not> b7 \<and> b6 \<and> \<not> b5 \<and> (b0 \<or> b1 \<or> b2 \<or> b3 \<or> b4) \<and> \<not> (b4 \<and> b3 \<and> (b2 \<or> (b1 \<and> b0)))
      then Char b0 b1 b2 b3 b4 True b6 b7
      else Char b0 b1 b2 b3 b4 b5 b6 b7)"

fun is_digit :: "char \<Rightarrow> bool" where
  "is_digit (Char b0 b1 b2 b3 b4 b5 b6 b7) \<longleftrightarrow>
     \<not> b7 \<and> \<not> b6 \<and> b5 \<and> b4 \<and> \<not> (b3 \<and> (b2 \<or> b1))"

lemma lower_char_code:
  "(of_char (lower_char c) :: nat) =
     (if 65 \<le> (of_char c :: nat) \<and> (of_char c :: nat) \<le> 90 then of_char c + 32 else of_char c)"
  by (cases c) (auto simp: of_char_def horner_sum_simps split: if_splits)

lemma lower_char_idem [simp]: "lower_char (lower_char c) = lower_char c"
  by (cases c) simp

lemma is_space_lower_char [simp]: "is_space (lower_char c) = is_space c"
  by (cases c) (auto simp: is_space_def)

lemma is_digit_code: "is_digit c \<longleftrightarrow> 48 \<le> (of_char c :: nat) \<and> (of_char c :: nat) \<le> 57"
  by (cases c) (auto simp: of_char_def horner_sum_simps split: if_splits)

section \<open>Package strings\<close>

definition TrimSpace :: "string \<Rightarrow> string" where
  "TrimSpace s = rev (dropWhile is_space (rev (dropWhile is_space s)))"

definition ToLower :: "string \<Rightarrow> string" where
  "ToLower s = map lower_char s"

definition EqualFold :: "string \<Rightarrow> string \<Rightarrow> bool" where
  "EqualFold s t \<longleftrightarrow> ToLower s = ToLower t"

fun HasPrefix :: "string \<Rightarrow> string \<Rightarrow> bool" where
  "HasPrefix s [] = True"
| "HasPrefix [] (p # ps) = False"
| "HasPrefix (c # s) (p # ps) = (c = p \<and> HasPrefix s ps)"

definition HasSuffix :: "string \<Rightarrow> string \<Rightarrow> bool" where
  "HasSuffix s t = HasPrefix (rev s) (rev t)"

fun IndexByte :: "string \<Rightarrow> char \<Rightarrow> nat option" where
  "IndexByte [] c = None"
| "IndexByte (x # xs) c = (if x = c then Some 0 else map_option Suc (IndexByte xs c))"

fun Index :: "string \<Rightarrow> string \<Rightarrow> nat option" where
  "Index [] sub = (if sub = [] then Some 0 else None)"
| "Index (c # cs) sub = (if HasPrefix (c # cs) sub then Some 0 else map_option Suc (Index cs sub))"

text \<open>\<open>strings.Count\<close> of a separator that does not overlap itself.\<close>

fun Count :: "string \<Rightarrow> string \<Rightarrow> nat" where
  "Count [] sub = 0"
| "Count (c # cs) sub = (if HasPrefix (c # cs) sub then Suc (Count cs sub) else Count cs sub)"

definition TrimPrefix :: "string \<Rightarrow> string \<Rightarrow> string" where
  "TrimPrefix s p = (if HasPrefix s p then drop (length p) s else s)"

definition TrimSuffix :: "string \<Rightarrow> string \<Rightarrow> string" where
  "TrimSuffix s t = (if HasSuffix s t then take (length s - length t) s else s)"

text \<open>\<open>strings.Split\<close> with a one-character separator.\<close>

fun Split :: "string \<Rightarrow> char \<Rightarrow> string list" where
  "Split [] sep = [[]]"
| "Split (c # s) sep =
     (if c = sep then [] # Split s sep
      else (case Split s sep of [] \<Rightarrow> [[c]] | w # ws \<Rightarrow> (c # w) # ws))"

fun Join :: "string list \<Rightarrow> string \<Rightarrow> string" where
  "Join [] sep = []"
| "Join [s] sep = s"
| "Join (s # t # ts) sep = s @ sep @ Join (t # ts) sep"

fun Contains :: "string \<Rightarrow> string \<Rightarrow> bool" where
  "Contains [] t = (t = [])"
| "Contains (c # s) t = (HasPrefix (c # s) t \<or> Contains s t)"

lemma dropWhile_idem [simp]: "dropWhile P (dropWhile P xs) = dropWhile P xs"
  by (induction xs) auto

lemma all_dropWhile: "(\<forall>x \<in> set (dropWhile P xs). P x) \<longleftrightarrow> (\<forall>x \<in> set xs. P x)"
  by (induction xs) auto

lemma dropWhile_rev_dropWhile:
  "dropWhile P (rev (dropWhile P (rev xs))) = rev (dropWhile P (rev (dropWhile P xs)))"
proof (induction xs)
  case (Cons x xs)
  show ?case
  proof (cases "\<forall>y \<in> set xs. P y")
    case True
    then have "dropWhile P (rev xs) = []" "dropWhile P xs = []" by auto
    then show ?thesis by (cases "P x") (simp_all add: dropWhile_append all_dropWhile True)
  next
    case False
    then have "dropWhile P (rev xs) \<noteq> []" by auto
    with False Cons show ?thesis by (auto simp: dropWhile_append)
  qed
qed simp

lemma TrimSpace_idem [simp]: "TrimSpace (TrimSpace s) = TrimSpace s"
  by (simp add: TrimSpace_def dropWhile_rev_dropWhile)

lemma TrimSpace_Nil [simp]: "TrimSpace [] = []"
  by (simp add: TrimSpace_def)

lemma TrimSpace_eq_Nil: "TrimSpace s = [] \<longleftrightarrow> (\<forall>c \<in> set s. is_space c)"
  by (simp add: TrimSpace_def all_dropWhile)

lemma ToLower_idem [simp]: "ToLower (ToLower s) = ToLower s"
  by (simp add: ToLower_def)

lemma ToLower_Nil [simp]: "ToLower [] = []" and ToLower_eq_Nil [simp]: "ToLower s = [] \<longleftrightarrow> s = []"
  by (simp_all add: ToLower_def)

lemma ToLower_TrimSpace: "ToLower (TrimSpace s) = TrimSpace (ToLower s)"
  by (simp add: ToLower_def TrimSpace_def rev_map dropWhile_map o_def)

lemma EqualFold_refl [simp]: "EqualFold s s"
  and EqualFold_sym: "EqualFold s t \<Longrightarrow> EqualFold t s"
  and EqualFold_trans: "EqualFold s t \<Longrightarrow> EqualFold t u \<Longrightarrow> EqualFold s u"
  by (simp_all add: EqualFold_def)

lemma HasPrefix_iff: "HasPrefix s p \<longleftrightarrow> (\<exists>t. s = p @ t)"
  by (induction s p rule: HasPrefix.induct) auto

lemma HasPrefix_append [simp]: "HasPrefix (p @ s) p"
  by (auto simp: HasPrefix_iff)

lemma IndexByte_skip: "c \<notin> set xs \<Longrightarrow> IndexByte (xs @ c # ys) c = Some (length xs)"
  by (induction xs) auto

lemma TrimPrefix_append [simp]: "TrimPrefix (p @ s) p = s"
  by (simp add: TrimPrefix_def)

lemma Split_nonempty [simp]: "Split s sep \<noteq> []"
  by (induction s) (auto split: list.splits)

lemma Join_Split: "Join (Split s sep) [sep] = s"
proof (induction s)
  case (Cons c s)
  then show ?case
    by (cases "Split s sep" rule: remdups_adj.cases) (auto split: list.splits)
qed simp

lemma Split_no_sep: "sep \<notin> set s \<Longrightarrow> Split s sep = [s]"
  by (induction s) auto

lemma Split_append_sep: "sep \<notin> set s \<Longrightarrow> Split (s @ sep # t) sep = s # Split t sep"
  by (induction s) auto

lemma Split_Join:
  "ws \<noteq> [] \<Longrightarrow> \<forall>w \<in> set ws. sep \<notin> set w \<Longrightarrow> Split (Join ws [sep]) sep = ws"
  by (induction ws "[sep]" rule: Join.induct) (auto simp: Split_no_sep Split_append_sep)

section \<open>Package strconv and fmt\<close>

definition digit_val :: "char \<Rightarrow> nat" where
  "digit_val c = of_char c - 48"

fun digits_val :: "nat \<Rightarrow> string \<Rightarrow> nat" where
  "digits_val acc [] = acc"
| "digits_val acc (c # cs) = digits_val (10 * acc + digit_val c) cs"

definition int64_range :: "int \<Rightarrow> bool" where
  "int64_range v \<longleftrightarrow> - 9223372036854775808 \<le> v \<and> v \<le> 9223372036854775807"

text \<open>\<open>strconv.Atoi\<close>: an optional sign, at least one digit, nothing else, and in the range of \<open>int\<close>.\<close>

definition Atoi :: "string \<Rightarrow> int option" where
  "Atoi s =
     (let neg = (s \<noteq> [] \<and> hd s = CHR ''-'');
          ds = (if s \<noteq> [] \<and> (hd s = CHR ''-'' \<or> hd s = CHR ''+'') then tl s else s)
      in if ds = [] \<or> \<not> list_all is_digit ds then None
         else let v = (if neg then - int (digits_val 0 ds) else int (digits_val 0 ds))
              in if int64_range v then Some v else None)"

definition digit_char :: "nat \<Rightarrow> char" where
  "digit_char n = char_of (n + 48)"

fun nat_str :: "nat \<Rightarrow> string" where
  "nat_str n = (if n < 10 then [digit_char n] else nat_str (n div 10) @ [digit_char (n mod 10)])"

declare nat_str.simps [simp del]

definition Itoa :: "int \<Rightarrow> string" where
  "Itoa v = (if v < 0 then CHR ''-'' # nat_str (nat (- v)) else nat_str (nat v))"

definition hex_digit :: "nat \<Rightarrow> char" where
  "hex_digit n = (if n < 10 then char_of (n + 48) else char_of (n + 87))"

definition hexEncode :: "string \<Rightarrow> string" where
  "hexEncode bs = concat (map (\<lambda>c. [hex_digit (of_char c div 16), hex_digit (of_char c mod 16)]) bs)"

text \<open>\<open>strconv.Quote\<close>, the \<open>%q\<close> verb, on ASCII.\<close>

definition quote_char :: "char \<Rightarrow> string" where
  "quote_char c =
     (let n = (of_char c :: nat) in
      if c = CHR 0x22 \<or> c = CHR 0x5C then [CHR 0x5C, c]
      else if n = 7 then [CHR 0x5C, CHR ''a'']
      else if n = 8 then [CHR 0x5C, CHR ''b'']
      else if n = 12 then [CHR 0x5C, CHR ''f'']
      else if n = 10 then [CHR 0x5C, CHR ''n'']
      else if n = 13 then [CHR 0x5C, CHR ''r'']
      else if n = 9 then [CHR 0x5C, CHR ''t'']
      else if n = 11 then [CHR 0x5C, CHR ''v'']
      else if n < 32 \<or> n = 127 then [CHR 0x5C, CHR ''x'', hex_digit (n div 16), hex_digit (n mod 16)]
      else [c])"

definition Quote :: "string \<Rightarrow> string" where
  "Quote s = [CHR 0x22] @ concat (map quote_char s) @ [CHR 0x22]"

section \<open>path.Match\<close>

datatype chunk_result = BadPattern | NoMatch | Rest string

fun getEsc :: "string \<Rightarrow> (char \<times> string) option" where
  "getEsc [] = None"
| "getEsc (c # cs) =
     (if c = CHR ''-'' \<or> c = CHR '']'' then None
      else if c = CHR 0x5C then (case cs of [] \<Rightarrow> None | d # ds \<Rightarrow> (if ds = [] then None else Some (d, ds)))
      else if cs = [] then None else Some (c, cs))"

lemma getEsc_length: "getEsc cs = Some (c, r) \<Longrightarrow> length r < length cs"
  by (cases cs) (auto split: if_splits list.splits)

text \<open>The ranges of a character class, up to the closing bracket; \<open>m\<close> says whether one holds \<open>r\<close>.\<close>

function class_loop :: "bool \<Rightarrow> char \<Rightarrow> bool \<Rightarrow> string \<Rightarrow> (bool \<times> string) option" where
  "class_loop seen r m chunk =
     (if seen \<and> chunk \<noteq> [] \<and> hd chunk = CHR '']'' then Some (m, tl chunk)
      else case getEsc chunk of
        None \<Rightarrow> None
      | Some (lo, c1) \<Rightarrow>
          (if hd c1 = CHR ''-''
           then (case getEsc (tl c1) of
               None \<Rightarrow> None
             | Some (hi, c2) \<Rightarrow>
                 class_loop True r (m \<or> (of_char lo \<le> (of_char r :: nat) \<and> of_char r \<le> (of_char hi :: nat))) c2)
           else class_loop True r (m \<or> lo = r) c1))"
  by pat_completeness auto
termination
proof (relation "measure (\<lambda>(_, _, _, chunk). length chunk)", goal_cases)
  case (2 seen r m chunk x lo c1 y hi c2)
  then show ?case using getEsc_length [of chunk lo c1] getEsc_length [of "tl c1" hi c2] by auto
next
  case (3 seen r m chunk x lo c1)
  then show ?case using getEsc_length [of chunk lo c1] by auto
qed simp

declare class_loop.simps [simp del]

lemma class_loop_length: "class_loop seen r m chunk = Some (b, rest) \<Longrightarrow> length rest < length chunk"
proof (induction seen r m chunk rule: class_loop.induct)
  case (1 seen r m chunk)
  show ?case
  proof (cases "seen \<and> chunk \<noteq> [] \<and> hd chunk = CHR '']''")
    case True
    with "1.prems" show ?thesis by (subst (asm) class_loop.simps) auto
  next
    case False
    with "1.prems" obtain lo c1 where g: "getEsc chunk = Some (lo, c1)"
      by (auto simp: class_loop.simps [of seen r m chunk] split: option.splits)
    show ?thesis
    proof (cases "hd c1 = CHR ''-''")
      case True
      with "1.prems" False g obtain hi c2 where h: "getEsc (tl c1) = Some (hi, c2)"
        by (auto simp: class_loop.simps [of seen r m chunk] split: option.splits)
      with "1.prems" "1.IH"(1) [OF False g refl True h refl] False g True
      show ?thesis using getEsc_length [OF g] getEsc_length [OF h]
        by (auto simp: class_loop.simps [of seen r m chunk])
    next
      case c1: False
      with "1.prems" "1.IH"(2) [OF False g refl c1] False g
      show ?thesis using getEsc_length [OF g]
        by (auto simp: class_loop.simps [of seen r m chunk])
    qed
  qed
qed

function matchChunk :: "bool \<Rightarrow> string \<Rightarrow> string \<Rightarrow> chunk_result" where
  "matchChunk failed [] s = (if failed then NoMatch else Rest s)"
| "matchChunk failed (c # cs) s =
     (let f = (failed \<or> s = []); s' = (if f then s else tl s) in
      if c = CHR ''['' then
        (let neg = (cs \<noteq> [] \<and> hd cs = CHR ''^'');
             cs' = (if neg then tl cs else cs);
             r = (if f then CHR 0x00 else hd s)
         in case class_loop False r False cs' of
              None \<Rightarrow> BadPattern
            | Some (m, rest) \<Rightarrow> matchChunk (f \<or> m = neg) rest s')
      else if c = CHR ''?'' then matchChunk (f \<or> hd s = CHR ''/'') cs s'
      else if c = CHR 0x5C then
        (case cs of [] \<Rightarrow> BadPattern | d # ds \<Rightarrow> matchChunk (f \<or> d \<noteq> hd s) ds s')
      else matchChunk (f \<or> c \<noteq> hd s) cs s')"
  by pat_completeness auto
termination
proof (relation "measure (\<lambda>(_, chunk, _). length chunk)", goal_cases)
  case (2 failed c cs s f s' neg cs' r x m rest)
  then show ?case using class_loop_length [of False r False cs' m rest] by (auto split: if_splits)
qed auto

fun scanTo :: "bool \<Rightarrow> string \<Rightarrow> string \<times> string" where
  "scanTo inrange [] = ([], [])"
| "scanTo inrange [c] = (if c = CHR ''*'' \<and> \<not> inrange then ([], [c]) else ([c], []))"
| "scanTo inrange (c # d # ds) =
     (if c = CHR 0x5C then (case scanTo inrange ds of (a, b) \<Rightarrow> (c # d # a, b))
      else if c = CHR ''*'' \<and> \<not> inrange then ([], c # d # ds)
      else case scanTo (if c = CHR ''['' then True else if c = CHR '']'' then False else inrange) (d # ds)
           of (a, b) \<Rightarrow> (c # a, b))"

definition scanChunk :: "string \<Rightarrow> bool \<times> string \<times> string" where
  "scanChunk p = (p \<noteq> [] \<and> hd p = CHR ''*'', scanTo False (dropWhile (\<lambda>c. c = CHR ''*'') p))"

fun starSkip :: "string \<Rightarrow> bool \<Rightarrow> string \<Rightarrow> string option" where
  "starSkip chunk final [] = None"
| "starSkip chunk final (c # cs) =
     (if c = CHR ''/'' then None
      else case matchChunk False chunk cs of
          BadPattern \<Rightarrow> None
        | NoMatch \<Rightarrow> starSkip chunk final cs
        | Rest t \<Rightarrow> if final \<and> t \<noteq> [] then starSkip chunk final cs else Some t)"

lemma scanTo_append: "scanTo b p = (c, r) \<Longrightarrow> c @ r = p"
  by (induction b p arbitrary: c r rule: scanTo.induct) (auto split: if_splits prod.splits)

lemma scanTo_star: "scanTo False p = ([], r) \<Longrightarrow> p \<noteq> [] \<Longrightarrow> hd p = CHR ''*''"
  by (cases "(False, p)" rule: scanTo.cases) (auto split: if_splits prod.splits)

lemma hd_dropWhile_star: "dropWhile (\<lambda>c. c = x) p \<noteq> [] \<Longrightarrow> hd (dropWhile (\<lambda>c. c = x) p) \<noteq> x"
  by (induction p) auto

lemma scanChunk_rest_length:
  assumes "scanChunk p = (star, chunk, rest)" and "chunk \<noteq> []"
  shows "length rest < length p"
proof -
  let ?q = "dropWhile (\<lambda>c. c = CHR ''*'') p"
  from assms(1) have "chunk @ rest = ?q"
    by (auto simp: scanChunk_def dest: scanTo_append)
  with assms(2) have "length rest < length ?q"
    by (metis length_append length_greater_0_conv less_add_same_cancel2)
  also have "\<dots> \<le> length p" by (rule length_dropWhile_le)
  finally show ?thesis .
qed

function path_match :: "string \<Rightarrow> string \<Rightarrow> bool" where
  "path_match pattern name =
     (if pattern = [] then name = []
      else case scanChunk pattern of (star, chunk, rest) \<Rightarrow>
        (if chunk = [] then star \<and> CHR ''/'' \<notin> set name
         else case matchChunk False chunk name of
             BadPattern \<Rightarrow> False
           | NoMatch \<Rightarrow>
               star \<and> (case starSkip chunk (rest = []) name of None \<Rightarrow> False | Some t \<Rightarrow> path_match rest t)
           | Rest t \<Rightarrow>
               if t = [] \<or> rest \<noteq> [] then path_match rest t
               else star \<and> (case starSkip chunk (rest = []) name of
                                None \<Rightarrow> False | Some t \<Rightarrow> path_match rest t)))"
  by pat_completeness auto
termination
  by (relation "measure (\<lambda>(p, _). length p)") (auto dest: scanChunk_rest_length [OF sym])

declare path_match.simps [simp del]

text \<open>A character with no special meaning in a pattern.\<close>

definition plain_char :: "char \<Rightarrow> bool" where
  "plain_char c \<longleftrightarrow> c \<noteq> CHR ''*'' \<and> c \<noteq> CHR ''?'' \<and> c \<noteq> CHR ''['' \<and> c \<noteq> CHR 0x5C"

lemma scanTo_plain: "\<forall>c \<in> set p. plain_char c \<Longrightarrow> scanTo b p = (p, [])"
  by (induction b p rule: scanTo.induct) (auto simp: plain_char_def)

lemma scanTo_star_hd [simp]: "scanTo False (CHR ''*'' # q) = ([], CHR ''*'' # q)"
  by (cases q) auto

lemma scanTo_plain_Cons:
  "plain_char c \<Longrightarrow> ds \<noteq> [] \<Longrightarrow> c \<noteq> CHR '']'' \<or> \<not> b \<Longrightarrow>
   scanTo b (c # ds) = (case scanTo b ds of (a, r) \<Rightarrow> (c # a, r))"
  by (cases ds) (auto simp: plain_char_def)

lemma scanTo_plain_star:
  "\<forall>c \<in> set p. plain_char c \<Longrightarrow> scanTo False (p @ CHR ''*'' # q) = (p, CHR ''*'' # q)"
  by (induction p) (simp_all add: scanTo_plain_Cons)

lemma matchChunk_plain_Cons:
  "plain_char c \<Longrightarrow> matchChunk f (c # cs) s =
     matchChunk (f \<or> s = [] \<or> c \<noteq> hd s) cs (if f \<or> s = [] then s else tl s)"
  by (simp add: plain_char_def Let_def disj_assoc)

declare matchChunk.simps(2) [simp del]

lemma matchChunk_plain_failed: "\<forall>c \<in> set p. plain_char c \<Longrightarrow> matchChunk True p s = NoMatch"
  by (induction p arbitrary: s) (simp_all add: matchChunk_plain_Cons)

lemma matchChunk_plain:
  "\<forall>c \<in> set p. plain_char c \<Longrightarrow>
   matchChunk False p s = (if HasPrefix s p then Rest (drop (length p) s) else NoMatch)"
proof (induction p arbitrary: s)
  case (Cons c p)
  then show ?case
    by (cases s; cases "hd s = c") (auto simp: matchChunk_plain_Cons matchChunk_plain_failed)
qed simp

lemma HasPrefix_drop_Nil: "HasPrefix s p \<Longrightarrow> drop (length p) s = [] \<longleftrightarrow> s = p"
  by (auto simp: HasPrefix_iff)

lemma HasPrefix_refl [simp]: "HasPrefix s s"
  by (auto simp: HasPrefix_iff)

lemma plain_hd: "\<forall>c \<in> set p. plain_char c \<Longrightarrow> p \<noteq> [] \<Longrightarrow> hd p \<noteq> CHR ''*''"
  by (cases p) (auto simp: plain_char_def)

lemma scanChunk_plain:
  "\<forall>c \<in> set p. plain_char c \<Longrightarrow> p \<noteq> [] \<Longrightarrow> scanChunk p = (False, p, [])"
  using plain_hd [of p] by (cases p) (auto simp: scanChunk_def plain_char_def scanTo_plain)

text \<open>A pattern without metacharacters matches exactly itself.\<close>

lemma path_match_plain:
  assumes "\<forall>c \<in> set p. plain_char c"
  shows "path_match p s \<longleftrightarrow> s = p"
proof (cases "p = []")
  case False
  then show ?thesis
    using assms HasPrefix_drop_Nil [of s p] path_match.simps [of "[]" "[]"]
    by (auto simp: path_match.simps [of p] scanChunk_plain matchChunk_plain)
qed (simp add: path_match.simps)

lemma path_match_star: "path_match ''*'' s \<longleftrightarrow> CHR ''/'' \<notin> set s"
  by (simp add: path_match.simps [of "''*''"] scanChunk_def)

text \<open>A plain prefix and a final star match every extension of the prefix within one segment.\<close>

lemma path_match_prefix_star:
  assumes "\<forall>c \<in> set p. plain_char c" and "p \<noteq> []"
  shows "path_match (p @ ''*'') s \<longleftrightarrow> (\<exists>t. s = p @ t \<and> CHR ''/'' \<notin> set t)"
proof -
  have sc: "scanChunk (p @ ''*'') = (False, p, ''*'')"
    using assms scanTo_plain_star [OF assms(1), of "[]"] plain_hd [OF assms]
    by (cases p) (auto simp: scanChunk_def)
  show ?thesis
    using assms by (auto simp: path_match.simps [of "p @ ''*''"] sc matchChunk_plain path_match_star HasPrefix_iff)
qed

section \<open>Decimal numbers\<close>

lemma digit_char_code: "n < 10 \<Longrightarrow> of_char (digit_char n) = n + (48 :: nat)"
  by (simp add: digit_char_def)

lemma is_digit_digit_char [simp]: "n < 10 \<Longrightarrow> is_digit (digit_char n)"
  by (simp add: is_digit_code digit_char_code)

lemma digit_val_digit_char [simp]: "n < 10 \<Longrightarrow> digit_val (digit_char n) = n"
  by (simp add: digit_val_def digit_char_code)

lemma digits_val_append: "digits_val a (xs @ ys) = digits_val (digits_val a xs) ys"
  by (induction xs arbitrary: a) simp_all

lemma nat_str_nonempty [simp]: "nat_str n \<noteq> []"
  by (subst nat_str.simps) simp

lemma nat_str_digits: "list_all is_digit (nat_str n)"
proof (induction n rule: nat_str.induct)
  case (1 n)
  then show ?case by (subst nat_str.simps) simp
qed

lemma digits_val_nat_str [simp]: "digits_val 0 (nat_str n) = n"
proof (induction n rule: nat_str.induct)
  case (1 n)
  then show ?case by (subst nat_str.simps) (simp add: digits_val_append)
qed

lemma hd_nat_str: "is_digit (hd (nat_str n))"
  using nat_str_digits [of n] nat_str_nonempty [of n] by (cases "nat_str n") auto

lemma not_digit [simp]: "\<not> is_digit CHR ''-''" "\<not> is_digit CHR ''+''"
  by simp_all

lemma hd_nat_str_sign [simp]: "hd (nat_str n) \<noteq> CHR ''-''" "hd (nat_str n) \<noteq> CHR ''+''"
  using hd_nat_str [of n] not_digit by metis+

lemma Atoi_Itoa [simp]: "int64_range v \<Longrightarrow> Atoi (Itoa v) = Some v"
  by (simp add: Atoi_def Itoa_def nat_str_digits)

lemma digit_not_space: "is_digit c \<Longrightarrow> \<not> is_space c"
  by (auto simp: is_space_def)

lemma dropWhile_self: "xs = [] \<or> \<not> P (hd xs) \<Longrightarrow> dropWhile P xs = xs"
  by (cases xs) auto

lemma TrimSpace_idI: "s \<noteq> [] \<Longrightarrow> \<not> is_space (hd s) \<Longrightarrow> \<not> is_space (last s) \<Longrightarrow> TrimSpace s = s"
  by (simp add: TrimSpace_def dropWhile_self hd_rev)

lemma TrimSpace_no_space: "\<forall>c \<in> set s. \<not> is_space c \<Longrightarrow> TrimSpace s = s"
  by (cases "s = []") (simp_all add: TrimSpace_idI)

lemma Itoa_no_space: "\<forall>c \<in> set (Itoa v). \<not> is_space c"
proof -
  have "\<forall>c \<in> set (nat_str n). \<not> is_space c" for n
    using nat_str_digits [of n] digit_not_space by (simp add: list_all_iff)
  then show ?thesis by (simp add: Itoa_def is_space_def)
qed

lemma Itoa_nonempty [simp]: "Itoa v \<noteq> []"
  by (simp add: Itoa_def)

lemma nat_str_inject: "nat_str a = nat_str b \<longleftrightarrow> a = b"
  using digits_val_nat_str by metis

lemma Itoa_inject [simp]: "Itoa a = Itoa b \<longleftrightarrow> a = b"
proof -
  have "nat_str n \<noteq> CHR ''-'' # xs" for n xs
    using hd_nat_str_sign(1) [of n] by (metis list.sel(1))
  then have "CHR ''-'' # xs \<noteq> nat_str n" "nat_str n \<noteq> CHR ''-'' # xs" for n xs by metis+
  then show ?thesis by (simp add: Itoa_def nat_str_inject) linarith
qed

lemma TrimSpace_set: "c \<in> set (TrimSpace s) \<Longrightarrow> c \<in> set s"
  unfolding TrimSpace_def by (metis set_dropWhileD set_rev)

lemma Split_parts_no_sep: "p \<in> set (Split s sep) \<Longrightarrow> sep \<notin> set p"
  by (induction s sep arbitrary: p rule: Split.induct) (auto split: list.splits if_splits)

text \<open>The hex text of a byte string determines it.\<close>

lemma length_hexEncode: "length (hexEncode s) = 2 * length s"
  by (induction s) (simp_all add: hexEncode_def)

lemma hex_digit_inject: "m < 16 \<Longrightarrow> n < 16 \<Longrightarrow> hex_digit m = hex_digit n \<longleftrightarrow> m = n"
  by (auto simp: hex_digit_def char_of_eq_iff take_bit_eq_mod split: if_splits)

lemma of_char_div_16: "(of_char c :: nat) div 16 < 16"
  using nat_of_char_less_256 [of c] by (simp add: less_mult_imp_div_less del: nat_of_char_less_256)

lemma hexEncode_inject [simp]: "hexEncode s = hexEncode t \<longleftrightarrow> s = t"
proof (induction s arbitrary: t)
  case Nil
  then show ?case by (cases t) (simp_all add: hexEncode_def)
next
  case (Cons c s)
  have byte: "c = d" if "(of_char c :: nat) div 16 = of_char d div 16" "(of_char c :: nat) mod 16 = of_char d mod 16" for d
    using that by (metis div_mult_mod_eq of_char_eq_iff)
  show ?case
  proof (cases t)
    case (Cons d t')
    with Cons.IH [of t'] byte [of d] show ?thesis
      by (auto simp: hexEncode_def hex_digit_inject of_char_div_16)
  qed (simp add: hexEncode_def)
qed

end
