(* ===== verification/Go_Float.thy ===== *)
theory Go_Float
  imports Go_Strings
begin

text \<open>
  Go's floating point values as the program uses them: a \<open>float32\<close> or \<open>float64\<close> is its
  IEEE 754 bit pattern, compared exactly, and \<open>strconv.ParseFloat(s, 64)\<close> is the nearest
  \<open>float64\<close> of the number the literal denotes, rounding half to even, or an error.
\<close>

section \<open>Bit patterns\<close>

type_synonym float32 = "32 word"
type_synonym float64 = "64 word"

definition f32_nan :: "float32 \<Rightarrow> bool" where
  "f32_nan w \<longleftrightarrow> 0x7F800000 < uint (w mod 0x80000000)"

definition f32_key :: "float32 \<Rightarrow> int" where
  "f32_key w = (if 0x80000000 \<le> uint w then - uint (w mod 0x80000000) else uint w)"

definition f32_lt :: "float32 \<Rightarrow> float32 \<Rightarrow> bool" where
  "f32_lt a b \<longleftrightarrow> \<not> f32_nan a \<and> \<not> f32_nan b \<and> f32_key a < f32_key b"

definition f32_eq :: "float32 \<Rightarrow> float32 \<Rightarrow> bool" where
  "f32_eq a b \<longleftrightarrow> \<not> f32_nan a \<and> \<not> f32_nan b \<and> f32_key a = f32_key b"

definition f64_nan :: "float64 \<Rightarrow> bool" where
  "f64_nan w \<longleftrightarrow> 0x7FF0000000000000 < uint (w mod 0x8000000000000000)"

definition f64_key :: "float64 \<Rightarrow> int" where
  "f64_key w = (if 0x8000000000000000 \<le> uint w then - uint (w mod 0x8000000000000000) else uint w)"

definition f64_lt :: "float64 \<Rightarrow> float64 \<Rightarrow> bool" where
  "f64_lt a b \<longleftrightarrow> \<not> f64_nan a \<and> \<not> f64_nan b \<and> f64_key a < f64_key b"

definition f64_eq :: "float64 \<Rightarrow> float64 \<Rightarrow> bool" where
  "f64_eq a b \<longleftrightarrow> \<not> f64_nan a \<and> \<not> f64_nan b \<and> f64_key a = f64_key b"

lemma f32_lt_irrefl [simp]: "\<not> f32_lt a a"
  and f32_lt_trans: "f32_lt a b \<Longrightarrow> f32_lt b c \<Longrightarrow> f32_lt a c"
  by (auto simp: f32_lt_def)

section \<open>Rounding a rational\<close>

fun bits_len :: "nat \<Rightarrow> nat" where
  "bits_len n = (if n = 0 then 0 else Suc (bits_len (n div 2)))"

declare bits_len.simps [simp del]

text \<open>\<open>n / d\<close> to the nearest integer, a tie to the even neighbour.\<close>

definition round_half_even :: "nat \<Rightarrow> nat \<Rightarrow> nat" where
  "round_half_even n d =
     (let q = n div d; r = n mod d
      in if 2 * r < d then q else if 2 * r > d then Suc q else if even q then q else Suc q)"

text \<open>
  The bit pattern of the \<open>float64\<close> nearest to \<open>n / d\<close>, for positive \<open>n\<close> and \<open>d\<close>, without the sign:
  the significand is scaled to 53 bits, or to the least exponent -1074 when the number is
  subnormal. Nothing when the result would be infinite.
\<close>

definition f64_of_ratio :: "nat \<Rightarrow> nat \<Rightarrow> nat option" where
  "f64_of_ratio n d =
     (if n = 0 then Some 0
      else let l = int (bits_len n) - int (bits_len d);
               below = (if l \<ge> 0 then n < d * 2 ^ nat l else n * 2 ^ nat (- l) < d);
               s = max (-1074) (if below then l - 53 else l - 52);
               q = (if s \<ge> 0 then round_half_even n (d * 2 ^ nat s)
                    else round_half_even (n * 2 ^ nat (- s)) d);
               bits = nat (s + 1074) * 2 ^ 52 + q
           in if bits \<ge> 0x7FF0000000000000 then None else Some bits)"

section \<open>Literals\<close>

definition is_hex_letter :: "char \<Rightarrow> bool" where
  "is_hex_letter c \<longleftrightarrow> lower_char c \<in> set ''abcdef''"

definition hex_val :: "char \<Rightarrow> nat" where
  "hex_val c = (if is_digit c then digit_val c else of_char (lower_char c) - 87)"

text \<open>
  The digits of the mantissa: the value of the digits read, how many follow the dot, whether a
  digit and an underscore were seen, and the rest of the text.
\<close>

fun scan_mantissa ::
    "bool \<Rightarrow> bool \<Rightarrow> bool \<Rightarrow> bool \<Rightarrow> nat \<Rightarrow> nat \<Rightarrow> string \<Rightarrow> nat \<times> nat \<times> bool \<times> bool \<times> string" where
  "scan_mantissa hex dot dig us v frac [] = (v, frac, dig, us, [])"
| "scan_mantissa hex dot dig us v frac (c # cs) =
     (if c = CHR ''_'' then scan_mantissa hex dot dig True v frac cs
      else if c = CHR ''.'' \<and> \<not> dot then scan_mantissa hex True dig us v frac cs
      else if is_digit c \<or> (hex \<and> is_hex_letter c)
      then scan_mantissa hex dot True us ((if hex then 16 else 10) * v + hex_val c)
             (if dot then Suc frac else frac) cs
      else (v, frac, dig, us, c # cs))"

fun scan_exponent :: "bool \<Rightarrow> nat \<Rightarrow> string \<Rightarrow> nat \<times> bool \<times> string" where
  "scan_exponent us e [] = (e, us, [])"
| "scan_exponent us e (c # cs) =
     (if c = CHR ''_'' then scan_exponent True e cs
      else if is_digit c then scan_exponent us (if e < 10000 then 10 * e + digit_val c else e) cs
      else (e, us, c # cs))"

datatype underscore_seen = SawStart | SawDigit | SawUnderscore | SawOther

fun underscore_loop :: "bool \<Rightarrow> underscore_seen \<Rightarrow> string \<Rightarrow> bool" where
  "underscore_loop hex saw [] \<longleftrightarrow> saw \<noteq> SawUnderscore"
| "underscore_loop hex saw (c # cs) \<longleftrightarrow>
     (if is_digit c \<or> (hex \<and> is_hex_letter c) then underscore_loop hex SawDigit cs
      else if c = CHR ''_'' then saw = SawDigit \<and> underscore_loop hex SawUnderscore cs
      else saw \<noteq> SawUnderscore \<and> underscore_loop hex SawOther cs)"

definition strip_sign :: "string \<Rightarrow> string" where
  "strip_sign s = (if s \<noteq> [] \<and> (hd s = CHR ''-'' \<or> hd s = CHR ''+'') then tl s else s)"

definition underscoreOK :: "string \<Rightarrow> bool" where
  "underscoreOK s0 =
     (let s = strip_sign s0 in
      if 2 \<le> length s \<and> hd s = CHR ''0'' \<and> lower_char (s ! 1) \<in> set ''box''
      then underscore_loop (lower_char (s ! 1) = CHR ''x'') SawDigit (drop 2 s)
      else underscore_loop False SawStart s)"

text \<open>The exponent part: its value and whether an underscore was seen, when well formed.\<close>

definition read_exponent :: "bool \<Rightarrow> string \<Rightarrow> (int \<times> bool) option" where
  "read_exponent hex s =
     (if s = [] then (if hex then None else Some (0, False))
      else if lower_char (hd s) \<noteq> (if hex then CHR ''p'' else CHR ''e'') then None
      else let t = tl s; u = strip_sign t;
               neg = (t \<noteq> [] \<and> hd t = CHR ''-'')
           in if u = [] \<or> \<not> is_digit (hd u) then None
              else case scan_exponent False 0 u of
                  (e, us, []) \<Rightarrow> Some (if neg then - int e else int e, us)
                | (e, us, _ # _) \<Rightarrow> None)"

definition scale :: "nat \<Rightarrow> nat \<Rightarrow> int \<Rightarrow> nat option" where
  "scale b v e = (if e \<ge> 0 then f64_of_ratio (v * b ^ nat e) 1 else f64_of_ratio v (b ^ nat (- e)))"

definition sign_bits :: "bool \<Rightarrow> nat \<Rightarrow> float64" where
  "sign_bits neg b = word_of_int (int (if neg then 0x8000000000000000 + b else b))"

definition ParseFloat :: "string \<Rightarrow> float64 option" where
  "ParseFloat s =
     (let neg = (s \<noteq> [] \<and> hd s = CHR ''-''); t = strip_sign s in
      if EqualFold t ''inf'' \<or> EqualFold t ''infinity'' then Some (sign_bits neg 0x7FF0000000000000)
      else if EqualFold s ''nan'' then Some 0x7FF8000000000001
      else let hex = (2 < length t \<and> hd t = CHR ''0'' \<and> lower_char (t ! 1) = CHR ''x'')
           in case scan_mantissa hex False False False 0 0 (if hex then drop 2 t else t) of
                (v, frac, dig, us, rest) \<Rightarrow>
                  if \<not> dig then None
                  else case read_exponent hex rest of
                      None \<Rightarrow> None
                    | Some (e, us') \<Rightarrow>
                        if (us \<or> us') \<and> \<not> underscoreOK s then None
                        else map_option (sign_bits neg)
                               (if hex then scale 2 v (e - 4 * int frac) else scale 10 v (e - int frac)))"

section \<open>Integers and floats\<close>

definition f64_of_int :: "int \<Rightarrow> float64" where
  "f64_of_int n = (case f64_of_ratio (nat (abs n)) 1 of None \<Rightarrow> sign_bits (n < 0) 0x7FF0000000000000 | Some b \<Rightarrow> sign_bits (n < 0) b)"

text \<open>
  The value of a positive float when it is an integer: the significand of 53 bits shifted by the
  exponent. Infinities and not-a-number have none.
\<close>

definition f64_pos_int :: "float64 \<Rightarrow> nat option" where
  "f64_pos_int w =
     (let b = nat (uint w); e = b div 2 ^ 52; m = 2 ^ 52 + b mod 2 ^ 52 in
      if e = 0 \<or> 2047 \<le> e then None
      else if 1075 \<le> e then Some (m * 2 ^ (e - 1075))
      else if m mod 2 ^ (1075 - e) = 0 then Some (m div 2 ^ (1075 - e)) else None)"

end
