(* ===== verification/Policy_Types.thy ===== *)
theory Policy_Types
  imports Go_Float
begin

text \<open>
  The data of the policy engine, from \<open>core/infra/config\<close>: the safety policy document
  (\<open>safety_policy.go\<close>, \<open>mcp.go\<close>), the delegation context and match block
  (\<open>delegation_policy.go\<close>) and the request a policy is evaluated on. A pointer that may be
  nil is an option, a slice a list, a map an association list. Numbers that the program only
  stores and compares are \<open>int\<close>; a \<open>float32\<close> or \<open>float64\<close> is its IEEE 754 bit pattern.
\<close>

section \<open>Selectors, velocity and MCP\<close>

record policy_selector =
  WorkflowID :: string
  JobID :: string
  SessionID :: string

definition no_selector :: policy_selector where
  "no_selector = \<lparr>WorkflowID = [], JobID = [], SessionID = []\<rparr>"

record velocity_config =
  MaxRequests :: int
  WindowSeconds :: int
  Key :: string

record upstream_server_config =
  us_Name :: string
  us_Transport :: string
  us_Endpoint :: string
  us_Command :: "string list"
  us_AuthSecretRef :: string
  us_Labels :: "string gomap"
  us_Risk :: string
  us_Enabled :: bool

record mcp_policy =
  AllowServers :: "string list"
  DenyServers :: "string list"
  AllowTools :: "string list"
  DenyTools :: "string list"
  AllowResources :: "string list"
  DenyResources :: "string list"
  AllowActions :: "string list"
  DenyActions :: "string list"
  GatewayEnabled :: bool
  UpstreamServers :: "upstream_server_config list"
  AllowedUpstreams :: "string list"

definition no_mcp_policy :: mcp_policy where
  "no_mcp_policy =
     \<lparr>AllowServers = [], DenyServers = [], AllowTools = [], DenyTools = [], AllowResources = [],
      DenyResources = [], AllowActions = [], DenyActions = [], GatewayEnabled = False,
      UpstreamServers = [], AllowedUpstreams = []\<rparr>"

record mcp_request =
  Server :: string
  Tool :: string
  Resource :: string
  Action :: string

definition no_mcp_request :: mcp_request where
  "no_mcp_request = \<lparr>Server = [], Tool = [], Resource = [], Action = []\<rparr>"

section \<open>Delegation\<close>

record delegation_context =
  dc_Depth :: int
  dc_IssuerChain :: "string list"
  dc_Scope :: "string list"
  dc_RootIssuer :: string
  dc_ParentIssuer :: string
  dc_JTI :: string
  dc_ExpiresAt :: string
  dc_Audience :: string

record delegation_match =
  MaxDepth :: "int option"
  Issuers :: "string list"
  RequireIssuer :: string
  RequiredScope :: "string list"
  ForbidDelegated :: bool
  DelegationRequired :: "bool option"

section \<open>Rules\<close>

record policy_match =
  Tenants :: "string list"
  Topics :: "string list"
  Capabilities :: "string list"
  RiskTags :: "string list"
  Requires :: "string list"
  PackIDs :: "string list"
  ActorIDs :: "string list"
  ActorTypes :: "string list"
  AgentRiskTiers :: "string list"
  AgentDataClassifications :: "string list"
  Labels :: "string gomap"
  LabelAllowlist :: "string list gomap"
  LabelThreshold :: "float64 gomap"
  SecretsPresent :: "bool option"
  Predicate :: string
  Delegation :: "delegation_match option"
  MCP :: mcp_policy

definition any_match :: policy_match where
  "any_match =
     \<lparr>Tenants = [], Topics = [], Capabilities = [], RiskTags = [], Requires = [], PackIDs = [],
      ActorIDs = [], ActorTypes = [], AgentRiskTiers = [], AgentDataClassifications = [],
      Labels = [], LabelAllowlist = [], LabelThreshold = [], SecretsPresent = None,
      Predicate = [], Delegation = None, MCP = no_mcp_policy\<rparr>"

record budget_constraints =
  MaxRuntimeMs :: int
  MaxRetries :: int
  MaxArtifactBytes :: int
  MaxConcurrentJobs :: int

record sandbox_profile =
  Isolated :: bool
  NetworkAllowlist :: "string list"
  FsReadOnly :: "string list"
  FsReadWrite :: "string list"

record toolchain_constraints =
  AllowedTools :: "string list"
  AllowedCommands :: "string list"

record diff_constraints =
  MaxFiles :: int
  MaxLines :: int
  DenyPathGlobs :: "string list"

record policy_constraints =
  Budgets :: budget_constraints
  Sandbox :: sandbox_profile
  Toolchain :: toolchain_constraints
  Diff :: diff_constraints
  RedactionLevel :: string

definition no_constraints :: policy_constraints where
  "no_constraints =
     \<lparr>Budgets = \<lparr>MaxRuntimeMs = 0, MaxRetries = 0, MaxArtifactBytes = 0, MaxConcurrentJobs = 0\<rparr>,
      Sandbox = \<lparr>Isolated = False, NetworkAllowlist = [], FsReadOnly = [], FsReadWrite = []\<rparr>,
      Toolchain = \<lparr>AllowedTools = [], AllowedCommands = []\<rparr>,
      Diff = \<lparr>MaxFiles = 0, MaxLines = 0, DenyPathGlobs = []\<rparr>,
      RedactionLevel = []\<rparr>"

record policy_remediation =
  rem_ID :: string
  rem_Title :: string
  rem_Summary :: string
  rem_ReplacementTopic :: string
  rem_ReplacementCapability :: string
  rem_AddLabels :: "string gomap"
  rem_RemoveLabels :: "string list"

record policy_rule =
  r_ID :: string
  r_Tier :: string
  r_Selector :: policy_selector
  r_Match :: policy_match
  r_Velocity :: "velocity_config option"
  r_Decision :: string
  r_Reason :: string
  r_Constraints :: policy_constraints
  r_Remediations :: "policy_remediation list"

record policy_tier_default =
  td_Tier :: string
  td_Selector :: policy_selector
  td_Decision :: string

section \<open>Input and output policies\<close>

record input_policy_config =
  ip_Enabled :: bool
  ip_FailMode :: string
  ip_MaxScanBytes :: int

record require_human_threshold =
  MinSeverityForDeny :: string
  MinConfidenceForDeny :: float32
  DowngradeWhenPromptOnly :: bool

definition no_threshold :: require_human_threshold where
  "no_threshold = \<lparr>MinSeverityForDeny = [], MinConfidenceForDeny = 0, DowngradeWhenPromptOnly = False\<rparr>"

record scope_config =
  InstructionPath :: string
  ItemsPath :: string
  CategoryPath :: string
  NamePath :: string
  AllowedCategories :: "string list gomap"
  Aliases :: "string gomap"
  OnMissingInput :: string
  OnAmbiguous :: string

record input_policy_match =
  im_Tenants :: "string list"
  im_Topics :: "string list"
  im_Capabilities :: "string list"
  im_RiskTags :: "string list"
  im_Scanners :: "string list"
  im_ContentPatterns :: "string list"
  im_Keywords :: "string list"
  im_ContentTypes :: "string list"
  im_Detectors :: "string list"
  im_InputSizeGt :: int
  im_MaxInputBytes :: int
  im_Scope :: "scope_config option"

record input_policy_rule =
  ir_ID :: string
  ir_Tier :: string
  ir_Selector :: policy_selector
  ir_Enabled :: "bool option"
  ir_Severity :: string
  ir_Desc :: string
  ir_Match :: input_policy_match
  ir_Decision :: string
  ir_Reason :: string

record output_policy_config =
  op_Enabled :: bool
  op_FailMode :: string

record output_policy_match =
  om_Tenants :: "string list"
  om_Topics :: "string list"
  om_Capabilities :: "string list"
  om_RiskTags :: "string list"
  om_Scanners :: "string list"
  om_ContentPatterns :: "string list"
  om_Keywords :: "string list"
  om_ContentTypes :: "string list"
  om_Detectors :: "string list"
  om_OutputSizeGt :: int
  om_MaxOutputBytes :: int
  om_HasError :: "bool option"

record output_policy_rule =
  or_ID :: string
  or_Enabled :: "bool option"
  or_Severity :: string
  or_Desc :: string
  or_Match :: output_policy_match
  or_Decision :: string
  or_Reason :: string

section \<open>Policies\<close>

record tenant_policy =
  AllowTopics :: "string list"
  DenyTopics :: "string list"
  AllowedRepoHosts :: "string list"
  DeniedRepoHosts :: "string list"
  MaxConcurrent :: int
  tp_MCP :: mcp_policy

record safety_policy =
  p_Version :: string
  p_Tier :: string
  p_Selector :: policy_selector
  p_Rules :: "policy_rule list"
  p_InputPolicy :: input_policy_config
  p_InputRules :: "input_policy_rule list"
  p_RequireHuman :: require_human_threshold
  p_OutputPolicy :: output_policy_config
  p_OutputRules :: "output_policy_rule list"
  p_DefaultTenant :: string
  p_DefaultDecision :: string
  p_Tenants :: "tenant_policy gomap"
  p_TierDefaults :: "policy_tier_default list"

definition no_policy :: safety_policy where
  "no_policy =
     \<lparr>p_Version = [], p_Tier = [], p_Selector = no_selector, p_Rules = [],
      p_InputPolicy = \<lparr>ip_Enabled = False, ip_FailMode = [], ip_MaxScanBytes = 0\<rparr>,
      p_InputRules = [], p_RequireHuman = no_threshold,
      p_OutputPolicy = \<lparr>op_Enabled = False, op_FailMode = []\<rparr>, p_OutputRules = [],
      p_DefaultTenant = [], p_DefaultDecision = [], p_Tenants = [], p_TierDefaults = []\<rparr>"

section \<open>Requests and decisions\<close>

record policy_meta =
  m_ActorID :: string
  m_ActorType :: string
  m_IdempotencyKey :: string
  m_Capability :: string
  m_RiskTags :: "string list"
  m_Requires :: "string list"
  m_PackID :: string
  m_AgentID :: string
  m_AgentRiskTier :: string
  m_AgentDataClassifications :: "string list"
  m_AgentName :: string
  m_AgentTeam :: string

definition no_meta :: policy_meta where
  "no_meta =
     \<lparr>m_ActorID = [], m_ActorType = [], m_IdempotencyKey = [], m_Capability = [], m_RiskTags = [],
      m_Requires = [], m_PackID = [], m_AgentID = [], m_AgentRiskTier = [],
      m_AgentDataClassifications = [], m_AgentName = [], m_AgentTeam = []\<rparr>"

text \<open>A decoded JSON value, as Go's \<open>any\<close> holds it.\<close>

datatype goany =
    GoNil
  | GoBool bool
  | GoNumber float64
  | GoString string
  | GoArray "goany list"
  | GoObject "(string \<times> goany) list"

record action_target_resource =
  at_Type :: string
  at_ID :: string
  at_OwnerTenant :: string
  at_Archived :: bool

record action_approval_claim =
  ClaimText :: string
  ApprovalRef :: string

record action_session_taint =
  st_Pattern :: string
  st_Snippet :: string
  st_SourceTool :: string
  st_Severity :: string
  st_DetectedAt :: int

record action_descriptor =
  a_Kind :: string
  a_Verb :: string
  a_Server :: string
  a_Tool :: string
  a_TargetPath :: string
  a_TargetURL :: string
  a_TargetResource :: "action_target_resource option"
  a_Filters :: "string gomap"
  a_Wildcards :: "string list"
  a_Args :: "goany gomap"
  a_RiskTags :: "string list"
  a_RequiredEntitlement :: string
  a_ApprovalClaim :: "action_approval_claim option"
  a_SessionTaint :: "action_session_taint option"
  a_TaintLookupFailed :: bool

record policy_input =
  i_Tenant :: string
  i_Topic :: string
  i_Labels :: "string gomap"
  i_Meta :: policy_meta
  i_SecretsPresent :: bool
  i_MCP :: mcp_request
  i_Delegation :: "delegation_context option"
  i_Action :: "action_descriptor option"

record policy_decision =
  d_Decision :: string
  d_Reason :: string
  d_RuleID :: string
  d_RuleTier :: string
  d_Constraints :: policy_constraints
  d_ApprovalRequired :: bool
  d_Remediations :: "policy_remediation list"

lemmas zero_values =
  no_selector_def no_mcp_policy_def no_mcp_request_def any_match_def no_constraints_def
  no_threshold_def no_policy_def no_meta_def

end
