(* ===== verification/Delegation_Match.thy ===== *)
theory Delegation_Match
  imports Policy_Types
begin

text \<open>
  \<open>core/infra/config/delegation_policy.go\<close>: the match block of a rule on delegated
  requests, its validation, the one-line predicate language, and the delegation context the
  kernel rebuilds from the labels the gateway injected. An observer that counts rejections is
  called by the code; the model returns the fields it is called with.
\<close>

section \<open>Labels\<close>

definition LabelDelegationDepth :: string where "LabelDelegationDepth = ''_delegation.depth''"
definition LabelDelegationIssuer :: string where "LabelDelegationIssuer = ''_delegation.issuer''"
definition LabelDelegationIssuerChain :: string where "LabelDelegationIssuerChain = ''_delegation.issuer_chain''"
definition LabelDelegationParentIssuer :: string where "LabelDelegationParentIssuer = ''_delegation.parent_issuer''"
definition LabelDelegationJTI :: string where "LabelDelegationJTI = ''_delegation.jti''"
definition LabelDelegationExpiresAt :: string where "LabelDelegationExpiresAt = ''_delegation.expires_at''"
definition LabelDelegationAudience :: string where "LabelDelegationAudience = ''_delegation.audience''"
definition LabelDelegationScope :: string where "LabelDelegationScope = ''_delegation.scope''"

section \<open>Validation\<close>

definition hasDelegationScopedConstraint :: "delegation_match \<Rightarrow> bool" where
  "hasDelegationScopedConstraint m \<longleftrightarrow>
     MaxDepth m \<noteq> None \<or> Issuers m \<noteq> [] \<or> TrimSpace (RequireIssuer m) \<noteq> [] \<or> RequiredScope m \<noteq> []"

fun is_alpha :: "char \<Rightarrow> bool" where
  "is_alpha (Char b0 b1 b2 b3 b4 b5 b6 b7) \<longleftrightarrow>
     \<not> b7 \<and> b6 \<and> (b0 \<or> b1 \<or> b2 \<or> b3 \<or> b4) \<and> \<not> (b4 \<and> b3 \<and> (b2 \<or> (b1 \<and> b0)))"

definition agent_char :: "char \<Rightarrow> bool" where
  "agent_char c \<longleftrightarrow> is_alpha c \<or> is_digit c \<or> c = CHR ''_'' \<or> c = CHR ''-'' \<or> c = CHR ''.''"

text \<open>The language of \<open>^[A-Za-z0-9][A-Za-z0-9_\-\.]{0,127}$\<close>.\<close>

definition agentIDRegex :: "string \<Rightarrow> bool" where
  "agentIDRegex s \<longleftrightarrow>
     s \<noteq> [] \<and> (is_alpha (hd s) \<or> is_digit (hd s)) \<and> list_all agent_char (tl s) \<and> length (tl s) \<le> 127"

datatype delegation_error =
    NegativeMaxDepth int
  | EmptyIssuer
  | InvalidIssuer string
  | DuplicateIssuer string
  | InvalidRequireIssuer string
  | EmptyRequiredScope

fun validateIssuers :: "string list \<Rightarrow> string list \<Rightarrow> delegation_error option" where
  "validateIssuers seen [] = None"
| "validateIssuers seen (i # is) =
     (let t = TrimSpace i in
      if t = [] then Some EmptyIssuer
      else if \<not> agentIDRegex t then Some (InvalidIssuer t)
      else if t \<in> set seen then Some (DuplicateIssuer t)
      else validateIssuers (t # seen) is)"

definition negativeDepth :: "int option \<Rightarrow> bool" where
  "negativeDepth d = (case d of None \<Rightarrow> False | Some n \<Rightarrow> n < 0)"

definition Validate :: "delegation_match option \<Rightarrow> delegation_error option" where
  "Validate mo =
     (case mo of
        None \<Rightarrow> None
      | Some m \<Rightarrow>
          if negativeDepth (MaxDepth m) then Some (NegativeMaxDepth (the (MaxDepth m)))
          else case validateIssuers [] (Issuers m) of
              Some e \<Rightarrow> Some e
            | None \<Rightarrow>
                if TrimSpace (RequireIssuer m) \<noteq> [] \<and> \<not> agentIDRegex (TrimSpace (RequireIssuer m))
                then Some (InvalidRequireIssuer (RequireIssuer m))
                else if list_ex (\<lambda>s. TrimSpace s = []) (RequiredScope m) then Some EmptyRequiredScope
                else None)"

section \<open>Matching\<close>

definition DelegationMatchDenyFields :: "string list" where
  "DelegationMatchDenyFields =
     [''forbid_delegated'', ''max_depth'', ''issuers'', ''require_issuer'', ''required_scope'',
      ''delegation_required'']"

definition issuersAllow :: "string list \<Rightarrow> string list \<Rightarrow> bool" where
  "issuersAllow issuers chain = list_all (\<lambda>c. TrimSpace c \<in> TrimSpace ` set issuers) chain"

definition scopeCovers :: "string list \<Rightarrow> string list \<Rightarrow> bool" where
  "scopeCovers scope required =
     list_all (\<lambda>r. ToLower (TrimSpace r) \<in> (\<lambda>s. ToLower (TrimSpace s)) ` set scope) required"

text \<open>The verdict, and the calls of the rejection observer.\<close>

definition evaluateDelegationMatch ::
    "delegation_match option \<Rightarrow> delegation_context option \<Rightarrow> bool \<times> string list" where
  "evaluateDelegationMatch mo dlg =
     (case mo of
        None \<Rightarrow> (True, [])
      | Some m \<Rightarrow>
          if ForbidDelegated m
          then (if dlg = None then (True, []) else (False, [''forbid_delegated'']))
          else case dlg of
              None \<Rightarrow>
                (case DelegationRequired m of
                   Some True \<Rightarrow> (False, [''delegation_required''])
                 | Some False \<Rightarrow> (True, [])
                 | None \<Rightarrow>
                     if hasDelegationScopedConstraint m then (False, [''delegation_required''])
                     else (True, []))
            | Some d \<Rightarrow>
                if (case MaxDepth m of None \<Rightarrow> False | Some n \<Rightarrow> dc_Depth d > n)
                then (False, [''max_depth''])
                else if Issuers m \<noteq> [] \<and> \<not> issuersAllow (Issuers m) (dc_IssuerChain d)
                then (False, [''issuers''])
                else if TrimSpace (RequireIssuer m) \<noteq> [] \<and>
                        \<not> EqualFold (TrimSpace (dc_RootIssuer d)) (TrimSpace (RequireIssuer m))
                then (False, [''require_issuer''])
                else if RequiredScope m \<noteq> [] \<and> \<not> scopeCovers (dc_Scope d) (RequiredScope m)
                then (False, [''required_scope''])
                else (True, []))"

section \<open>The context carried by labels\<close>

fun dedupFold :: "string list \<Rightarrow> string list \<Rightarrow> string list" where
  "dedupFold seen [] = []"
| "dedupFold seen (p # ps) =
     (let t = TrimSpace p in
      if t = [] then dedupFold seen ps
      else if ToLower t \<in> set seen then dedupFold seen ps
      else t # dedupFold (ToLower t # seen) ps)"

definition normalizeDelegationList :: "string \<Rightarrow> string list" where
  "normalizeDelegationList raw =
     (if TrimSpace raw = [] then [] else dedupFold [] (Split raw CHR '',''))"

definition DelegationContextFromLabels :: "string gomap \<Rightarrow> delegation_context option" where
  "DelegationContextFromLabels labels =
     (if labels = [] then None
      else case Atoi (TrimSpace (mget labels LabelDelegationDepth)) of
          None \<Rightarrow> None
        | Some depth \<Rightarrow>
            if depth \<le> 0 then None
            else let chain0 = normalizeDelegationList (mget labels LabelDelegationIssuerChain);
                     root0 = TrimSpace (mget labels LabelDelegationIssuer);
                     root = (if root0 = [] \<and> chain0 \<noteq> [] then hd chain0 else root0);
                     chain = (if chain0 = [] \<and> root \<noteq> [] then [root] else chain0);
                     parent0 = TrimSpace (mget labels LabelDelegationParentIssuer);
                     parent = (if parent0 = [] \<and> chain \<noteq> [] then last chain else parent0)
                 in Some \<lparr>dc_Depth = depth, dc_IssuerChain = chain,
                         dc_Scope = normalizeDelegationList (mget labels LabelDelegationScope),
                         dc_RootIssuer = root, dc_ParentIssuer = parent,
                         dc_JTI = TrimSpace (mget labels LabelDelegationJTI),
                         dc_ExpiresAt = TrimSpace (mget labels LabelDelegationExpiresAt),
                         dc_Audience = TrimSpace (mget labels LabelDelegationAudience)\<rparr>)"

definition extra_if :: "string \<Rightarrow> string \<Rightarrow> string gomap" where
  "extra_if k v = (if TrimSpace v \<noteq> [] then [(k, TrimSpace v)] else [])"

definition DelegationAuditExtras :: "delegation_context option \<Rightarrow> string gomap" where
  "DelegationAuditExtras ctx =
     (case ctx of
        None \<Rightarrow> []
      | Some d \<Rightarrow>
          [(''delegation.depth'', Itoa (dc_Depth d))]
          @ extra_if ''delegation.root_issuer'' (dc_RootIssuer d)
          @ extra_if ''delegation.parent_issuer'' (dc_ParentIssuer d)
          @ extra_if ''delegation.jti'' (dc_JTI d)
          @ extra_if ''delegation.expires_at'' (dc_ExpiresAt d)
          @ extra_if ''delegation.audience'' (dc_Audience d))"

section \<open>Predicates\<close>

datatype delegation_predicate =
    PredDepth string int
  | PredIssuer string
  | PredScopeContains string

datatype predicate_error =
    InvalidDepthPredicate string
  | InvalidIssuerPredicate string
  | PredicateValueRequired
  | InvalidPredicate string

definition unquote :: "string \<Rightarrow> string" where
  "unquote raw =
     (if 2 \<le> length raw \<and>
         ((hd raw = CHR 0x27 \<and> last raw = CHR 0x27) \<or> (hd raw = CHR 0x22 \<and> last raw = CHR 0x22))
      then butlast (tl raw) else raw)"

definition parseDelegationPredicateValue :: "string \<Rightarrow> predicate_error + string" where
  "parseDelegationPredicateValue raw0 =
     (let raw = TrimSpace raw0 in
      if raw = [] then Inl PredicateValueRequired
      else let v = TrimSpace (unquote raw)
           in if v = [] then Inl PredicateValueRequired else Inr (ToLower v))"

fun parseDepthOp :: "string \<Rightarrow> string \<Rightarrow> string list \<Rightarrow> predicate_error + delegation_predicate" where
  "parseDepthOp raw tail [] = Inl (InvalidPredicate raw)"
| "parseDepthOp raw tail (op # ops) =
     (if HasPrefix tail op
      then (case Atoi (TrimSpace (TrimPrefix tail op)) of
              None \<Rightarrow> Inl (InvalidDepthPredicate raw)
            | Some v \<Rightarrow> Inr (PredDepth op v))
      else parseDepthOp raw tail ops)"

definition depthOps :: "string list" where
  "depthOps = [''>='', ''<='', ''=='', ''>'', ''<'']"

definition parseDelegationPredicate :: "string \<Rightarrow> predicate_error + delegation_predicate" where
  "parseDelegationPredicate raw0 =
     (let raw = TrimSpace raw0 in
      if HasPrefix raw ''delegation.depth''
      then parseDepthOp raw (TrimSpace (TrimPrefix raw ''delegation.depth'')) depthOps
      else if HasPrefix raw ''delegation.issuer''
      then (let tail = TrimSpace (TrimPrefix raw ''delegation.issuer'') in
            if \<not> HasPrefix tail ''=='' then Inl (InvalidIssuerPredicate raw)
            else case parseDelegationPredicateValue (TrimSpace (TrimPrefix tail ''=='')) of
                   Inl e \<Rightarrow> Inl e | Inr v \<Rightarrow> Inr (PredIssuer v))
      else if HasPrefix raw ''delegation.scope.contains('' \<and> HasSuffix raw '')''
      then (case parseDelegationPredicateValue
                   (TrimSpace (TrimSuffix (TrimPrefix raw ''delegation.scope.contains('') '')'')) of
              Inl e \<Rightarrow> Inl e | Inr v \<Rightarrow> Inr (PredScopeContains v))
      else Inl (InvalidPredicate raw))"

definition validateDelegationPredicate :: "string \<Rightarrow> predicate_error option" where
  "validateDelegationPredicate raw =
     (if TrimSpace raw = [] then None
      else case parseDelegationPredicate raw of Inl e \<Rightarrow> Some e | Inr _ \<Rightarrow> None)"

definition compareDelegationDepth :: "int \<Rightarrow> string \<Rightarrow> int \<Rightarrow> bool" where
  "compareDelegationDepth actual op expected =
     (if op = ''>'' then actual > expected
      else if op = ''>='' then actual \<ge> expected
      else if op = ''<'' then actual < expected
      else if op = ''<='' then actual \<le> expected
      else if op = ''=='' then actual = expected
      else False)"

text \<open>\<open>containsString\<close> of \<open>safety_policy.go\<close>, which the scope predicate shares with the matcher.\<close>

definition containsString :: "string list \<Rightarrow> string \<Rightarrow> bool" where
  "containsString xs v \<longleftrightarrow> v \<noteq> [] \<and> list_ex (\<lambda>x. EqualFold (TrimSpace x) (TrimSpace v)) xs"

definition delegationPredicateMatch :: "string \<Rightarrow> delegation_context option \<Rightarrow> bool" where
  "delegationPredicateMatch raw dlg =
     (if TrimSpace raw = [] then True
      else case parseDelegationPredicate raw of
          Inl _ \<Rightarrow> False
        | Inr p \<Rightarrow>
            (case dlg of
               None \<Rightarrow> False
             | Some d \<Rightarrow>
                 (case p of
                    PredDepth op n \<Rightarrow> compareDelegationDepth (dc_Depth d) op n
                  | PredIssuer v \<Rightarrow> EqualFold (TrimSpace (dc_RootIssuer d)) v
                  | PredScopeContains v \<Rightarrow> containsString (dc_Scope d) v)))"

section \<open>Properties\<close>

lemma evaluateDelegationMatch_report:
  "evaluateDelegationMatch mo dlg = (True, []) \<or>
   (\<exists>f \<in> set DelegationMatchDenyFields. evaluateDelegationMatch mo dlg = (False, [f]))"
  by (simp add: evaluateDelegationMatch_def DelegationMatchDenyFields_def split: option.split bool.split)

text \<open>One context extends another: one more hop under the same root, with no new scope.\<close>

definition attenuates :: "delegation_context \<Rightarrow> delegation_context \<Rightarrow> bool" where
  "attenuates d' d \<longleftrightarrow>
     dc_Depth d \<le> dc_Depth d' \<and> set (dc_IssuerChain d) \<subseteq> set (dc_IssuerChain d') \<and>
     set (dc_Scope d') \<subseteq> set (dc_Scope d) \<and> dc_RootIssuer d' = dc_RootIssuer d"

lemma issuersAllow_antimono: "set c \<subseteq> set c' \<Longrightarrow> issuersAllow is c' \<Longrightarrow> issuersAllow is c"
  by (auto simp: issuersAllow_def list_all_iff)

lemma scopeCovers_mono: "set s' \<subseteq> set s \<Longrightarrow> scopeCovers s' r \<Longrightarrow> scopeCovers s r"
  unfolding scopeCovers_def list_all_iff by blast

lemma evaluateDelegationMatch_delegated:
  "fst (evaluateDelegationMatch (Some m) (Some d)) \<longleftrightarrow>
     \<not> ForbidDelegated m \<and> (\<forall>n. MaxDepth m = Some n \<longrightarrow> dc_Depth d \<le> n) \<and>
     (Issuers m = [] \<or> issuersAllow (Issuers m) (dc_IssuerChain d)) \<and>
     (TrimSpace (RequireIssuer m) = [] \<or>
        EqualFold (TrimSpace (dc_RootIssuer d)) (TrimSpace (RequireIssuer m))) \<and>
     (RequiredScope m = [] \<or> scopeCovers (dc_Scope d) (RequiredScope m))"
  by (simp add: evaluateDelegationMatch_def split: option.split)

text \<open>
  C40. Delegation attenuates: when a context extends another (at least as deep, at least the
  same issuers, no scope of its own, same root), every delegation block that accepts the
  longer delegation accepts the shorter one. Passing authority on never satisfies a block
  that the delegator did not satisfy.
\<close>

theorem evaluateDelegationMatch_attenuation:
  assumes "attenuates d' d" "fst (evaluateDelegationMatch mo (Some d'))"
  shows "fst (evaluateDelegationMatch mo (Some d))"
proof (cases mo)
  case None then show ?thesis by (simp add: evaluateDelegationMatch_def)
next
  case (Some m)
  then show ?thesis
    using assms issuersAllow_antimono [of "dc_IssuerChain d" "dc_IssuerChain d'"]
      scopeCovers_mono [of "dc_Scope d'" "dc_Scope d"]
    by (auto simp: evaluateDelegationMatch_delegated attenuates_def)
qed

definition ex_hop :: "int \<Rightarrow> string list \<Rightarrow> string list \<Rightarrow> delegation_context" where
  "ex_hop n chain scope =
     \<lparr>dc_Depth = n, dc_IssuerChain = chain, dc_Scope = scope, dc_RootIssuer = ''root'',
      dc_ParentIssuer = ''root'', dc_JTI = [], dc_ExpiresAt = [], dc_Audience = []\<rparr>"

definition ex_block :: delegation_match where
  "ex_block =
     \<lparr>MaxDepth = Some 2, Issuers = [''root'', ''a1''], RequireIssuer = ''Root'',
      RequiredScope = [''Read''], ForbidDelegated = False, DelegationRequired = None\<rparr>"

theorem evaluateDelegationMatch_attenuation_witness:
  "fst (evaluateDelegationMatch (Some ex_block) (Some (ex_hop 1 [''root''] [''read'', ''write''])))"
proof (rule evaluateDelegationMatch_attenuation)
  show "attenuates (ex_hop 2 [''root'', ''a1''] [''read'']) (ex_hop 1 [''root''] [''read'', ''write''])"
    by (simp add: attenuates_def ex_hop_def)
  show "fst (evaluateDelegationMatch (Some ex_block) (Some (ex_hop 2 [''root'', ''a1''] [''read''])))"
    by code_simp
qed

text \<open>The shape of a normalised list: trimmed, non-empty, comma-free and distinct up to case.\<close>

definition delegation_list :: "string list \<Rightarrow> bool" where
  "delegation_list xs \<longleftrightarrow>
     (\<forall>x \<in> set xs. TrimSpace x = x \<and> x \<noteq> [] \<and> CHR '','' \<notin> set x) \<and> distinct (map ToLower xs)"

lemma dedupFold_fresh:
  "\<forall>x \<in> set xs. TrimSpace x = x \<and> x \<noteq> [] \<and> ToLower x \<notin> set seen \<Longrightarrow>
   distinct (map ToLower xs) \<Longrightarrow> dedupFold seen xs = xs"
proof (induction xs arbitrary: seen)
  case (Cons a xs)
  have "\<forall>x \<in> set xs. TrimSpace x = x \<and> x \<noteq> [] \<and> ToLower x \<notin> set (ToLower a # seen)"
    using Cons.prems by (simp add: image_iff) metis
  then show ?case using Cons.IH Cons.prems by (simp add: Let_def)
qed simp

lemma dedupFold_step:
  obtains "dedupFold seen (p # ps) = dedupFold seen ps"
  | "dedupFold seen (p # ps) = TrimSpace p # dedupFold (ToLower (TrimSpace p) # seen) ps"
    "TrimSpace p \<noteq> []" "ToLower (TrimSpace p) \<notin> set seen"
  by (cases "TrimSpace p = [] \<or> ToLower (TrimSpace p) \<in> set seen") (auto simp: Let_def)

lemma dedupFold_seen: "\<forall>x \<in> set (dedupFold seen ps). ToLower x \<notin> set seen"
proof (induction ps arbitrary: seen)
  case (Cons p ps)
  show ?case
    by (rule dedupFold_step [of seen p ps]) (use Cons.IH in \<open>fastforce simp del: dedupFold.simps\<close>)+
qed simp

lemma dedupFold_distinct: "distinct (map ToLower (dedupFold seen ps))"
proof (induction ps arbitrary: seen)
  case (Cons p ps)
  show ?case
    by (rule dedupFold_step [of seen p ps]) (use Cons.IH dedupFold_seen in \<open>fastforce simp del: dedupFold.simps\<close>)+
qed simp

lemma dedupFold_elem:
  "x \<in> set (dedupFold seen ps) \<Longrightarrow> \<exists>p \<in> set ps. x = TrimSpace p \<and> x \<noteq> []"
proof (induction ps arbitrary: seen)
  case (Cons p ps)
  show ?case
    by (rule dedupFold_step [of seen p ps]) (use Cons in \<open>auto simp del: dedupFold.simps\<close>)
qed simp

lemma normalizeDelegationList_shape: "delegation_list (normalizeDelegationList raw)"
proof (cases "TrimSpace raw = []")
  case True then show ?thesis by (simp add: delegation_list_def normalizeDelegationList_def)
next
  case False
  have "TrimSpace x = x \<and> x \<noteq> [] \<and> CHR '','' \<notin> set x"
    if "x \<in> set (dedupFold [] (Split raw CHR '',''))" for x
    using dedupFold_elem [OF that] Split_parts_no_sep TrimSpace_set by (metis TrimSpace_idem)
  then show ?thesis using False
    by (simp add: delegation_list_def normalizeDelegationList_def dedupFold_distinct)
qed

lemma Join_eq_Nil_trim:
  assumes "x \<noteq> []" "TrimSpace x = x" shows "TrimSpace (Join (x # xs) sep) \<noteq> []"
proof -
  have "\<exists>c \<in> set x. \<not> is_space c" using assms TrimSpace_eq_Nil by metis
  moreover have "set x \<subseteq> set (Join (x # xs) sep)" by (cases xs) auto
  ultimately show ?thesis by (auto simp: TrimSpace_eq_Nil)
qed

lemma normalizeDelegationList_Join:
  assumes "delegation_list xs" shows "normalizeDelegationList (Join xs '','') = xs"
proof (cases xs)
  case Nil then show ?thesis by (simp add: normalizeDelegationList_def)
next
  case (Cons y ys)
  then have "Split (Join xs '','') CHR '','' = xs"
    using assms by (intro Split_Join) (auto simp: delegation_list_def)
  moreover have "TrimSpace (Join xs '','') \<noteq> []"
    unfolding Cons using assms Cons by (intro Join_eq_Nil_trim) (auto simp: delegation_list_def)
  ultimately show ?thesis
    using assms by (simp add: normalizeDelegationList_def delegation_list_def dedupFold_fresh)
qed

lemma depth_op_head:
  assumes "op \<in> set depthOps" "c \<noteq> CHR ''=''"
  shows "parseDepthOp raw (op @ c # t) depthOps =
    (case Atoi (TrimSpace (c # t)) of None \<Rightarrow> Inl (InvalidDepthPredicate raw) | Some v \<Rightarrow> Inr (PredDepth op v))"
  using assms by (auto simp: depthOps_def TrimPrefix_def)

lemma depth_ops_no_space: "op \<in> set depthOps \<Longrightarrow> op \<noteq> [] \<and> (\<forall>c \<in> set op. \<not> is_space c)"
  by (auto simp: depthOps_def is_space_def)

lemma hd_Itoa: "hd (Itoa v) \<noteq> CHR ''=''"
  using hd_nat_str [of "nat v"] by (auto simp: Itoa_def)

text \<open>
  The depth predicate language round-trips: for each of the five comparison operators
  and every depth of the \<open>int\<close> range, the printed predicate parses to that operator and
  depth, and it accepts a delegated request exactly when the comparison holds, and never a
  direct one.
\<close>

theorem delegation_depth_predicate_roundtrip:
  assumes "op \<in> set depthOps" "int64_range n"
  shows "parseDelegationPredicate (''delegation.depth'' @ op @ Itoa n) = Inr (PredDepth op n) \<and>
    (\<forall>d. delegationPredicateMatch (''delegation.depth'' @ op @ Itoa n) (Some d) =
           compareDelegationDepth (dc_Depth d) op n) \<and>
    \<not> delegationPredicateMatch (''delegation.depth'' @ op @ Itoa n) None"
proof -
  let ?raw = "''delegation.depth'' @ op @ Itoa n"
  obtain c t where ct: "Itoa n = c # t" by (cases "Itoa n") auto
  have c: "c \<noteq> CHR ''=''" using hd_Itoa [of n] ct by simp
  have last: "last (op @ Itoa n) \<in> set (Itoa n)" using Itoa_nonempty [of n] by (simp del: Itoa_nonempty)
  have raw: "TrimSpace ?raw = ?raw"
    using last Itoa_no_space [of n] by (intro TrimSpace_idI) (auto simp: is_space_def)
  have tail: "TrimSpace (op @ Itoa n) = op @ Itoa n"
    using depth_ops_no_space [OF assms(1)] Itoa_no_space [of n] by (intro TrimSpace_no_space) auto
  have at: "Atoi (TrimSpace (c # t)) = Some n"
    using Atoi_Itoa [OF assms(2)] TrimSpace_no_space [OF Itoa_no_space [of n]] ct by simp
  have parse: "parseDelegationPredicate ?raw = Inr (PredDepth op n)"
    unfolding parseDelegationPredicate_def Let_def raw
    using depth_op_head [OF assms(1) c, of ?raw t] at tail
    by (simp only: HasPrefix_append TrimPrefix_append tail ct if_True at option.case)
  moreover have "TrimSpace ?raw \<noteq> []" unfolding raw by simp
  ultimately show ?thesis by (auto simp: delegationPredicateMatch_def)
qed

theorem delegation_depth_predicate_roundtrip_witness:
  "delegationPredicateMatch (''delegation.depth'' @ ''<='' @ Itoa 3) (Some (ex_hop 3 [] []))"
  using delegation_depth_predicate_roundtrip [of "''<=''" 3]
  by (simp add: depthOps_def int64_range_def ex_hop_def compareDelegationDepth_def)

end
