(* ===== verification/Safety_Policy.thy ===== *)
theory Safety_Policy
  imports Delegation_Match "HOL-Library.Multiset"
begin

text \<open>
  \<open>core/infra/config/safety_policy.go\<close>: tiers and selectors, validation of a parsed document,
  matching a rule against a request, and the first-match evaluation of a policy, including the
  rules derived from the older per-tenant topic lists.
\<close>

section \<open>Tiers and selectors\<close>

definition PolicyTierGlobal :: string where "PolicyTierGlobal = ''global''"
definition PolicyTierWorkflow :: string where "PolicyTierWorkflow = ''workflow''"
definition PolicyTierJob :: string where "PolicyTierJob = ''job''"

lemmas tier_names = PolicyTierGlobal_def PolicyTierWorkflow_def PolicyTierJob_def

definition NormalizePolicyTier :: "string \<Rightarrow> string" where
  "NormalizePolicyTier raw =
     (let tier = ToLower (TrimSpace raw) in if tier = [] then PolicyTierGlobal else tier)"

definition IsValidPolicyTier :: "string \<Rightarrow> bool" where
  "IsValidPolicyTier raw \<longleftrightarrow>
     NormalizePolicyTier raw \<in> {PolicyTierGlobal, PolicyTierWorkflow, PolicyTierJob}"

definition TrimPolicySelector :: "policy_selector \<Rightarrow> policy_selector" where
  "TrimPolicySelector s =
     \<lparr>WorkflowID = TrimSpace (WorkflowID s), JobID = TrimSpace (JobID s), SessionID = TrimSpace (SessionID s)\<rparr>"

definition overlay :: "string \<Rightarrow> string \<Rightarrow> string" where
  "overlay base over = (if over \<noteq> [] then over else base)"

definition MergePolicySelector :: "policy_selector \<Rightarrow> policy_selector \<Rightarrow> policy_selector" where
  "MergePolicySelector base0 over0 =
     (let base = TrimPolicySelector base0; over = TrimPolicySelector over0
      in \<lparr>WorkflowID = overlay (WorkflowID base) (WorkflowID over),
          JobID = overlay (JobID base) (JobID over),
          SessionID = overlay (SessionID base) (SessionID over)\<rparr>)"

definition PolicySelectorKey :: "string \<Rightarrow> policy_selector \<Rightarrow> string" where
  "PolicySelectorKey tier selector =
     (let s = TrimPolicySelector selector; t = NormalizePolicyTier tier in
      if t = PolicyTierWorkflow then WorkflowID s
      else if t = PolicyTierJob then (if JobID s \<noteq> [] then JobID s else SessionID s)
      else [])"

section \<open>Velocity keys\<close>

datatype velocity_error =
    VelocityMaxRequests string int
  | VelocityWindow string int
  | VelocityKeyEmpty string

definition VelocityConfig_Validate :: "velocity_config option \<Rightarrow> string \<Rightarrow> velocity_error option" where
  "VelocityConfig_Validate vo ruleID =
     (case vo of
        None \<Rightarrow> None
      | Some v \<Rightarrow>
          if MaxRequests v \<le> 0 then Some (VelocityMaxRequests ruleID (MaxRequests v))
          else if WindowSeconds v \<le> 0 then Some (VelocityWindow ruleID (WindowSeconds v))
          else if TrimSpace (Key v) = [] then Some (VelocityKeyEmpty ruleID)
          else None)"

definition resolveKeyPart :: "string \<Rightarrow> policy_input \<Rightarrow> string" where
  "resolveKeyPart key i =
     (if HasPrefix key ''labels.'' then mget (i_Labels i) (TrimPrefix key ''labels.'')
      else if key = ''actor_id'' then m_ActorID (i_Meta i)
      else if key = ''actor_type'' then m_ActorType (i_Meta i)
      else if key = ''tenant'' then i_Tenant i
      else if key = ''topic'' then i_Topic i
      else if key = ''pack_id'' then m_PackID (i_Meta i)
      else if key = ''capability'' then m_Capability (i_Meta i)
      else [])"

text \<open>The loop over the parts of a compound key; an unresolved part stops it.\<close>

fun resolveParts :: "string list \<Rightarrow> policy_input \<Rightarrow> string list option" where
  "resolveParts [] i = Some []"
| "resolveParts (p # ps) i =
     (let v = resolveKeyPart (TrimSpace p) i in
      if v = [] then None else map_option (Cons v) (resolveParts ps i))"

definition ResolveKey :: "velocity_config option \<Rightarrow> policy_input \<Rightarrow> string" where
  "ResolveKey vo i =
     (case vo of
        None \<Rightarrow> []
      | Some v \<Rightarrow>
          if Key v = [] then []
          else if Contains (Key v) '':''
          then (case resolveParts (Split (Key v) CHR '':'') i of None \<Rightarrow> [] | Some vs \<Rightarrow> Join vs '':'')
          else resolveKeyPart (Key v) i)"

section \<open>Matching\<close>

definition containsAny :: "string list \<Rightarrow> string list \<Rightarrow> bool" where
  "containsAny xs vs \<longleftrightarrow> xs \<noteq> [] \<and> vs \<noteq> [] \<and> list_ex (containsString xs) vs"

definition containsAll :: "string list \<Rightarrow> string list \<Rightarrow> bool" where
  "containsAll vs required \<longleftrightarrow> list_all (containsString vs) required"

definition labelsMatch :: "string gomap \<Rightarrow> string gomap \<Rightarrow> bool" where
  "labelsMatch required actual \<longleftrightarrow>
     (if required = [] then True
      else if actual = [] then False
      else list_all (\<lambda>(k, v). mget actual k = v) required)"

definition labelAllowlistMatch :: "string list gomap \<Rightarrow> string gomap \<Rightarrow> bool" where
  "labelAllowlistMatch allowlists labels \<longleftrightarrow>
     list_ex (\<lambda>(k, allowed).
       case map_of labels k of
         None \<Rightarrow> False
       | Some actual \<Rightarrow>
           \<not> list_ex (\<lambda>v. ToLower (TrimSpace v) = ToLower (TrimSpace actual)) allowed) allowlists"

definition labelThresholdMatch :: "float64 gomap \<Rightarrow> string gomap \<Rightarrow> bool" where
  "labelThresholdMatch thresholds labels \<longleftrightarrow>
     list_ex (\<lambda>(k, maxVal).
       case map_of labels k of
         None \<Rightarrow> False
       | Some actual \<Rightarrow>
           (case ParseFloat (TrimSpace actual) of
              None \<Rightarrow> False
            | Some parsed \<Rightarrow> f64_lt maxVal parsed)) thresholds"

definition matchTopic :: "string \<Rightarrow> string \<Rightarrow> bool" where
  "matchTopic pattern topic \<longleftrightarrow> TrimSpace pattern \<noteq> [] \<and> path_match (TrimSpace pattern) topic"

definition matchAnyTopic :: "string list \<Rightarrow> string \<Rightarrow> bool" where
  "matchAnyTopic patterns topic \<longleftrightarrow> list_ex (\<lambda>p. matchTopic p topic) patterns"

definition mcpUsed :: "mcp_request \<Rightarrow> bool" where
  "mcpUsed q \<longleftrightarrow>
     TrimSpace (Server q) \<noteq> [] \<or> TrimSpace (Tool q) \<noteq> [] \<or> TrimSpace (Resource q) \<noteq> [] \<or>
     TrimSpace (Action q) \<noteq> []"

definition matchMCPField :: "string \<Rightarrow> string \<Rightarrow> string list \<Rightarrow> string list \<Rightarrow> bool \<times> string" where
  "matchMCPField field value allow deny =
     (if containsString deny value then (False, ''mcp '' @ field @ '' '' @ Quote value @ '' denied'')
      else if allow \<noteq> [] \<and> \<not> containsString allow value
      then (False, ''mcp '' @ field @ '' '' @ Quote value @ '' not allowed'')
      else (True, []))"

definition mcpMatch :: "mcp_policy \<Rightarrow> mcp_request \<Rightarrow> bool" where
  "mcpMatch p q =
     (if \<not> mcpUsed q then True
      else if \<not> fst (matchMCPField ''server'' (Server q) (AllowServers p) (DenyServers p)) then False
      else if \<not> fst (matchMCPField ''tool'' (Tool q) (AllowTools p) (DenyTools p)) then False
      else if \<not> fst (matchMCPField ''resource'' (Resource q) (AllowResources p) (DenyResources p)) then False
      else if \<not> fst (matchMCPField ''action'' (Action q) (AllowActions p) (DenyActions p)) then False
      else True)"

definition MCPAllowed :: "mcp_policy \<Rightarrow> mcp_request \<Rightarrow> bool \<times> string" where
  "MCPAllowed p q =
     (let server = matchMCPField ''server'' (Server q) (AllowServers p) (DenyServers p);
          tool = matchMCPField ''tool'' (Tool q) (AllowTools p) (DenyTools p);
          resource = matchMCPField ''resource'' (Resource q) (AllowResources p) (DenyResources p);
          action = matchMCPField ''action'' (Action q) (AllowActions p) (DenyActions p)
      in if \<not> mcpUsed q then (True, [])
         else if \<not> fst server then (False, snd server)
         else if \<not> fst tool then (False, snd tool)
         else if \<not> fst resource then (False, snd resource)
         else if \<not> fst action then (False, snd action)
         else (True, []))"

definition matchRule :: "policy_match \<Rightarrow> policy_input \<Rightarrow> bool" where
  "matchRule m i =
     (if Tenants m \<noteq> [] \<and> \<not> containsString (Tenants m) (i_Tenant i) then False
      else if Topics m \<noteq> [] \<and> \<not> matchAnyTopic (Topics m) (i_Topic i) then False
      else if Capabilities m \<noteq> [] \<and> \<not> containsString (Capabilities m) (m_Capability (i_Meta i)) then False
      else if RiskTags m \<noteq> [] \<and> \<not> containsAny (RiskTags m) (m_RiskTags (i_Meta i)) then False
      else if Requires m \<noteq> [] \<and> \<not> containsAll (m_Requires (i_Meta i)) (Requires m) then False
      else if PackIDs m \<noteq> [] \<and> \<not> containsString (PackIDs m) (m_PackID (i_Meta i)) then False
      else if ActorIDs m \<noteq> [] \<and> \<not> containsString (ActorIDs m) (m_ActorID (i_Meta i)) then False
      else if ActorTypes m \<noteq> [] \<and> \<not> containsString (ActorTypes m) (m_ActorType (i_Meta i)) then False
      else if AgentRiskTiers m \<noteq> [] \<and> \<not> containsString (AgentRiskTiers m) (m_AgentRiskTier (i_Meta i))
      then False
      else if AgentDataClassifications m \<noteq> [] \<and>
              \<not> containsAny (AgentDataClassifications m) (m_AgentDataClassifications (i_Meta i))
      then False
      else if SecretsPresent m \<noteq> None \<and> i_SecretsPresent i \<noteq> the (SecretsPresent m) then False
      else if Labels m \<noteq> [] \<and> \<not> labelsMatch (Labels m) (i_Labels i) then False
      else if LabelAllowlist m \<noteq> [] \<and> \<not> labelAllowlistMatch (LabelAllowlist m) (i_Labels i) then False
      else if LabelThreshold m \<noteq> [] \<and> \<not> labelThresholdMatch (LabelThreshold m) (i_Labels i) then False
      else if \<not> delegationPredicateMatch (Predicate m) (i_Delegation i) then False
      else if \<not> fst (evaluateDelegationMatch (Delegation m) (i_Delegation i)) then False
      else if \<not> mcpMatch (MCP m) (i_MCP i) then False
      else True)"

section \<open>Decisions\<close>

definition normalizeDecision :: "string \<Rightarrow> string" where
  "normalizeDecision raw =
     (let d = ToLower (TrimSpace raw) in
      if d \<in> {''allow'', ''permit''} then ''allow''
      else if d \<in> {''deny'', ''block''} then ''deny''
      else if d \<in> {''require_approval'', ''require-approval'', ''require_human''} then ''require_approval''
      else if d \<in> {''allow_with_constraints'', ''allow-with-constraints''} then ''allow_with_constraints''
      else if d = ''throttle'' then ''throttle''
      else ''deny'')"

definition BuildDecision :: "policy_rule \<Rightarrow> policy_decision" where
  "BuildDecision r =
     \<lparr>d_Decision = normalizeDecision (r_Decision r), d_Reason = r_Reason r, d_RuleID = r_ID r,
      d_RuleTier = NormalizePolicyTier (r_Tier r), d_Constraints = r_Constraints r,
      d_ApprovalRequired = (normalizeDecision (r_Decision r) = ''require_approval''),
      d_Remediations = r_Remediations r\<rparr>"

text \<open>The reasons hold an em dash, three bytes of UTF-8.\<close>

definition em_dash :: string where "em_dash = [CHR 0xE2, CHR 0x80, CHR 0x94]"

definition plain_decision :: "string \<Rightarrow> string \<Rightarrow> string \<Rightarrow> policy_decision" where
  "plain_decision decision reason tier =
     \<lparr>d_Decision = decision, d_Reason = reason, d_RuleID = [], d_RuleTier = tier,
      d_Constraints = no_constraints, d_ApprovalRequired = False, d_Remediations = []\<rparr>"

definition DefaultPolicyDecision :: "safety_policy \<Rightarrow> policy_decision" where
  "DefaultPolicyDecision p =
     (let dd = ToLower (TrimSpace (p_DefaultDecision p)) in
      if dd = ''allow'' \<or> dd = ''permit''
      then plain_decision ''allow'' (''no matching rule '' @ em_dash @ '' default policy: allow'')
             (NormalizePolicyTier (p_Tier p))
      else plain_decision ''deny'' (''no matching rule '' @ em_dash @ '' default policy: deny'')
             (NormalizePolicyTier (p_Tier p)))"

section \<open>Rules of tenant policies\<close>

definition legacyDeny :: "string \<Rightarrow> tenant_policy \<Rightarrow> nat \<Rightarrow> string \<Rightarrow> policy_rule" where
  "legacyDeny tenant tp idx pat =
     \<lparr>r_ID = ''legacy:'' @ tenant @ '':deny:'' @ Itoa (int idx + 1), r_Tier = [], r_Selector = no_selector,
      r_Match = any_match\<lparr>Tenants := [tenant], Topics := [pat], MCP := tp_MCP tp\<rparr>,
      r_Velocity = None, r_Decision = ''deny'',
      r_Reason = ''topic '' @ Quote pat @ '' denied by tenant policy'',
      r_Constraints = no_constraints, r_Remediations = []\<rparr>"

definition legacyAllow :: "string \<Rightarrow> tenant_policy \<Rightarrow> nat \<Rightarrow> string \<Rightarrow> policy_rule" where
  "legacyAllow tenant tp idx pat =
     \<lparr>r_ID = ''legacy:'' @ tenant @ '':allow:'' @ Itoa (int idx + 1), r_Tier = [], r_Selector = no_selector,
      r_Match = any_match\<lparr>Tenants := [tenant], Topics := [pat], MCP := tp_MCP tp\<rparr>,
      r_Velocity = None, r_Decision = ''allow'', r_Reason = [],
      r_Constraints = no_constraints, r_Remediations = []\<rparr>"

definition legacyTenantRules :: "string \<times> tenant_policy \<Rightarrow> policy_rule list" where
  "legacyTenantRules =
     (\<lambda>(tenant, tp).
        map (\<lambda>(idx, pat). legacyDeny tenant tp idx pat) (enumerate 0 (DenyTopics tp)) @
        map (\<lambda>(idx, pat). legacyAllow tenant tp idx pat) (enumerate 0 (AllowTopics tp)))"

definition legacyRules :: "safety_policy \<Rightarrow> policy_rule list" where
  "legacyRules p = concat (map legacyTenantRules (p_Tenants p))"

definition EffectiveRules :: "safety_policy \<Rightarrow> policy_rule list" where
  "EffectiveRules p = (if p_Rules p \<noteq> [] then p_Rules p else legacyRules p)"

section \<open>Evaluation\<close>

fun evaluateRules :: "safety_policy \<Rightarrow> policy_rule list \<Rightarrow> policy_input \<Rightarrow> policy_decision" where
  "evaluateRules p [] i = DefaultPolicyDecision p"
| "evaluateRules p (r # rs) i =
     (if matchRule (r_Match r) i then BuildDecision r else evaluateRules p rs i)"

definition Evaluate :: "safety_policy \<Rightarrow> policy_input \<Rightarrow> policy_decision" where
  "Evaluate p i = evaluateRules p (if p_Rules p = [] then legacyRules p else p_Rules p) i"

section \<open>Parsing\<close>

datatype tier_error =
    InvalidTier string string
  | SelectorRequired string string

definition validatePolicyTierSelector :: "string \<Rightarrow> string \<Rightarrow> policy_selector \<Rightarrow> tier_error option" where
  "validatePolicyTierSelector scope tier selector =
     (let normalized = NormalizePolicyTier tier in
      if \<not> IsValidPolicyTier normalized then Some (InvalidTier scope tier)
      else if normalized \<noteq> PolicyTierGlobal \<and> PolicySelectorKey normalized selector = []
      then Some (SelectorRequired scope normalized)
      else None)"

datatype ('s, 'y) parse_error =
    SchemaError 's
  | YamlError 'y
  | TierError tier_error
  | VelocityError velocity_error
  | DelegationError string delegation_error
  | PredicateError string predicate_error

definition inherited_tier :: "string \<Rightarrow> safety_policy \<Rightarrow> string" where
  "inherited_tier tier p = (if TrimSpace tier = [] then p_Tier p else tier)"

definition validateInputRule :: "safety_policy \<Rightarrow> input_policy_rule \<Rightarrow> ('s, 'y) parse_error option" where
  "validateInputRule p r =
     map_option TierError
       (validatePolicyTierSelector (''input_rule '' @ Quote (ir_ID r)) (inherited_tier (ir_Tier r) p)
          (MergePolicySelector (p_Selector p) (ir_Selector r)))"

definition validateRule :: "safety_policy \<Rightarrow> policy_rule \<Rightarrow> ('s, 'y) parse_error option" where
  "validateRule p r =
     (case validatePolicyTierSelector (''rule '' @ Quote (r_ID r)) (inherited_tier (r_Tier r) p)
             (MergePolicySelector (p_Selector p) (r_Selector r)) of
        Some e \<Rightarrow> Some (TierError e)
      | None \<Rightarrow>
          (case VelocityConfig_Validate (r_Velocity r) (r_ID r) of
             Some e \<Rightarrow> Some (VelocityError e)
           | None \<Rightarrow>
               (case Validate (Delegation (r_Match r)) of
                  Some e \<Rightarrow> Some (DelegationError (r_ID r) e)
                | None \<Rightarrow> map_option (PredicateError (r_ID r)) (validateDelegationPredicate (Predicate (r_Match r))))))"

fun first_error :: "('a \<Rightarrow> 'e option) \<Rightarrow> 'a list \<Rightarrow> 'e option" where
  "first_error f [] = None"
| "first_error f (x # xs) = (case f x of Some e \<Rightarrow> Some e | None \<Rightarrow> first_error f xs)"

definition validateParsed :: "safety_policy \<Rightarrow> ('s, 'y) parse_error option" where
  "validateParsed p =
     (case validatePolicyTierSelector ''policy'' (p_Tier p) (p_Selector p) of
        Some e \<Rightarrow> Some (TierError e)
      | None \<Rightarrow>
          (case first_error (validateInputRule p) (p_InputRules p) of
             Some e \<Rightarrow> Some e
           | None \<Rightarrow> first_error (validateRule p) (p_Rules p)))"

text \<open>The JSON schema check and the YAML decoder are arguments.\<close>

definition ParseSafetyPolicy ::
    "(string \<Rightarrow> 's option) \<Rightarrow> (string \<Rightarrow> 'y + safety_policy) \<Rightarrow> string \<Rightarrow>
     ('s, 'y) parse_error + safety_policy option" where
  "ParseSafetyPolicy schema unmarshal data =
     (if data = [] then Inr None
      else case schema data of
          Some e \<Rightarrow> Inl (SchemaError e)
        | None \<Rightarrow>
            (case unmarshal data of
               Inl e \<Rightarrow> Inl (YamlError e)
             | Inr p \<Rightarrow> (case validateParsed p of Some e \<Rightarrow> Inl e | None \<Rightarrow> Inr (Some p))))"

section \<open>Normal forms\<close>

lemma ToLower_TrimSpace_idem [simp]: "ToLower (TrimSpace (ToLower (TrimSpace s))) = ToLower (TrimSpace s)"
  by (simp add: ToLower_TrimSpace)

lemma NormalizePolicyTier_nonempty [simp]: "NormalizePolicyTier t \<noteq> []"
  by (simp add: NormalizePolicyTier_def tier_names)

lemma NormalizePolicyTier_names [simp]:
  "NormalizePolicyTier PolicyTierGlobal = PolicyTierGlobal"
  "NormalizePolicyTier PolicyTierWorkflow = PolicyTierWorkflow"
  "NormalizePolicyTier PolicyTierJob = PolicyTierJob"
  "NormalizePolicyTier [] = PolicyTierGlobal"
  by (simp_all add: NormalizePolicyTier_def tier_names ToLower_def TrimSpace_def is_space_def)

lemma NormalizePolicyTier_idem [simp]: "NormalizePolicyTier (NormalizePolicyTier t) = NormalizePolicyTier t"
proof (cases "ToLower (TrimSpace t) = []")
  case True then show ?thesis by (simp add: NormalizePolicyTier_def [of t])
next
  case False
  then have "NormalizePolicyTier t = ToLower (TrimSpace t)" by (simp add: NormalizePolicyTier_def)
  then show ?thesis using False by (simp add: NormalizePolicyTier_def)
qed

lemma tier_names_distinct [simp]:
  "PolicyTierGlobal \<noteq> PolicyTierWorkflow" "PolicyTierWorkflow \<noteq> PolicyTierGlobal"
  "PolicyTierGlobal \<noteq> PolicyTierJob" "PolicyTierJob \<noteq> PolicyTierGlobal"
  "PolicyTierWorkflow \<noteq> PolicyTierJob" "PolicyTierJob \<noteq> PolicyTierWorkflow"
  by (simp_all add: tier_names)

lemma PolicySelectorKey_tier [simp]: "PolicySelectorKey (NormalizePolicyTier t) s = PolicySelectorKey t s"
  by (simp add: PolicySelectorKey_def)

lemma TrimPolicySelector_idem [simp]: "TrimPolicySelector (TrimPolicySelector s) = TrimPolicySelector s"
  by (simp add: TrimPolicySelector_def)

lemma TrimSpace_overlay [simp]:
  "TrimSpace (overlay (TrimSpace a) (TrimSpace b)) = overlay (TrimSpace a) (TrimSpace b)"
  by (simp add: overlay_def)

lemma TrimPolicySelector_Merge [simp]:
  "TrimPolicySelector (MergePolicySelector a b) = MergePolicySelector a b"
  by (simp add: MergePolicySelector_def TrimPolicySelector_def Let_def)

lemma PolicySelectorKey_trim [simp]: "PolicySelectorKey t (TrimPolicySelector s) = PolicySelectorKey t s"
  by (simp add: PolicySelectorKey_def)

lemma MergePolicySelector_assoc:
  "MergePolicySelector a (MergePolicySelector b c) = MergePolicySelector (MergePolicySelector a b) c"
  by (simp add: MergePolicySelector_def TrimPolicySelector_def overlay_def Let_def)

definition decisions :: "string list" where
  "decisions = [''allow'', ''deny'', ''require_approval'', ''allow_with_constraints'', ''throttle'']"

lemma normalizeDecision_range: "normalizeDecision raw \<in> set decisions"
  by (simp add: normalizeDecision_def decisions_def Let_def)

lemma ToLower_fixed: "\<forall>c \<in> set s. lower_char c = c \<Longrightarrow> ToLower s = s"
  by (simp add: ToLower_def map_idI)

lemma normalizeDecision_fixed: "d \<in> set decisions \<Longrightarrow> normalizeDecision d = d"
  by (auto simp: decisions_def normalizeDecision_def TrimSpace_def is_space_def ToLower_def)

lemma normalizeDecision_idem [simp]: "normalizeDecision (normalizeDecision d) = normalizeDecision d"
  by (rule normalizeDecision_fixed [OF normalizeDecision_range])

section \<open>First-match evaluation\<close>

interpretation ev: first_match "\<lambda>r i. matchRule (r_Match r) i" "\<lambda>r i. BuildDecision r"
    "\<lambda>i. DefaultPolicyDecision p" "\<lambda>rs i. evaluateRules p rs i" for p
  by unfold_locales simp_all

lemma Evaluate_EffectiveRules: "Evaluate p i = evaluateRules p (EffectiveRules p) i"
  by (simp add: Evaluate_def EffectiveRules_def)

definition default_allows :: "safety_policy \<Rightarrow> bool" where
  "default_allows p \<longleftrightarrow> ToLower (TrimSpace (p_DefaultDecision p)) \<in> {''allow'', ''permit''}"

lemma DefaultPolicyDecision_decision:
  "d_Decision (DefaultPolicyDecision p) = (if default_allows p then ''allow'' else ''deny'')"
  by (simp add: DefaultPolicyDecision_def default_allows_def plain_decision_def Let_def)

lemma first_match_split:
  assumes "\<exists>r \<in> set rs. P r"
  shows "\<exists>pre r post. rs = pre @ r # post \<and> list_all (\<lambda>r. \<not> P r) pre \<and> P r"
  using split_list_first_propE [of rs P] assms by (metis list_all_iff)

text \<open>
  C6. \<open>Evaluate\<close> fails closed. A decision other than deny has exactly two sources: the
  first rule of the effective list that matches the request, whose own normalised decision it
  is, or, when no rule matches at all, a default decision that the document spells allow or
  permit. A missing or misspelt default denies, and so does a rule with an unknown decision.
\<close>

theorem Evaluate_fail_closed:
  assumes "d_Decision (Evaluate p i) \<noteq> ''deny''"
  shows "(\<exists>pre r post. EffectiveRules p = pre @ r # post \<and>
            list_all (\<lambda>r. \<not> matchRule (r_Match r) i) pre \<and> matchRule (r_Match r) i \<and>
            Evaluate p i = BuildDecision r \<and> normalizeDecision (r_Decision r) = d_Decision (Evaluate p i)) \<or>
         (list_all (\<lambda>r. \<not> matchRule (r_Match r) i) (EffectiveRules p) \<and>
            ToLower (TrimSpace (p_DefaultDecision p)) \<in> {''allow'', ''permit''} \<and>
            Evaluate p i = DefaultPolicyDecision p)"
proof (cases "\<exists>r \<in> set (EffectiveRules p). matchRule (r_Match r) i")
  case True
  from first_match_split [OF this] obtain pre r post where
    split: "EffectiveRules p = pre @ r # post" "list_all (\<lambda>r. \<not> matchRule (r_Match r) i) pre"
      "matchRule (r_Match r) i" by blast
  then have "Evaluate p i = BuildDecision r"
    using ev.walk_first [of pre i r p post] by (simp add: Evaluate_EffectiveRules list_all_iff)
  with split show ?thesis by (auto simp: BuildDecision_def)
next
  case False
  then have "Evaluate p i = DefaultPolicyDecision p"
    using ev.walk_none [of "EffectiveRules p" i p] by (simp add: Evaluate_EffectiveRules)
  with False assms show ?thesis
    by (auto simp: DefaultPolicyDecision_decision default_allows_def list_all_iff split: if_splits)
qed

definition ex_rule :: "string \<Rightarrow> policy_match \<Rightarrow> string \<Rightarrow> policy_rule" where
  "ex_rule ident m d =
     \<lparr>r_ID = ident, r_Tier = [], r_Selector = no_selector, r_Match = m, r_Velocity = None,
      r_Decision = d, r_Reason = [], r_Constraints = no_constraints, r_Remediations = []\<rparr>"

definition ex_input :: "string \<Rightarrow> string \<Rightarrow> policy_input" where
  "ex_input tenant topic =
     \<lparr>i_Tenant = tenant, i_Topic = topic, i_Labels = [], i_Meta = no_meta, i_SecretsPresent = False,
      i_MCP = no_mcp_request, i_Delegation = None, i_Action = None\<rparr>"

definition ex_policy :: safety_policy where
  "ex_policy =
     no_policy\<lparr>p_Rules := [ex_rule ''r1'' (any_match\<lparr>Topics := [''job.admin.*'']\<rparr>) ''deny'',
                          ex_rule ''r2'' (any_match\<lparr>Tenants := [''acme'']\<rparr>) '' Require_Human '']\<rparr>"

theorem Evaluate_fail_closed_witness:
  "\<exists>pre r post. EffectiveRules ex_policy = pre @ r # post \<and> matchRule (r_Match r) (ex_input ''acme'' ''job.x'') \<and>
     normalizeDecision (r_Decision r) = ''require_approval''"
proof -
  have d: "d_Decision (Evaluate ex_policy (ex_input ''acme'' ''job.x'')) = ''require_approval''"
    by code_simp
  have "ToLower (TrimSpace (p_DefaultDecision ex_policy)) \<notin> {''allow'', ''permit''}" by code_simp
  then show ?thesis
    using Evaluate_fail_closed [of ex_policy "ex_input ''acme'' ''job.x''"] d by auto
qed

section \<open>Ranging over maps\<close>

lemma map_of_reorder: "mset m' = mset m \<Longrightarrow> wf_map m \<Longrightarrow> map_of m' = map_of m"
proof -
  assume eq: "mset m' = mset m" and wf: "wf_map m"
  have "mset (map fst m') = mset (map fst m)" using eq by simp
  from mset_eq_imp_distinct_iff [OF this] have "distinct (map fst m')" using wf by (simp add: wf_map_def)
  then show "map_of m' = map_of m"
    using wf mset_eq_setD [OF eq] map_of_inject_set by (auto simp: wf_map_def)
qed

lemma labelsMatch_reorder:
  assumes "mset l' = mset l" "mset a' = mset a" "wf_map a"
  shows "labelsMatch l' a' = labelsMatch l a"
proof -
  have "l' = [] \<longleftrightarrow> l = []" "a' = [] \<longleftrightarrow> a = []" using assms(1,2) by auto
  then show ?thesis using mset_eq_setD [OF assms(1)] map_of_reorder [OF assms(2,3)]
    by (simp add: labelsMatch_def list_all_iff mget_def)
qed

text \<open>
  Go ranges over a map in no fixed order. Whether a rule matches a request does not depend
  on it: reordering the label conditions of the rule and the labels of the request leaves
  \<open>matchRule\<close> unchanged.
\<close>

theorem matchRule_range_order:
  assumes "mset l' = mset (Labels m)" "mset al' = mset (LabelAllowlist m)"
    "mset th' = mset (LabelThreshold m)" "mset il' = mset (i_Labels i)" "wf_map (i_Labels i)"
  shows "matchRule (m\<lparr>Labels := l', LabelAllowlist := al', LabelThreshold := th'\<rparr>) (i\<lparr>i_Labels := il'\<rparr>) =
         matchRule m i"
proof -
  let ?m = "m\<lparr>Labels := l', LabelAllowlist := al', LabelThreshold := th'\<rparr>" and ?i = "i\<lparr>i_Labels := il'\<rparr>"
  have fields: "Tenants ?m = Tenants m" "Topics ?m = Topics m" "Capabilities ?m = Capabilities m"
    "RiskTags ?m = RiskTags m" "Requires ?m = Requires m" "PackIDs ?m = PackIDs m" "ActorIDs ?m = ActorIDs m"
    "ActorTypes ?m = ActorTypes m" "AgentRiskTiers ?m = AgentRiskTiers m"
    "AgentDataClassifications ?m = AgentDataClassifications m" "Labels ?m = l'" "LabelAllowlist ?m = al'"
    "LabelThreshold ?m = th'" "SecretsPresent ?m = SecretsPresent m" "Predicate ?m = Predicate m"
    "Delegation ?m = Delegation m" "MCP ?m = MCP m" "i_Tenant ?i = i_Tenant i" "i_Topic ?i = i_Topic i"
    "i_Labels ?i = il'" "i_Meta ?i = i_Meta i" "i_SecretsPresent ?i = i_SecretsPresent i"
    "i_MCP ?i = i_MCP i" "i_Delegation ?i = i_Delegation i" by simp_all
  have nil: "l' = [] \<longleftrightarrow> Labels m = []" "al' = [] \<longleftrightarrow> LabelAllowlist m = []" "th' = [] \<longleftrightarrow> LabelThreshold m = []"
    using assms(1-3) by auto
  have "labelAllowlistMatch al' il' = labelAllowlistMatch (LabelAllowlist m) (i_Labels i)"
    "labelThresholdMatch th' il' = labelThresholdMatch (LabelThreshold m) (i_Labels i)"
    using mset_eq_setD [OF assms(2)] mset_eq_setD [OF assms(3)] map_of_reorder [OF assms(4,5)]
    by (simp_all add: labelAllowlistMatch_def labelThresholdMatch_def list_ex_iff)
  then show ?thesis
    unfolding matchRule_def
    by (simp only: fields nil labelsMatch_reorder [OF assms(1,4,5)])
qed

theorem matchRule_range_order_witness:
  "matchRule (any_match\<lparr>Labels := [(''b'', ''2''), (''a'', ''1'')]\<rparr>)
     ((ex_input ''t'' ''x'')\<lparr>i_Labels := [(''b'', ''2''), (''a'', ''1'')]\<rparr>)"
proof -
  let ?m = "any_match\<lparr>Labels := [(''a'', ''1''), (''b'', ''2'')]\<rparr>"
  let ?i = "(ex_input ''t'' ''x'')\<lparr>i_Labels := [(''a'', ''1''), (''b'', ''2'')]\<rparr>"
  have "matchRule ?m ?i" by code_simp
  then show ?thesis
    using matchRule_range_order [of "[(''b'', ''2''), (''a'', ''1'')]" ?m "[]" "[]"
        "[(''b'', ''2''), (''a'', ''1'')]" ?i]
    by (simp add: any_match_def)
qed

definition tenant_key :: "string \<Rightarrow> string" where
  "tenant_key t = ToLower (TrimSpace t)"

lemma matchRule_tenant: "matchRule m i \<Longrightarrow> Tenants m \<noteq> [] \<Longrightarrow> containsString (Tenants m) (i_Tenant i)"
  by (rule ccontr) (simp only: matchRule_def simp_thms if_True)

lemma legacy_rule_tenants: "r \<in> set (legacyTenantRules (t, tp)) \<Longrightarrow> Tenants (r_Match r) = [t]"
  by (auto simp: legacyTenantRules_def legacyDeny_def legacyAllow_def)

lemma legacy_rule_tenant:
  "r \<in> set (legacyTenantRules (t, tp)) \<Longrightarrow> matchRule (r_Match r) i \<Longrightarrow> tenant_key t = tenant_key (i_Tenant i)"
  using matchRule_tenant [of "r_Match r" i] legacy_rule_tenants [of r t tp]
  by (simp add: containsString_def EqualFold_def tenant_key_def)

lemma legacy_filter:
  "filter (\<lambda>r. matchRule (r_Match r) i) (concat (map legacyTenantRules ts)) =
   concat (map (\<lambda>t. filter (\<lambda>r. matchRule (r_Match r) i) (legacyTenantRules t))
            (filter (\<lambda>t. tenant_key (fst t) = tenant_key (i_Tenant i)) ts))"
proof (induction ts)
  case (Cons t ts)
  have "filter (\<lambda>r. matchRule (r_Match r) i) (legacyTenantRules t) = []"
    if "tenant_key (fst t) \<noteq> tenant_key (i_Tenant i)"
    using legacy_rule_tenant [of _ "fst t" "snd t" i] that by (auto simp: filter_empty_conv)
  with Cons.IH show ?case by auto
qed simp

lemma filter_key_short: "distinct (map f xs) \<Longrightarrow> length (filter (\<lambda>x. f x = a) xs) \<le> 1"
proof (induction xs)
  case (Cons x xs)
  then have "f x = a \<Longrightarrow> filter (\<lambda>x. f x = a) xs = []" by (simp add: filter_empty_conv) (metis image_eqI)
  with Cons show ?case by auto
qed simp

lemma short_mset_eq: "mset xs = mset ys \<Longrightarrow> length xs \<le> 1 \<Longrightarrow> xs = ys"
  by (cases xs; cases ys) auto

lemma filter_key_reorder:
  assumes "mset ys = mset xs" "distinct (map f xs)"
  shows "filter (\<lambda>x. f x = a) ys = filter (\<lambda>x. f x = a) xs"
  using short_mset_eq [of "filter (\<lambda>x. f x = a) xs" "filter (\<lambda>x. f x = a) ys"]
    filter_key_short [OF assms(2)] assms(1) by (metis mset_filter)

text \<open>
  With the older per-tenant topic lists the generated rules come out in the order Go
  ranges over the tenants. As long as no two tenant names agree up to case and surrounding
  space, the decision does not depend on that order.
\<close>

theorem Evaluate_legacy_order:
  assumes "mset ts = mset (p_Tenants p)" "distinct (map (\<lambda>t. tenant_key (fst t)) (p_Tenants p))"
  shows "Evaluate (p\<lparr>p_Tenants := ts\<rparr>) i = Evaluate p i"
proof -
  have same_default: "evaluateRules (p\<lparr>p_Tenants := ts\<rparr>) rs i = evaluateRules p rs i" for rs
    by (induction rs) (simp_all add: DefaultPolicyDecision_def Let_def)
  have "filter (\<lambda>r. matchRule (r_Match r) i) (legacyRules (p\<lparr>p_Tenants := ts\<rparr>)) =
        filter (\<lambda>r. matchRule (r_Match r) i) (legacyRules p)"
    using filter_key_reorder [OF assms] by (simp add: legacyRules_def legacy_filter)
  then have "evaluateRules p (legacyRules (p\<lparr>p_Tenants := ts\<rparr>)) i = evaluateRules p (legacyRules p) i"
    by (rule ev.walk_cong_on_matching)
  then show ?thesis by (simp add: Evaluate_def same_default)
qed

definition ex_tenant :: "string list \<Rightarrow> string list \<Rightarrow> tenant_policy" where
  "ex_tenant allow deny =
     \<lparr>AllowTopics = allow, DenyTopics = deny, AllowedRepoHosts = [], DeniedRepoHosts = [],
      MaxConcurrent = 0, tp_MCP = no_mcp_policy\<rparr>"

theorem Evaluate_legacy_order_witness:
  "d_Decision (Evaluate (no_policy\<lparr>p_Tenants :=
      [(''b'', ex_tenant [] [''job.*'']), (''a'', ex_tenant [''job.*''] [])]\<rparr>) (ex_input ''A'' ''job.x'')) = ''allow''"
proof -
  let ?p = "no_policy\<lparr>p_Tenants := [(''a'', ex_tenant [''job.*''] []), (''b'', ex_tenant [] [''job.*''])]\<rparr>"
  have "d_Decision (Evaluate ?p (ex_input ''A'' ''job.x'')) = ''allow''" by code_simp
  moreover have "distinct (map (\<lambda>t. tenant_key (fst t)) (p_Tenants ?p))" by code_simp
  ultimately show ?thesis
    using Evaluate_legacy_order [of "[(''b'', ex_tenant [] [''job.*'']), (''a'', ex_tenant [''job.*''] [])]" ?p]
    by simp
qed

section \<open>MCP\<close>

text \<open>The rule matcher and the tenant check of the kernel read the lists the same way.\<close>

lemma MCPAllowed_mcpMatch: "fst (MCPAllowed p q) = mcpMatch p q"
  by (simp add: MCPAllowed_def mcpMatch_def Let_def)

lemma mcpMatch_deny:
  assumes "mcpUsed q" "mcpMatch p q"
  shows "\<not> containsString (DenyServers p) (Server q) \<and> \<not> containsString (DenyTools p) (Tool q) \<and>
    \<not> containsString (DenyResources p) (Resource q) \<and> \<not> containsString (DenyActions p) (Action q)"
  using assms by (simp add: mcpMatch_def matchMCPField_def split: if_splits)

section \<open>Validated documents\<close>

lemma first_error_None: "first_error f xs = None \<longleftrightarrow> (\<forall>x \<in> set xs. f x = None)"
  by (induction xs) (auto split: option.split)

lemma validatePolicyTierSelector_None:
  "validatePolicyTierSelector scope tier selector = None \<longleftrightarrow>
   IsValidPolicyTier tier \<and> (NormalizePolicyTier tier = PolicyTierGlobal \<or> PolicySelectorKey tier selector \<noteq> [])"
  by (auto simp: validatePolicyTierSelector_def IsValidPolicyTier_def Let_def)

lemma ParseSafetyPolicy_validated:
  "ParseSafetyPolicy schema unmarshal data = Inr (Some p) \<Longrightarrow>
   validateParsed p = (None :: ('s, 'y) parse_error option)"
  for schema :: "string \<Rightarrow> 's option" and unmarshal :: "string \<Rightarrow> 'y + safety_policy"
  by (auto simp: ParseSafetyPolicy_def split: if_splits option.splits sum.splits)

lemma validated_rule:
  "validateParsed p = (None :: ('s, 'y) parse_error option) \<Longrightarrow> r \<in> set (p_Rules p) \<Longrightarrow>
   validateRule p r = (None :: ('s, 'y) parse_error option)"
  by (auto simp: validateParsed_def first_error_None split: option.splits)

lemma validateRule_None:
  "validateRule p r = None \<longleftrightarrow>
   validatePolicyTierSelector (''rule '' @ Quote (r_ID r)) (inherited_tier (r_Tier r) p)
     (MergePolicySelector (p_Selector p) (r_Selector r)) = None \<and>
   VelocityConfig_Validate (r_Velocity r) (r_ID r) = None \<and>
   Validate (Delegation (r_Match r)) = None \<and> validateDelegationPredicate (Predicate (r_Match r)) = None"
  by (auto simp: validateRule_def split: option.splits)

end
