(* ===== verification/Policy_Merge.thy ===== *)
theory Policy_Merge
  imports Safety_Policy
begin

text \<open>
  \<open>core/infra/config/policy_merge.go\<close>: cloning a policy, normalising its tier metadata, and
  merging policy fragments. Values of the model are immutable, so a deep copy is the identity
  on the fields it copies; the definitions keep every field the Go clone trims or leaves out.
\<close>

section \<open>Clones\<close>

definition cloneMCPPolicy :: "mcp_policy \<Rightarrow> mcp_policy" where
  "cloneMCPPolicy p =
     \<lparr>AllowServers = AllowServers p, DenyServers = DenyServers p, AllowTools = AllowTools p,
      DenyTools = DenyTools p, AllowResources = AllowResources p, DenyResources = DenyResources p,
      AllowActions = AllowActions p, DenyActions = DenyActions p, GatewayEnabled = False,
      UpstreamServers = [], AllowedUpstreams = []\<rparr>"

definition clonePolicyMatch :: "policy_match \<Rightarrow> policy_match" where
  "clonePolicyMatch m =
     \<lparr>Tenants = Tenants m, Topics = Topics m, Capabilities = Capabilities m, RiskTags = RiskTags m,
      Requires = Requires m, PackIDs = PackIDs m, ActorIDs = ActorIDs m, ActorTypes = ActorTypes m,
      AgentRiskTiers = AgentRiskTiers m, AgentDataClassifications = AgentDataClassifications m,
      Labels = Labels m, LabelAllowlist = LabelAllowlist m, LabelThreshold = LabelThreshold m,
      SecretsPresent = SecretsPresent m, Predicate = Predicate m, Delegation = Delegation m,
      MCP = cloneMCPPolicy (MCP m)\<rparr>"

definition ClonePolicyRule :: "policy_rule \<Rightarrow> policy_rule" where
  "ClonePolicyRule r =
     r\<lparr>r_ID := TrimSpace (r_ID r), r_Tier := TrimSpace (r_Tier r),
       r_Selector := TrimPolicySelector (r_Selector r), r_Decision := TrimSpace (r_Decision r),
       r_Match := clonePolicyMatch (r_Match r)\<rparr>"

definition ClonePolicyRules :: "policy_rule list \<Rightarrow> policy_rule list" where
  "ClonePolicyRules rs = map ClonePolicyRule rs"

definition ClonePolicyTierDefaults :: "policy_tier_default list \<Rightarrow> policy_tier_default list" where
  "ClonePolicyTierDefaults ds =
     map (\<lambda>d. \<lparr>td_Tier = TrimSpace (td_Tier d), td_Selector = TrimPolicySelector (td_Selector d),
               td_Decision = TrimSpace (td_Decision d)\<rparr>) ds"

definition CloneOutputPolicyRules :: "output_policy_rule list \<Rightarrow> output_policy_rule list" where
  "CloneOutputPolicyRules rs =
     map (\<lambda>r. \<lparr>or_ID = TrimSpace (or_ID r), or_Enabled = or_Enabled r, or_Severity = TrimSpace (or_Severity r),
               or_Desc = or_Desc r, or_Match = or_Match r, or_Decision = TrimSpace (or_Decision r),
               or_Reason = or_Reason r\<rparr>) rs"

definition CloneTenantPolicy :: "tenant_policy \<Rightarrow> tenant_policy" where
  "CloneTenantPolicy t =
     \<lparr>AllowTopics = AllowTopics t, DenyTopics = DenyTopics t, AllowedRepoHosts = AllowedRepoHosts t,
      DeniedRepoHosts = DeniedRepoHosts t, MaxConcurrent = MaxConcurrent t, tp_MCP = cloneMCPPolicy (tp_MCP t)\<rparr>"

definition CloneSafetyPolicy :: "safety_policy \<Rightarrow> safety_policy" where
  "CloneSafetyPolicy p =
     \<lparr>p_Version = p_Version p, p_Tier = p_Tier p, p_Selector = TrimPolicySelector (p_Selector p),
      p_Rules = ClonePolicyRules (p_Rules p), p_InputPolicy = p_InputPolicy p, p_InputRules = p_InputRules p,
      p_RequireHuman = p_RequireHuman p, p_OutputPolicy = p_OutputPolicy p,
      p_OutputRules = CloneOutputPolicyRules (p_OutputRules p), p_DefaultTenant = p_DefaultTenant p,
      p_DefaultDecision = p_DefaultDecision p,
      p_Tenants = map (\<lambda>(k, v). (k, CloneTenantPolicy v)) (p_Tenants p),
      p_TierDefaults = ClonePolicyTierDefaults (p_TierDefaults p)\<rparr>"

section \<open>Tier metadata\<close>

definition moveScopedDefaultDecision :: "safety_policy \<Rightarrow> safety_policy" where
  "moveScopedDefaultDecision p =
     (let decision = TrimSpace (p_DefaultDecision p) in
      if decision = [] \<or> p_Tier p = PolicyTierGlobal then p\<lparr>p_DefaultDecision := decision\<rparr>
      else p\<lparr>p_TierDefaults := p_TierDefaults p @
               [\<lparr>td_Tier = p_Tier p, td_Selector = p_Selector p, td_Decision = decision\<rparr>],
             p_DefaultDecision := []\<rparr>)"

definition scopedTierDefault :: "policy_tier_default \<Rightarrow> policy_tier_default option" where
  "scopedTierDefault d =
     (let decision = TrimSpace (td_Decision d); tier = NormalizePolicyTier (td_Tier d) in
      if decision = [] \<or> tier = PolicyTierGlobal then None
      else Some \<lparr>td_Tier = tier, td_Selector = TrimPolicySelector (td_Selector d), td_Decision = decision\<rparr>)"

definition normalizeTierDefaults :: "safety_policy \<Rightarrow> safety_policy" where
  "normalizeTierDefaults p = p\<lparr>p_TierDefaults := List.map_filter scopedTierDefault (p_TierDefaults p)\<rparr>"

definition scoped_selector :: "string \<Rightarrow> policy_selector \<Rightarrow> policy_selector \<Rightarrow> policy_selector" where
  "scoped_selector tier base sel = (if tier = PolicyTierGlobal then no_selector else MergePolicySelector base sel)"

definition tierRule :: "safety_policy \<Rightarrow> policy_rule \<Rightarrow> policy_rule" where
  "tierRule p r =
     (let tier = NormalizePolicyTier (inherited_tier (r_Tier r) p)
      in r\<lparr>r_Tier := tier, r_Selector := scoped_selector tier (p_Selector p) (r_Selector r)\<rparr>)"

definition tierInputRule :: "safety_policy \<Rightarrow> input_policy_rule \<Rightarrow> input_policy_rule" where
  "tierInputRule p r =
     (let tier = NormalizePolicyTier (inherited_tier (ir_Tier r) p)
      in r\<lparr>ir_Tier := tier, ir_Selector := scoped_selector tier (p_Selector p) (ir_Selector r)\<rparr>)"

definition applyPolicyTierMetadata :: "safety_policy \<Rightarrow> safety_policy" where
  "applyPolicyTierMetadata p0 =
     (let p1 = p0\<lparr>p_Tier := NormalizePolicyTier (p_Tier p0), p_Selector := TrimPolicySelector (p_Selector p0)\<rparr>;
          p2 = normalizeTierDefaults (moveScopedDefaultDecision p1);
          p3 = p2\<lparr>p_Rules := map (tierRule p2) (p_Rules p2),
                  p_InputRules := map (tierInputRule p2) (p_InputRules p2)\<rparr>
      in if p_Tier p3 = PolicyTierGlobal then p3\<lparr>p_Selector := no_selector\<rparr> else p3)"

definition CloneSafetyPolicyWithTierMetadata :: "safety_policy \<Rightarrow> safety_policy" where
  "CloneSafetyPolicyWithTierMetadata p = applyPolicyTierMetadata (CloneSafetyPolicy p)"

section \<open>Merging\<close>

fun indexRules :: "('t \<Rightarrow> string) \<Rightarrow> nat \<Rightarrow> 't list \<Rightarrow> nat gomap \<Rightarrow> nat gomap" where
  "indexRules ident i [] seen = seen"
| "indexRules ident i (r # rs) seen =
     indexRules ident (Suc i) rs (if ident r \<noteq> [] then mput (ident r) i seen else seen)"

fun mergeLoop :: "('t \<Rightarrow> string) \<Rightarrow> nat gomap \<Rightarrow> 't list \<Rightarrow> 't list \<Rightarrow> 't list" where
  "mergeLoop ident seen base [] = base"
| "mergeLoop ident seen base (r # rs) =
     (if ident r \<noteq> []
      then (case map_of seen (ident r) of
              Some idx \<Rightarrow> mergeLoop ident seen (base[idx := r]) rs
            | None \<Rightarrow> mergeLoop ident (mput (ident r) (length base) seen) (base @ [r]) rs)
      else mergeLoop ident seen (base @ [r]) rs)"

definition MergeRulesByID :: "('t \<Rightarrow> string) \<Rightarrow> 't list \<Rightarrow> 't list \<Rightarrow> 't list" where
  "MergeRulesByID ident base add =
     (if add = [] then base else mergeLoop ident (indexRules ident 0 base []) base add)"

definition MergeMCPPolicy :: "mcp_policy \<Rightarrow> mcp_policy \<Rightarrow> mcp_policy" where
  "MergeMCPPolicy b e =
     \<lparr>AllowServers = AllowServers b @ AllowServers e, DenyServers = DenyServers b @ DenyServers e,
      AllowTools = AllowTools b @ AllowTools e, DenyTools = DenyTools b @ DenyTools e,
      AllowResources = AllowResources b @ AllowResources e, DenyResources = DenyResources b @ DenyResources e,
      AllowActions = AllowActions b @ AllowActions e, DenyActions = DenyActions b @ DenyActions e,
      GatewayEnabled = False, UpstreamServers = [], AllowedUpstreams = []\<rparr>"

definition mergeTenant :: "tenant_policy \<Rightarrow> tenant_policy \<Rightarrow> tenant_policy" where
  "mergeTenant cur add =
     \<lparr>AllowTopics = AllowTopics cur @ AllowTopics add, DenyTopics = DenyTopics cur @ DenyTopics add,
      AllowedRepoHosts = AllowedRepoHosts cur @ AllowedRepoHosts add,
      DeniedRepoHosts = DeniedRepoHosts cur @ DeniedRepoHosts add,
      MaxConcurrent =
        (if MaxConcurrent add > 0 \<and> (MaxConcurrent cur = 0 \<or> MaxConcurrent add < MaxConcurrent cur)
         then MaxConcurrent add else MaxConcurrent cur),
      tp_MCP = MergeMCPPolicy (tp_MCP cur) (tp_MCP add)\<rparr>"

fun mergeTenantsLoop :: "tenant_policy gomap \<Rightarrow> tenant_policy gomap \<Rightarrow> tenant_policy gomap" where
  "mergeTenantsLoop out [] = out"
| "mergeTenantsLoop out ((tenant, add) # rest) =
     mergeTenantsLoop
       (mput tenant
          (case map_of out tenant of None \<Rightarrow> CloneTenantPolicy add | Some cur \<Rightarrow> mergeTenant cur add) out)
       rest"

definition MergeTenantPolicies :: "tenant_policy gomap \<Rightarrow> tenant_policy gomap \<Rightarrow> tenant_policy gomap" where
  "MergeTenantPolicies base extra = mergeTenantsLoop (map (\<lambda>(k, v). (k, CloneTenantPolicy v)) base) extra"

definition threshold_unset :: "require_human_threshold \<Rightarrow> bool" where
  "threshold_unset t \<longleftrightarrow>
     MinSeverityForDeny t = [] \<and> f32_eq (MinConfidenceForDeny t) 0 \<and> \<not> DowngradeWhenPromptOnly t"

definition unscoped :: "safety_policy \<Rightarrow> safety_policy" where
  "unscoped p = p\<lparr>p_Tier := PolicyTierGlobal, p_Selector := no_selector\<rparr>"

definition mergeOutputPolicy :: "output_policy_config \<Rightarrow> output_policy_config \<Rightarrow> output_policy_config" where
  "mergeOutputPolicy out add =
     \<lparr>op_Enabled = (op_Enabled out \<or> op_Enabled add),
      op_FailMode = (if TrimSpace (op_FailMode out) = [] then TrimSpace (op_FailMode add) else op_FailMode out)\<rparr>"

definition MergePolicies :: "safety_policy option \<Rightarrow> safety_policy option \<Rightarrow> safety_policy option" where
  "MergePolicies base extra =
     (case (base, extra) of
        (None, _) \<Rightarrow> map_option (\<lambda>e. unscoped (CloneSafetyPolicyWithTierMetadata e)) extra
      | (Some b, None) \<Rightarrow> Some (unscoped (CloneSafetyPolicyWithTierMetadata b))
      | (Some b, Some e) \<Rightarrow>
          (let out = unscoped (CloneSafetyPolicyWithTierMetadata b);
               add = CloneSafetyPolicyWithTierMetadata e
           in Some (out
             \<lparr>p_Version := (if p_Version out = [] then p_Version add else p_Version out),
              p_DefaultTenant := (if p_DefaultTenant out = [] then p_DefaultTenant add else p_DefaultTenant out),
              p_DefaultDecision :=
                (if TrimSpace (p_DefaultDecision out) = [] then TrimSpace (p_DefaultDecision add)
                 else p_DefaultDecision out),
              p_RequireHuman := (if threshold_unset (p_RequireHuman out) then p_RequireHuman add else p_RequireHuman out),
              p_OutputPolicy := mergeOutputPolicy (p_OutputPolicy out) (p_OutputPolicy add),
              p_Rules := MergeRulesByID r_ID (p_Rules out) (p_Rules add),
              p_OutputRules := MergeRulesByID or_ID (p_OutputRules out) (CloneOutputPolicyRules (p_OutputRules add)),
              p_InputRules := MergeRulesByID ir_ID (p_InputRules out) (p_InputRules add),
              p_TierDefaults := p_TierDefaults out @ p_TierDefaults add,
              p_Tenants := MergeTenantPolicies (p_Tenants out) (p_Tenants add)\<rparr>)))"

section \<open>Rules by identifier\<close>

text \<open>The reference: put one rule in, over the rule that has its identifier or at the end.\<close>

definition upsert :: "('t \<Rightarrow> string) \<Rightarrow> 't \<Rightarrow> 't list \<Rightarrow> 't list" where
  "upsert ident r base =
     (if ident r \<noteq> [] \<and> ident r \<in> ident ` set base
      then map (\<lambda>b. if ident b = ident r then r else b) base else base @ [r])"

definition index_ok :: "('t \<Rightarrow> string) \<Rightarrow> nat gomap \<Rightarrow> 't list \<Rightarrow> bool" where
  "index_ok ident seen base \<longleftrightarrow>
     (\<forall>x i. map_of seen x = Some i \<longleftrightarrow> x \<noteq> [] \<and> i < length base \<and> ident (base ! i) = x)"

definition distinct_ids :: "('t \<Rightarrow> string) \<Rightarrow> 't list \<Rightarrow> bool" where
  "distinct_ids ident base \<longleftrightarrow>
     (\<forall>i < length base. \<forall>j < length base. ident (base ! i) = ident (base ! j) \<longrightarrow> ident (base ! i) \<noteq> [] \<longrightarrow> i = j)"

lemma index_ok_distinct: "index_ok ident seen base \<Longrightarrow> distinct_ids ident base"
  unfolding index_ok_def distinct_ids_def by (metis option.inject)

lemma indexRules_other:
  "(\<forall>r \<in> set rs. ident r \<noteq> x) \<Longrightarrow> map_of (indexRules ident i rs seen) x = map_of seen x"
  by (induction rs arbitrary: i seen) auto

lemma distinct_ids_tl: "distinct_ids ident (r # rs) \<Longrightarrow> distinct_ids ident rs"
  unfolding distinct_ids_def by (metis Suc_inject Suc_less_eq length_Cons nth_Cons_Suc)

lemma distinct_ids_hd: "distinct_ids ident (r # rs) \<Longrightarrow> ident r \<noteq> [] \<Longrightarrow> \<forall>r' \<in> set rs. ident r' \<noteq> ident r"
proof
  fix r' assume d: "distinct_ids ident (r # rs)" and n: "ident r \<noteq> []" and "r' \<in> set rs"
  then obtain j where "j < length rs" "rs ! j = r'" by (auto simp: in_set_conv_nth)
  then show "ident r' \<noteq> ident r"
    using d n unfolding distinct_ids_def
    by (metis Suc_less_eq length_Cons nth_Cons_0 nth_Cons_Suc old.nat.distinct(1) zero_less_Suc)
qed

lemma indexRules_lookup:
  assumes "distinct_ids ident rs" "x \<noteq> []" "x \<notin> keys seen"
  shows "map_of (indexRules ident i rs seen) x = Some j \<longleftrightarrow> i \<le> j \<and> j - i < length rs \<and> ident (rs ! (j - i)) = x"
  using assms
proof (induction rs arbitrary: i seen)
  case Nil then show ?case by (simp add: keys_def map_of_eq_None_iff [symmetric])
next
  case (Cons r rs)
  show ?case
  proof (cases "ident r = x")
    case True
    then have "\<forall>r' \<in> set rs. ident r' \<noteq> x" using distinct_ids_hd Cons.prems by metis
    then have "map_of (indexRules ident i (r # rs) seen) x = Some i" and "k < length rs \<Longrightarrow> ident (rs ! k) \<noteq> x" for k
      using True Cons.prems indexRules_other [of rs ident x] by simp_all
    then show ?thesis using True by (cases "j - i") auto
  next
    case False
    then have "x \<notin> keys (if ident r \<noteq> [] then mput (ident r) i seen else seen)" using Cons.prems by simp
    note IH = Cons.IH [OF distinct_ids_tl [OF Cons.prems(1)] Cons.prems(2) this, of "Suc i"]
    show ?thesis
    proof (cases "i < j")
      case True
      then have "j - i = Suc (j - Suc i)" by simp
      with IH True show ?thesis by simp
    qed (use IH False in \<open>auto simp: not_less\<close>)
  qed
qed

lemma indexRules_nonempty: "map_of seen [] = None \<Longrightarrow> map_of (indexRules ident i rs seen) [] = None"
  by (induction rs arbitrary: i seen) auto

lemma index_ok_indexRules: "distinct_ids ident base \<Longrightarrow> index_ok ident (indexRules ident 0 base []) base"
  unfolding index_ok_def
  using indexRules_lookup [of ident base _ "[]" 0] indexRules_nonempty [of "[]" ident 0 base]
  by (metis diff_zero empty_iff keys_Nil map_of.simps(1) option.distinct(1) zero_le)

lemma index_okD:
  "index_ok ident seen base \<Longrightarrow> map_of seen x = Some i \<longleftrightarrow> x \<noteq> [] \<and> i < length base \<and> ident (base ! i) = x"
  by (simp add: index_ok_def)

lemma index_ok_replace:
  assumes ok: "index_ok ident seen base" and hit: "map_of seen (ident r) = Some idx"
  shows "base[idx := r] = upsert ident r base" "index_ok ident seen (base[idx := r])"
proof -
  have idx: "ident r \<noteq> []" "idx < length base" "ident (base ! idx) = ident r"
    using index_okD [OF ok, of "ident r" idx] hit by simp_all
  have uniq: "ident (base ! j) \<noteq> ident r" if "j < length base" "j \<noteq> idx" for j
    using index_okD [OF ok, of "ident r" j] hit idx(1) that by auto
  have "base[idx := r] = map (\<lambda>b. if ident b = ident r then r else b) base"
    by (rule nth_equalityI) (use idx uniq in \<open>auto simp: nth_list_update\<close>)
  moreover have "ident r \<in> ident ` set base" using idx(2,3) by (metis image_eqI nth_mem)
  ultimately show "base[idx := r] = upsert ident r base" using idx(1) by (simp add: upsert_def)
  have same: "ident (base[idx := r] ! j) = ident (base ! j)" if "j < length base" for j
    using idx that by (auto simp: nth_list_update)
  show "index_ok ident seen (base[idx := r])"
    unfolding index_ok_def length_list_update using index_okD [OF ok] same by (simp cong: conj_cong)
qed

lemma index_ok_append:
  assumes ok: "index_ok ident seen base" and fresh: "ident r = [] \<or> map_of seen (ident r) = None"
  shows "base @ [r] = upsert ident r base"
    "index_ok ident (if ident r \<noteq> [] then mput (ident r) (length base) seen else seen) (base @ [r])"
proof -
  have new: "ident (base ! j) \<noteq> ident r" if "ident r \<noteq> []" "j < length base" for j
    using index_okD [OF ok, of "ident r" j] fresh that by auto
  then have "ident r \<noteq> [] \<Longrightarrow> ident r \<notin> ident ` set base" by (metis imageE in_set_conv_nth)
  then show "base @ [r] = upsert ident r base" by (auto simp: upsert_def)
  show "index_ok ident (if ident r \<noteq> [] then mput (ident r) (length base) seen else seen) (base @ [r])"
    unfolding index_ok_def using index_okD [OF ok] new
    by (auto simp: nth_append less_Suc_eq)
qed

lemma mergeLoop_upsert:
  "index_ok ident seen base \<Longrightarrow> mergeLoop ident seen base add = fold (upsert ident) add base \<and>
     distinct_ids ident (mergeLoop ident seen base add)"
proof (induction add arbitrary: seen base)
  case Nil then show ?case using index_ok_distinct by simp
next
  case (Cons r rs)
  consider idx where "ident r \<noteq> []" "map_of seen (ident r) = Some idx"
    | "ident r = [] \<or> map_of seen (ident r) = None" by blast
  then show ?case
  proof cases
    case 1
    then show ?thesis using index_ok_replace [OF Cons.prems, of r idx] Cons.IH [of seen "base[idx := r]"] by auto
  next
    case 2
    let ?seen = "if ident r \<noteq> [] then mput (ident r) (length base) seen else seen"
    have "mergeLoop ident seen base (r # rs) = mergeLoop ident ?seen (base @ [r]) rs" using 2 by auto
    then show ?thesis
      unfolding fold_simps using Cons.IH [OF index_ok_append(2) [OF Cons.prems 2]] index_ok_append(1) [OF Cons.prems 2]
      unfolding o_apply by metis
  qed
qed

lemma find_append: "find P (xs @ ys) = (case find P xs of None \<Rightarrow> find P ys | Some x \<Rightarrow> Some x)"
  by (induction xs) simp_all

lemma find_replace_other:
  "ident r \<noteq> x \<Longrightarrow>
   find (\<lambda>b. ident b = x) (map (\<lambda>b. if ident b = ident r then r else b) base) = find (\<lambda>b. ident b = x) base"
  by (induction base) auto

lemma find_replace_same:
  "ident r \<in> ident ` set base \<Longrightarrow>
   find (\<lambda>b. ident b = ident r) (map (\<lambda>b. if ident b = ident r then r else b) base) = Some r"
  by (induction base) auto

lemma find_absent: "x \<notin> ident ` set base \<Longrightarrow> find (\<lambda>b. ident b = x) base = None"
  by (auto simp: find_None_iff)

lemma find_upsert:
  "x \<noteq> [] \<Longrightarrow> find (\<lambda>b. ident b = x) (upsert ident r base) =
     (if ident r = x then Some r else find (\<lambda>b. ident b = x) base)"
proof (cases "ident r = x")
  case True
  assume "x \<noteq> []"
  with True show ?thesis
    using find_replace_same [of ident r base] find_absent [of x ident base] by (simp add: upsert_def find_append)
qed (simp add: upsert_def find_replace_other find_append split: option.split)

lemma find_fold_upsert:
  "x \<noteq> [] \<Longrightarrow> find (\<lambda>b. ident b = x) (fold (upsert ident) add base) =
     (case find (\<lambda>b. ident b = x) (rev add) of Some r \<Rightarrow> Some r | None \<Rightarrow> find (\<lambda>b. ident b = x) base)"
proof (induction add rule: rev_induct)
  case (snoc r rs) then show ?case by (simp add: find_upsert)
qed simp

text \<open>
  Merging rule lists is last-seen-wins by identifier: whatever the positions, looking a
  non-empty identifier up in the merged list gives the last rule of the added list that
  carries it, and otherwise the rule the base list had. The merged list is the one that
  inserting the added rules one by one gives, and its identifiers stay unique.
\<close>

theorem MergeRulesByID_last_seen:
  assumes "distinct_ids ident base" "x \<noteq> []"
  shows "find (\<lambda>b. ident b = x) (MergeRulesByID ident base add) =
           (case find (\<lambda>b. ident b = x) (rev add) of Some r \<Rightarrow> Some r | None \<Rightarrow> find (\<lambda>b. ident b = x) base) \<and>
         MergeRulesByID ident base add = fold (upsert ident) add base \<and>
         distinct_ids ident (MergeRulesByID ident base add)"
proof -
  have "MergeRulesByID ident base add = fold (upsert ident) add base"
    "distinct_ids ident (MergeRulesByID ident base add)"
    using mergeLoop_upsert [OF index_ok_indexRules [OF assms(1)], of add] assms(1)
    by (auto simp: MergeRulesByID_def)
  then show ?thesis using find_fold_upsert [OF assms(2), of ident add base] by simp
qed

theorem MergeRulesByID_last_seen_witness:
  "find (\<lambda>b. r_ID b = ''r1'')
     (MergeRulesByID r_ID [ex_rule ''r1'' any_match ''allow'', ex_rule ''r2'' any_match ''deny'']
        [ex_rule ''r1'' any_match ''throttle'', ex_rule ''r1'' any_match ''deny'']) =
   Some (ex_rule ''r1'' any_match ''deny'')"
proof -
  have d: "distinct_ids r_ID [ex_rule ''r1'' any_match ''allow'', ex_rule ''r2'' any_match ''deny'']"
    by (auto simp: distinct_ids_def ex_rule_def less_Suc_eq nth_Cons')
  show ?thesis
    using MergeRulesByID_last_seen [OF d, of "''r1''"
        "[ex_rule ''r1'' any_match ''throttle'', ex_rule ''r1'' any_match ''deny'']", THEN conjunct1]
    by (simp add: ex_rule_def)
qed

section \<open>Clones decide alike\<close>

lemma mcpMatch_clone [simp]: "mcpMatch (cloneMCPPolicy p) q = mcpMatch p q"
  by (simp add: mcpMatch_def cloneMCPPolicy_def)

lemma matchRule_clone [simp]: "matchRule (clonePolicyMatch m) i = matchRule m i"
  unfolding matchRule_def clonePolicyMatch_def by (simp only: policy_match.select_convs mcpMatch_clone)

text \<open>The parts of a decision that a clone keeps; it trims the identifier and settles the tier.\<close>

definition verdict :: "policy_decision \<Rightarrow> policy_decision" where
  "verdict d = d\<lparr>d_RuleID := [], d_RuleTier := []\<rparr>"

lemma evaluateRules_map:
  assumes "\<And>r. matchRule (r_Match (f r)) i = matchRule (r_Match r) i"
    "\<And>r. verdict (BuildDecision (f r)) = verdict (BuildDecision r)"
    "verdict (DefaultPolicyDecision p') = verdict (DefaultPolicyDecision p)"
  shows "verdict (evaluateRules p' (map f rs) i) = verdict (evaluateRules p rs i)"
  using assms by (induction rs) simp_all

lemma normalizeDecision_TrimSpace [simp]: "normalizeDecision (TrimSpace d) = normalizeDecision d"
  by (simp add: normalizeDecision_def)

lemma clone_tier_rule:
  "matchRule (r_Match (tierRule p (ClonePolicyRule r))) i = matchRule (r_Match r) i"
  "verdict (BuildDecision (tierRule p (ClonePolicyRule r))) = verdict (BuildDecision r)"
  by (simp_all add: tierRule_def ClonePolicyRule_def BuildDecision_def verdict_def Let_def)

definition clone_legacy :: "policy_rule \<Rightarrow> policy_rule" where
  "clone_legacy r = r\<lparr>r_Match := (r_Match r)\<lparr>MCP := cloneMCPPolicy (MCP (r_Match r))\<rparr>\<rparr>"

lemma matchRule_mcp: "mcpMatch c (i_MCP i) = mcpMatch (MCP m) (i_MCP i) \<Longrightarrow> matchRule (m\<lparr>MCP := c\<rparr>) i = matchRule m i"
  by (cases m) (simp only: matchRule_def policy_match.select_convs policy_match.update_convs)

lemma clone_legacy_rule:
  "matchRule (r_Match (clone_legacy r)) i = matchRule (r_Match r) i"
  "verdict (BuildDecision (clone_legacy r)) = verdict (BuildDecision r)"
  using matchRule_mcp [of "cloneMCPPolicy (MCP (r_Match r))" i "r_Match r"]
  by (simp_all add: clone_legacy_def BuildDecision_def verdict_def)

lemma legacyTenantRules_clone: "legacyTenantRules (t, CloneTenantPolicy tp) = map clone_legacy (legacyTenantRules (t, tp))"
  by (auto simp: legacyTenantRules_def legacyDeny_def legacyAllow_def clone_legacy_def CloneTenantPolicy_def any_match_def)

lemma legacyRules_clone:
  "p_Tenants p' = map (\<lambda>(k, v). (k, CloneTenantPolicy v)) (p_Tenants p) \<Longrightarrow>
   legacyRules p' = map clone_legacy (legacyRules p)"
proof -
  have "concat (map legacyTenantRules (map (\<lambda>(k, v). (k, CloneTenantPolicy v)) ts)) =
        map clone_legacy (concat (map legacyTenantRules ts))" for ts
    by (induction ts) (auto simp: legacyTenantRules_clone)
  then show "p_Tenants p' = map (\<lambda>(k, v). (k, CloneTenantPolicy v)) (p_Tenants p) \<Longrightarrow>
    legacyRules p' = map clone_legacy (legacyRules p)" by (simp add: legacyRules_def)
qed

text \<open>The policy whose tier and selector the rules of a clone inherit.\<close>

definition scope_of :: "safety_policy \<Rightarrow> safety_policy" where
  "scope_of p = p\<lparr>p_Tier := NormalizePolicyTier (p_Tier p), p_Selector := TrimPolicySelector (p_Selector p)\<rparr>"

lemma tierRule_cong:
  "p_Tier p = p_Tier q \<Longrightarrow> p_Selector p = p_Selector q \<Longrightarrow> tierRule p = tierRule q"
  "p_Tier p = p_Tier q \<Longrightarrow> p_Selector p = p_Selector q \<Longrightarrow> tierInputRule p = tierInputRule q"
  by (simp_all add: tierRule_def tierInputRule_def inherited_tier_def fun_eq_iff)

lemma moved_fields [simp]:
  "p_Tier (normalizeTierDefaults p) = p_Tier p" "p_Selector (normalizeTierDefaults p) = p_Selector p"
  "p_Rules (normalizeTierDefaults p) = p_Rules p" "p_InputRules (normalizeTierDefaults p) = p_InputRules p"
  "p_Tenants (normalizeTierDefaults p) = p_Tenants p"
  "p_DefaultDecision (normalizeTierDefaults p) = p_DefaultDecision p"
  "p_Tier (moveScopedDefaultDecision p) = p_Tier p" "p_Selector (moveScopedDefaultDecision p) = p_Selector p"
  "p_Rules (moveScopedDefaultDecision p) = p_Rules p" "p_InputRules (moveScopedDefaultDecision p) = p_InputRules p"
  "p_Tenants (moveScopedDefaultDecision p) = p_Tenants p"
  "p_InputPolicy (normalizeTierDefaults p) = p_InputPolicy p" "p_OutputPolicy (normalizeTierDefaults p) = p_OutputPolicy p"
  "p_InputPolicy (moveScopedDefaultDecision p) = p_InputPolicy p"
  "p_OutputPolicy (moveScopedDefaultDecision p) = p_OutputPolicy p"
  by (simp_all add: normalizeTierDefaults_def moveScopedDefaultDecision_def Let_def)

lemma tierRule_moved [simp]:
  "tierRule (normalizeTierDefaults (moveScopedDefaultDecision p)) = tierRule p"
  "tierInputRule (normalizeTierDefaults (moveScopedDefaultDecision p)) = tierInputRule p"
  by (rule tierRule_cong; simp)+

lemma moved_default:
  "p_DefaultDecision (moveScopedDefaultDecision p) =
     (if p_Tier p = PolicyTierGlobal then TrimSpace (p_DefaultDecision p) else [])"
  by (simp add: moveScopedDefaultDecision_def Let_def)

lemma scope_of_fields [simp]:
  "p_Tier (scope_of p) = NormalizePolicyTier (p_Tier p)" "p_Selector (scope_of p) = TrimPolicySelector (p_Selector p)"
  "p_Rules (scope_of p) = p_Rules p" "p_InputRules (scope_of p) = p_InputRules p" "p_Tenants (scope_of p) = p_Tenants p"
  "p_DefaultDecision (scope_of p) = p_DefaultDecision p"
  "p_InputPolicy (scope_of p) = p_InputPolicy p" "p_OutputPolicy (scope_of p) = p_OutputPolicy p"
  by (simp_all add: scope_of_def)

lemma apply_fields:
  "p_Tier (applyPolicyTierMetadata p) = NormalizePolicyTier (p_Tier p)"
  "p_Rules (applyPolicyTierMetadata p) = map (tierRule (scope_of p)) (p_Rules p)"
  "p_InputRules (applyPolicyTierMetadata p) = map (tierInputRule (scope_of p)) (p_InputRules p)"
  "p_Tenants (applyPolicyTierMetadata p) = p_Tenants p"
  "p_DefaultDecision (applyPolicyTierMetadata p) =
     (if NormalizePolicyTier (p_Tier p) = PolicyTierGlobal then TrimSpace (p_DefaultDecision p) else [])"
  by (simp_all add: applyPolicyTierMetadata_def Let_def moved_default flip: scope_of_def)

lemma CloneSafetyPolicy_fields [simp]:
  "p_Tier (CloneSafetyPolicy p) = p_Tier p" "p_Selector (CloneSafetyPolicy p) = TrimPolicySelector (p_Selector p)"
  "p_Rules (CloneSafetyPolicy p) = map ClonePolicyRule (p_Rules p)"
  "p_InputRules (CloneSafetyPolicy p) = p_InputRules p"
  "p_Tenants (CloneSafetyPolicy p) = map (\<lambda>(k, v). (k, CloneTenantPolicy v)) (p_Tenants p)"
  "p_DefaultDecision (CloneSafetyPolicy p) = p_DefaultDecision p"
  by (simp_all add: CloneSafetyPolicy_def ClonePolicyRules_def)

lemma clone_fields:
  fixes p defines "c \<equiv> CloneSafetyPolicyWithTierMetadata p"
  shows "p_Tier c = NormalizePolicyTier (p_Tier p)"
    "p_Rules c = map (\<lambda>r. tierRule (scope_of p) (ClonePolicyRule r)) (p_Rules p)"
    "p_InputRules c = map (tierInputRule (scope_of p)) (p_InputRules p)"
    "p_Tenants c = map (\<lambda>(k, v). (k, CloneTenantPolicy v)) (p_Tenants p)"
    "p_DefaultDecision c =
       (if NormalizePolicyTier (p_Tier p) = PolicyTierGlobal then TrimSpace (p_DefaultDecision p) else [])"
proof -
  have "tierRule (scope_of (CloneSafetyPolicy p)) = tierRule (scope_of p)"
    "tierInputRule (scope_of (CloneSafetyPolicy p)) = tierInputRule (scope_of p)"
    by (rule tierRule_cong; simp)+
  then show "p_Tier c = NormalizePolicyTier (p_Tier p)"
    "p_Rules c = map (\<lambda>r. tierRule (scope_of p) (ClonePolicyRule r)) (p_Rules p)"
    "p_InputRules c = map (tierInputRule (scope_of p)) (p_InputRules p)"
    "p_Tenants c = map (\<lambda>(k, v). (k, CloneTenantPolicy v)) (p_Tenants p)"
    "p_DefaultDecision c =
       (if NormalizePolicyTier (p_Tier p) = PolicyTierGlobal then TrimSpace (p_DefaultDecision p) else [])"
    by (simp_all add: c_def CloneSafetyPolicyWithTierMetadata_def apply_fields)
qed

lemma DefaultPolicyDecision_verdict:
  "verdict (DefaultPolicyDecision p) =
     (if default_allows p
      then plain_decision ''allow'' (''no matching rule '' @ em_dash @ '' default policy: allow'') []
      else plain_decision ''deny'' (''no matching rule '' @ em_dash @ '' default policy: deny'') [])"
  by (simp add: DefaultPolicyDecision_def default_allows_def verdict_def plain_decision_def Let_def)

text \<open>
  Cloning and normalising a global policy, as the loader does before every merge, does not
  change what it decides: on every request the decision, its reason, constraints, approval
  flag and remediations are those of the original document, for rule lists and for the older
  tenant lists alike.
\<close>

theorem Evaluate_clone:
  assumes "NormalizePolicyTier (p_Tier p) = PolicyTierGlobal"
  shows "verdict (Evaluate (CloneSafetyPolicyWithTierMetadata p) i) = verdict (Evaluate p i)"
proof -
  let ?c = "CloneSafetyPolicyWithTierMetadata p"
  have default: "verdict (DefaultPolicyDecision ?c) = verdict (DefaultPolicyDecision p)"
    using clone_fields(5) [of p] assms by (simp add: DefaultPolicyDecision_verdict default_allows_def)
  have rules: "verdict (evaluateRules ?c (p_Rules ?c) i) = verdict (evaluateRules p (p_Rules p) i)"
    unfolding clone_fields(2) by (rule evaluateRules_map [OF clone_tier_rule default])
  have legacy: "verdict (evaluateRules ?c (legacyRules ?c) i) = verdict (evaluateRules p (legacyRules p) i)"
    unfolding legacyRules_clone [OF clone_fields(4)] by (rule evaluateRules_map [OF clone_legacy_rule default])
  have "p_Rules ?c = [] \<longleftrightarrow> p_Rules p = []" by (simp add: clone_fields(2))
  then show ?thesis using rules legacy by (simp add: Evaluate_def)
qed

theorem Evaluate_clone_witness:
  "d_Decision (verdict (Evaluate (CloneSafetyPolicyWithTierMetadata ex_policy) (ex_input ''acme'' ''job.x''))) =
   ''require_approval''"
proof -
  have "NormalizePolicyTier (p_Tier ex_policy) = PolicyTierGlobal" by code_simp
  moreover have "d_Decision (verdict (Evaluate ex_policy (ex_input ''acme'' ''job.x''))) = ''require_approval''"
    by code_simp
  ultimately show ?thesis using Evaluate_clone [of ex_policy] by simp
qed

text \<open>The input policy section is taken from the base alone: a later fragment cannot enable it.\<close>

lemma clone_policies:
  "p_InputPolicy (CloneSafetyPolicyWithTierMetadata p) = p_InputPolicy p"
  "p_OutputPolicy (CloneSafetyPolicyWithTierMetadata p) = p_OutputPolicy p"
  by (simp_all add: CloneSafetyPolicyWithTierMetadata_def applyPolicyTierMetadata_def CloneSafetyPolicy_def Let_def
      flip: scope_of_def)

lemma MergePolicies_sections:
  assumes "MergePolicies (Some b) (Some e) = Some m"
  shows "p_InputPolicy m = p_InputPolicy b"
    "op_Enabled (p_OutputPolicy m) \<longleftrightarrow> op_Enabled (p_OutputPolicy b) \<or> op_Enabled (p_OutputPolicy e)"
  using assms clone_policies [of b] clone_policies [of e]
  by (auto simp: MergePolicies_def mergeOutputPolicy_def unscoped_def Let_def)

end
