(* ===== verification/Global_Policy.thy ===== *)
theory Global_Policy
  imports Policy_Merge
begin

text \<open>
  The tiered view of a merged policy that the kernel evaluates, from
  \<open>core/controlplane/safetykernel\<close>: \<open>global_policy.go\<close>, \<open>global_policy_tiers.go\<close>,
  \<open>kernel_invariants.go\<close> and \<open>tier_scope.go\<close>. Rules are sorted into a bucket per surface and
  into overrides per workflow and per job; the separately authored invariants are the security
  floor in front of every bucket.
\<close>

section \<open>The view\<close>

record global_policy =
  g_InputRules :: "policy_rule list"
  g_OutputRules :: "output_policy_rule list"
  g_EdgeActionRules :: "policy_rule list"
  g_MCPToolRules :: "policy_rule list"
  g_WorkflowOverrides :: "policy_rule list gomap"
  g_JobOverrides :: "policy_rule list gomap"
  g_Invariants :: "policy_rule list"
  g_OutputInvariants :: "output_policy_rule list"
  g_GlobalDefaultDecision :: string
  g_WorkflowDefaultDecisions :: "string gomap"
  g_JobDefaultDecisions :: "string gomap"
  g_SnapshotVersion :: string
  g_SnapshotHash :: string
  g_WorkflowSnapshot :: string
  g_JobSnapshot :: string

definition EdgeActionTopic :: string where "EdgeActionTopic = ''job.edge.action''"

definition isEdgeActionRule :: "policy_rule \<Rightarrow> bool" where
  "isEdgeActionRule r \<longleftrightarrow> list_ex (\<lambda>raw. TrimSpace raw = EdgeActionTopic) (Topics (r_Match r))"

definition isMCPToolRule :: "policy_rule \<Rightarrow> bool" where
  "isMCPToolRule r \<longleftrightarrow>
     (let mcp = MCP (r_Match r) in
      AllowServers mcp \<noteq> [] \<or> DenyServers mcp \<noteq> [] \<or> AllowTools mcp \<noteq> [] \<or> DenyTools mcp \<noteq> [] \<or>
      AllowResources mcp \<noteq> [] \<or> DenyResources mcp \<noteq> [] \<or> AllowActions mcp \<noteq> [] \<or> DenyActions mcp \<noteq> [])"

definition normalizedOptionalDecision :: "string \<Rightarrow> string" where
  "normalizedOptionalDecision raw = (if TrimSpace raw = [] then [] else normalizeDecision raw)"

definition appendScopedRule :: "policy_rule list gomap \<Rightarrow> string \<Rightarrow> policy_rule \<Rightarrow> policy_rule list gomap" where
  "appendScopedRule m key r = mput key (mget_list m key @ [r]) m"

definition addRule :: "global_policy \<Rightarrow> policy_rule \<Rightarrow> global_policy" where
  "addRule g r0 =
     (let r = r0\<lparr>r_Tier := NormalizePolicyTier (r_Tier r0), r_Selector := TrimPolicySelector (r_Selector r0)\<rparr>;
          key = PolicySelectorKey (r_Tier r) (r_Selector r);
          r' = r\<lparr>r_Tier := PolicyTierGlobal, r_Selector := no_selector\<rparr>
      in if r_Tier r = PolicyTierWorkflow \<and> key \<noteq> []
         then g\<lparr>g_WorkflowOverrides := appendScopedRule (g_WorkflowOverrides g) key r\<rparr>
         else if r_Tier r = PolicyTierJob \<and> key \<noteq> []
         then g\<lparr>g_JobOverrides := appendScopedRule (g_JobOverrides g) key r\<rparr>
         else if isEdgeActionRule r' then g\<lparr>g_EdgeActionRules := g_EdgeActionRules g @ [r']\<rparr>
         else if isMCPToolRule r' then g\<lparr>g_MCPToolRules := g_MCPToolRules g @ [r']\<rparr>
         else g\<lparr>g_InputRules := g_InputRules g @ [r']\<rparr>)"

definition addTierDefault :: "global_policy \<Rightarrow> policy_tier_default \<Rightarrow> global_policy" where
  "addTierDefault g d =
     (let decision = normalizedOptionalDecision (td_Decision d);
          key = PolicySelectorKey (td_Tier d) (td_Selector d);
          tier = NormalizePolicyTier (td_Tier d)
      in if decision = [] then g
         else if tier = PolicyTierWorkflow
         then (if key \<noteq> []
               then g\<lparr>g_WorkflowDefaultDecisions := mput key decision (g_WorkflowDefaultDecisions g)\<rparr> else g)
         else if tier = PolicyTierJob
         then (if key \<noteq> []
               then g\<lparr>g_JobDefaultDecisions := mput key decision (g_JobDefaultDecisions g)\<rparr> else g)
         else g)"

definition addPolicyLevelDefault :: "global_policy \<Rightarrow> safety_policy \<Rightarrow> global_policy" where
  "addPolicyLevelDefault g p =
     (let decision = normalizedOptionalDecision (p_DefaultDecision p); tier = NormalizePolicyTier (p_Tier p)
      in if decision = [] then g
         else if tier = PolicyTierGlobal then g
         else addTierDefault g
                \<lparr>td_Tier = tier, td_Selector = TrimPolicySelector (p_Selector p), td_Decision = decision\<rparr>)"

definition cloneRulesWithTier :: "policy_rule list \<Rightarrow> string \<Rightarrow> policy_rule list" where
  "cloneRulesWithTier rs tier = map (\<lambda>r. r\<lparr>r_Tier := NormalizePolicyTier tier, r_Selector := no_selector\<rparr>) rs"

definition empty_global :: "string \<Rightarrow> global_policy" where
  "empty_global snapshot =
     \<lparr>g_InputRules = [], g_OutputRules = [], g_EdgeActionRules = [], g_MCPToolRules = [],
      g_WorkflowOverrides = [], g_JobOverrides = [], g_Invariants = [], g_OutputInvariants = [],
      g_GlobalDefaultDecision = [], g_WorkflowDefaultDecisions = [], g_JobDefaultDecisions = [],
      g_SnapshotVersion = snapshot, g_SnapshotHash = snapshot, g_WorkflowSnapshot = snapshot,
      g_JobSnapshot = snapshot\<rparr>"

definition FromSafetyPolicy ::
    "safety_policy option \<Rightarrow> policy_rule list \<Rightarrow> output_policy_rule list \<Rightarrow> string \<Rightarrow> string list \<Rightarrow> global_policy" where
  "FromSafetyPolicy policy invariants outputInvariants snapshot scopedSnapshots =
     (let g = (empty_global snapshot)
                \<lparr>g_WorkflowSnapshot := (if scopedSnapshots \<noteq> [] then TrimSpace (scopedSnapshots ! 0) else snapshot),
                 g_JobSnapshot := (if length scopedSnapshots > 1 then TrimSpace (scopedSnapshots ! 1) else snapshot),
                 g_Invariants := cloneRulesWithTier invariants PolicyTierGlobal,
                 g_OutputInvariants := outputInvariants\<rparr>
      in case policy of
           None \<Rightarrow> g
         | Some p \<Rightarrow>
             (let g1 = g\<lparr>g_OutputRules := p_OutputRules p,
                         g_GlobalDefaultDecision :=
                           (if NormalizePolicyTier (p_Tier p) = PolicyTierGlobal
                            then normalizedOptionalDecision (p_DefaultDecision p) else [])\<rparr>;
                  g2 = foldl addTierDefault (addPolicyLevelDefault g1 p) (p_TierDefaults p)
              in foldl addRule g2 (p_Rules p)))"

section \<open>Rules for a request\<close>

definition isGlobalInvariantDeny :: "string \<Rightarrow> bool" where
  "isGlobalInvariantDeny d \<longleftrightarrow>
     ToLower (TrimSpace d) \<in> {''deny'', ''require_approval'', ''require-approval'', ''require_human'', ''throttle''}"

definition splitGlobalInvariantRules :: "policy_rule list \<Rightarrow> policy_rule list \<times> policy_rule list" where
  "splitGlobalInvariantRules rs =
     (filter (\<lambda>r. isGlobalInvariantDeny (r_Decision r)) rs, filter (\<lambda>r. \<not> isGlobalInvariantDeny (r_Decision r)) rs)"

definition concatRules :: "policy_rule list \<Rightarrow> policy_rule list \<Rightarrow> policy_rule list" where
  "concatRules invariants section =
     (let (denies, allows) = splitGlobalInvariantRules invariants in denies @ section @ allows)"

definition appendInputScopedRules :: "policy_rule list \<Rightarrow> policy_rule list \<Rightarrow> policy_rule list" where
  "appendInputScopedRules out rs = out @ filter (\<lambda>r. \<not> (isEdgeActionRule r \<or> isMCPToolRule r)) rs"

definition appendScopedRulesForSection ::
    "policy_rule list \<Rightarrow> policy_rule list \<Rightarrow> (policy_rule \<Rightarrow> bool) \<Rightarrow> policy_rule list" where
  "appendScopedRulesForSection out rs include = out @ filter include rs"

definition RulesForJobWorkflow :: "global_policy \<Rightarrow> string \<Rightarrow> string \<Rightarrow> policy_rule list" where
  "RulesForJobWorkflow g workflowID0 jobID0 =
     (let workflowID = TrimSpace workflowID0; jobID = TrimSpace jobID0;
          (denies, allows) = splitGlobalInvariantRules (g_Invariants g);
          rules1 = (if jobID \<noteq> [] then appendInputScopedRules denies (mget_list (g_JobOverrides g) jobID) else denies);
          rules2 = (if workflowID \<noteq> []
                    then appendInputScopedRules rules1 (mget_list (g_WorkflowOverrides g) workflowID) else rules1)
      in rules2 @ g_InputRules g @ allows)"

definition rulesForScopedSection ::
    "global_policy \<Rightarrow> string \<Rightarrow> string \<Rightarrow> (policy_rule \<Rightarrow> bool) \<Rightarrow> policy_rule list \<Rightarrow> policy_rule list" where
  "rulesForScopedSection g workflowID0 jobID0 include globalRules =
     (let workflowID = TrimSpace workflowID0; jobID = TrimSpace jobID0;
          (denies, allows) = splitGlobalInvariantRules (g_Invariants g);
          rules1 = (if jobID \<noteq> []
                    then appendScopedRulesForSection denies (mget_list (g_JobOverrides g) jobID) include else denies);
          rules2 = (if workflowID \<noteq> []
                    then appendScopedRulesForSection rules1 (mget_list (g_WorkflowOverrides g) workflowID) include
                    else rules1)
      in rules2 @ globalRules @ allows)"

text \<open>The variadic scope of the accessors: absent, or a workflow and a job.\<close>

definition RulesForInput :: "global_policy \<Rightarrow> (string \<times> string) option \<Rightarrow> policy_rule list" where
  "RulesForInput g scope =
     (case scope of Some (w, j) \<Rightarrow> RulesForJobWorkflow g w j | None \<Rightarrow> concatRules (g_Invariants g) (g_InputRules g))"

definition RulesForEdgeAction :: "global_policy \<Rightarrow> (string \<times> string) option \<Rightarrow> policy_rule list" where
  "RulesForEdgeAction g scope =
     (case scope of
        Some (w, j) \<Rightarrow> rulesForScopedSection g w j isEdgeActionRule (g_EdgeActionRules g)
      | None \<Rightarrow> concatRules (g_Invariants g) (g_EdgeActionRules g))"

definition RulesForMCPTool :: "global_policy \<Rightarrow> (string \<times> string) option \<Rightarrow> policy_rule list" where
  "RulesForMCPTool g scope =
     (case scope of
        Some (w, j) \<Rightarrow> rulesForScopedSection g w j isMCPToolRule (g_MCPToolRules g)
      | None \<Rightarrow> concatRules (g_Invariants g) (g_MCPToolRules g))"

definition RulesForOutput :: "global_policy \<Rightarrow> output_policy_rule list" where
  "RulesForOutput g =
     (if g_OutputInvariants g = [] then g_OutputRules g else g_OutputInvariants g @ g_OutputRules g)"

definition scopedDefault :: "string gomap \<Rightarrow> policy_rule list gomap \<Rightarrow> string \<Rightarrow> string \<times> bool" where
  "scopedDefault defaults rules key0 =
     (let key = TrimSpace key0 in
      if key = [] then ([], False)
      else if mget defaults key \<noteq> [] then (mget defaults key, True)
      else if mget_list rules key \<noteq> [] then (''deny'', True)
      else ([], False))"

definition DefaultDecisionForJobWorkflowTier :: "global_policy \<Rightarrow> string \<Rightarrow> string \<Rightarrow> string \<times> string" where
  "DefaultDecisionForJobWorkflowTier g workflowID jobID =
     (case scopedDefault (g_JobDefaultDecisions g) (g_JobOverrides g) jobID of
        (d, True) \<Rightarrow> (d, PolicyTierJob)
      | (_, False) \<Rightarrow>
          (case scopedDefault (g_WorkflowDefaultDecisions g) (g_WorkflowOverrides g) workflowID of
             (d, True) \<Rightarrow> (d, PolicyTierWorkflow)
           | (_, False) \<Rightarrow>
               if g_GlobalDefaultDecision g \<noteq> [] then (g_GlobalDefaultDecision g, PolicyTierGlobal)
               else (''deny'', PolicyTierGlobal)))"

section \<open>Scope of a request\<close>

fun pickLabel :: "string gomap \<Rightarrow> string list \<Rightarrow> string" where
  "pickLabel labels [] = []"
| "pickLabel labels (k # ks) =
     (case map_of labels k of
        Some v \<Rightarrow> (if TrimSpace v \<noteq> [] then TrimSpace v else pickLabel labels ks)
      | None \<Rightarrow> pickLabel labels ks)"

definition extractMCPRequest :: "string gomap \<Rightarrow> mcp_request" where
  "extractMCPRequest labels =
     (if labels = [] then no_mcp_request
      else \<lparr>Server = pickLabel labels [''mcp.server'', ''mcp_server'', ''mcpServer''],
            Tool = pickLabel labels [''mcp.tool'', ''mcp_tool'', ''mcpTool''],
            Resource = pickLabel labels [''mcp.resource'', ''mcp_resource'', ''mcpResource''],
            Action = ToLower (pickLabel labels [''mcp.action'', ''mcp_action'', ''mcpAction''])\<rparr>)"

definition PolicyAttachmentID :: string where "PolicyAttachmentID = ''policy.attachment_id''"

text \<open>The labels and the job id of the request.\<close>

definition resolvePolicyScope :: "string gomap \<Rightarrow> string \<Rightarrow> string \<times> string" where
  "resolvePolicyScope labels job =
     (let workflowID = pickLabel labels
            [''workflow_id'', ''workflow.id'', ''workflow'', ''workflow_run_id'', ''workflow.run_id''];
          job1 = pickLabel labels [PolicyAttachmentID];
          job2 = (if job1 = [] then TrimSpace job else job1);
          job3 = (if job2 = []
                  then pickLabel labels [''job_id'', ''job.id'', ''edge.job_id'', ''session_id'', ''edge.session_id'']
                  else job2)
      in (workflowID, job3))"

definition scopedPolicyForRequest ::
    "safety_policy option \<Rightarrow> global_policy option \<Rightarrow> string \<Rightarrow> string \<Rightarrow> string \<Rightarrow> string gomap \<Rightarrow>
     safety_policy option" where
  "scopedPolicyForRequest base global workflowID jobID topic labels =
     (case (base, global) of
        (Some b, Some g) \<Rightarrow>
          (let (defaultDecision, defaultTier) = DefaultDecisionForJobWorkflowTier g workflowID jobID;
               rules = (if TrimSpace topic = EdgeActionTopic then RulesForEdgeAction g (Some (workflowID, jobID))
                        else if mcpUsed (extractMCPRequest labels) then RulesForMCPTool g (Some (workflowID, jobID))
                        else RulesForInput g (Some (workflowID, jobID)))
           in Some (no_policy\<lparr>p_Version := p_Version b, p_Tier := defaultTier, p_DefaultTenant := p_DefaultTenant b,
                     p_DefaultDecision := defaultDecision, p_Rules := rules, p_Tenants := p_Tenants b\<rparr>))
      | _ \<Rightarrow> base)"

section \<open>Invariants over the unified rule list\<close>

definition splitKernelInvariantRulesByDecision :: "policy_rule list \<Rightarrow> policy_rule list \<times> policy_rule list" where
  "splitKernelInvariantRulesByDecision rs =
     (filter (\<lambda>r. ToLower (TrimSpace (r_Decision r)) \<in>
          {''deny'', ''require_approval'', ''require-approval'', ''require_human'', ''throttle''}) rs,
      filter (\<lambda>r. ToLower (TrimSpace (r_Decision r)) \<notin>
          {''deny'', ''require_approval'', ''require-approval'', ''require_human'', ''throttle''}) rs)"

definition applyKernelInvariants :: "safety_policy option \<Rightarrow> safety_policy option \<Rightarrow> safety_policy option" where
  "applyKernelInvariants base invariants =
     (case invariants of
        None \<Rightarrow> map_option CloneSafetyPolicy base
      | Some v \<Rightarrow>
          (let out = (case base of None \<Rightarrow> no_policy | Some b \<Rightarrow> CloneSafetyPolicy b);
               (denies, allows) = splitKernelInvariantRulesByDecision (p_Rules v)
           in Some (out\<lparr>p_Rules := denies @ p_Rules out @ allows,
                        p_OutputRules := p_OutputRules v @ p_OutputRules out,
                        p_OutputPolicy := mergeOutputPolicy (p_OutputPolicy out) (p_OutputPolicy v),
                        p_InputRules := p_InputRules v @ p_InputRules out\<rparr>)))"

section \<open>The security floor\<close>

lemma floor_decisions:
  "isGlobalInvariantDeny d \<Longrightarrow> normalizeDecision d \<in> {''deny'', ''require_approval'', ''throttle''}"
  by (auto simp: isGlobalInvariantDeny_def normalizeDecision_def)

lemma RulesForJobWorkflow_section:
  "RulesForJobWorkflow g w j = rulesForScopedSection g w j (\<lambda>r. \<not> (isEdgeActionRule r \<or> isMCPToolRule r)) (g_InputRules g)"
  by (simp add: RulesForJobWorkflow_def rulesForScopedSection_def appendInputScopedRules_def
      appendScopedRulesForSection_def Let_def split: prod.split)

text \<open>The layers of one surface, in the order of precedence.\<close>

definition tier_layers ::
    "global_policy \<Rightarrow> string \<Rightarrow> string \<Rightarrow> (policy_rule \<Rightarrow> bool) \<Rightarrow> policy_rule list \<Rightarrow> policy_rule list list" where
  "tier_layers g w j include section =
     [filter (\<lambda>r. isGlobalInvariantDeny (r_Decision r)) (g_Invariants g),
      if TrimSpace j \<noteq> [] then filter include (mget_list (g_JobOverrides g) (TrimSpace j)) else [],
      if TrimSpace w \<noteq> [] then filter include (mget_list (g_WorkflowOverrides g) (TrimSpace w)) else [],
      section,
      filter (\<lambda>r. \<not> isGlobalInvariantDeny (r_Decision r)) (g_Invariants g)]"

lemma rulesForScopedSection_layers:
  "rulesForScopedSection g w j include section = concat (tier_layers g w j include section)"
  by (simp add: rulesForScopedSection_def tier_layers_def splitGlobalInvariantRules_def
      appendScopedRulesForSection_def)

text \<open>Which rules of an override count on a surface, and the surface's global bucket.\<close>

definition surface :: "global_policy \<Rightarrow> string \<Rightarrow> string gomap \<Rightarrow> (policy_rule \<Rightarrow> bool) \<times> policy_rule list" where
  "surface g topic labels =
     (if TrimSpace topic = EdgeActionTopic then (isEdgeActionRule, g_EdgeActionRules g)
      else if mcpUsed (extractMCPRequest labels) then (isMCPToolRule, g_MCPToolRules g)
      else (\<lambda>r. \<not> (isEdgeActionRule r \<or> isMCPToolRule r), g_InputRules g))"

definition layers :: "global_policy \<Rightarrow> string \<Rightarrow> string \<Rightarrow> string \<Rightarrow> string gomap \<Rightarrow> policy_rule list list" where
  "layers g w j topic labels = (case surface g topic labels of (include, section) \<Rightarrow> tier_layers g w j include section)"

lemma scopedPolicyForRequest_rules:
  assumes "scopedPolicyForRequest (Some b) (Some g) w j topic labels = Some p"
  shows "p_Rules p = concat (layers g w j topic labels)" "p_Tenants p = p_Tenants b"
    "p_DefaultDecision p = fst (DefaultDecisionForJobWorkflowTier g w j)"
  using assms
  by (auto simp: scopedPolicyForRequest_def layers_def surface_def RulesForInput_def RulesForEdgeAction_def
      RulesForMCPTool_def RulesForJobWorkflow_section rulesForScopedSection_layers no_policy_def split: if_splits prod.splits)

lemma scopedPolicyForRequest_Some: "\<exists>p. scopedPolicyForRequest (Some b) (Some g) w j topic labels = Some p"
  by (simp add: scopedPolicyForRequest_def Let_def split: prod.split)

lemma foldl_invariant: "(\<And>g x. f (step g x) = f g) \<Longrightarrow> f (foldl step g xs) = f g"
  by (induction xs arbitrary: g) simp_all

lemma addRule_Invariants [simp]: "g_Invariants (addRule g r) = g_Invariants g"
  by (simp add: addRule_def Let_def)

lemma addTierDefault_Invariants [simp]: "g_Invariants (addTierDefault g d) = g_Invariants g"
  by (simp add: addTierDefault_def Let_def)

lemma FromSafetyPolicy_Invariants:
  "g_Invariants (FromSafetyPolicy p invs oinvs snap ss) = cloneRulesWithTier invs PolicyTierGlobal"
  by (simp add: FromSafetyPolicy_def Let_def foldl_invariant [where f = g_Invariants] addPolicyLevelDefault_def
      split: option.split)

text \<open>
  C7. The security floor cannot be crossed. Whatever the document, its workflow and job
  overrides and its default say: when a request matches an authored invariant that denies,
  demands approval or throttles, the policy the kernel evaluates for it, on the job, Edge and
  MCP surface alike, decides by such an invariant, so the request is denied, sent to a human
  or throttled.
\<close>

theorem invariant_floor:
  assumes "r \<in> set invs" "isGlobalInvariantDeny (r_Decision r)" "matchRule (r_Match r) i"
    "scopedPolicyForRequest (Some b) (Some (FromSafetyPolicy doc invs oinvs snap ss)) w j topic labels = Some p"
  shows "(\<exists>r' \<in> set invs. isGlobalInvariantDeny (r_Decision r') \<and> matchRule (r_Match r') i \<and>
            d_RuleID (Evaluate p i) = r_ID r' \<and> d_Decision (Evaluate p i) = normalizeDecision (r_Decision r')) \<and>
         d_Decision (Evaluate p i) \<in> {''deny'', ''require_approval'', ''throttle''}"
proof -
  let ?g = "FromSafetyPolicy doc invs oinvs snap ss"
  let ?floor = "filter (\<lambda>r. isGlobalInvariantDeny (r_Decision r)) (g_Invariants ?g)"
  obtain rest where rules: "p_Rules p = ?floor @ rest"
    using scopedPolicyForRequest_rules(1) [OF assms(4)]
    by (auto simp: layers_def tier_layers_def split: prod.splits)
  define r\<^sub>0 where "r\<^sub>0 = r\<lparr>r_Tier := PolicyTierGlobal, r_Selector := no_selector\<rparr>"
  have "r\<^sub>0 \<in> set ?floor" "matchRule (r_Match r\<^sub>0) i"
    using assms by (auto simp: FromSafetyPolicy_Invariants cloneRulesWithTier_def r\<^sub>0_def)
  then have ex: "\<exists>r \<in> set ?floor. matchRule (r_Match r) i" by blast
  then have ne: "p_Rules p \<noteq> []" unfolding rules by (metis append_is_Nil_conv empty_iff empty_set)
  have "Evaluate p i = evaluateRules p (p_Rules p) i" using ne by (simp add: Evaluate_def)
  also have "\<dots> = evaluateRules p ?floor i" unfolding rules by (rule ev.walk_prefix [OF ex])
  finally have "Evaluate p i = evaluateRules p ?floor i" .
  with ev.walk_decided [OF ex, of p] obtain q where q: "q \<in> set ?floor" "matchRule (r_Match q) i"
    "Evaluate p i = BuildDecision q" by auto
  then obtain r' where r': "r' \<in> set invs" "q = r'\<lparr>r_Tier := NormalizePolicyTier PolicyTierGlobal, r_Selector := no_selector\<rparr>"
    by (auto simp: FromSafetyPolicy_Invariants cloneRulesWithTier_def)
  then show ?thesis using q floor_decisions [of "r_Decision r'"] by (auto simp: BuildDecision_def)
qed

definition ex_doc :: safety_policy where
  "ex_doc =
     no_policy\<lparr>p_DefaultDecision := ''allow'',
       p_Rules := [(ex_rule ''j'' any_match ''allow'')\<lparr>r_Tier := ''job'', r_Selector := no_selector\<lparr>JobID := ''j1''\<rparr>\<rparr>]\<rparr>"

definition ex_invariant :: policy_rule where
  "ex_invariant = ex_rule ''inv'' (any_match\<lparr>Topics := [''job.pay*'']\<rparr>) ''DENY''"

theorem invariant_floor_witness:
  "\<exists>p. scopedPolicyForRequest (Some ex_doc) (Some (FromSafetyPolicy (Some ex_doc) [ex_invariant] [] ''s'' []))
         [] ''j1'' ''job.pay'' [] = Some p \<and>
       d_Decision (Evaluate p (ex_input ''t'' ''job.pay'')) \<in> {''deny'', ''require_approval'', ''throttle''}"
proof -
  obtain p where p: "scopedPolicyForRequest (Some ex_doc) (Some (FromSafetyPolicy (Some ex_doc) [ex_invariant] [] ''s'' []))
      [] ''j1'' ''job.pay'' [] = Some p"
    using scopedPolicyForRequest_Some by blast
  have "isGlobalInvariantDeny (r_Decision ex_invariant)" by code_simp
  moreover have "matchRule (r_Match ex_invariant) (ex_input ''t'' ''job.pay'')" by code_simp
  ultimately show ?thesis using invariant_floor [OF _ _ _ p] p by (metis list.set_intros(1))
qed

section \<open>Precedence of the tiers\<close>

fun first_in_layers :: "policy_rule list list \<Rightarrow> policy_input \<Rightarrow> policy_rule option" where
  "first_in_layers [] i = None"
| "first_in_layers (l # ls) i =
     (case find (\<lambda>r. matchRule (r_Match r) i) l of Some r \<Rightarrow> Some r | None \<Rightarrow> first_in_layers ls i)"

lemma evaluateRules_find:
  "evaluateRules p rs i =
     (case find (\<lambda>r. matchRule (r_Match r) i) rs of Some r \<Rightarrow> BuildDecision r | None \<Rightarrow> DefaultPolicyDecision p)"
  by (induction rs) simp_all

lemma find_layers: "find (\<lambda>r. matchRule (r_Match r) i) (concat ls) = first_in_layers ls i"
  by (induction ls) (simp_all add: find_append split: option.split)


definition ex_global :: global_policy where
  "ex_global = FromSafetyPolicy (Some ex_doc) [ex_invariant] [] ''s'' []"



definition ex_job_rule :: policy_rule where
  "ex_job_rule =
     (ex_rule ''j'' (any_match\<lparr>Topics := [''job.a'']\<rparr>) ''allow'')
       \<lparr>r_Tier := ''job'', r_Selector := no_selector\<lparr>JobID := ''j1''\<rparr>\<rparr>"


section \<open>Buckets hold every rule\<close>

definition override_rules :: "policy_rule list gomap \<Rightarrow> policy_rule list" where
  "override_rules m = concat (map snd m)"

definition bucket_rules :: "global_policy \<Rightarrow> policy_rule list" where
  "bucket_rules g =
     g_InputRules g @ g_EdgeActionRules g @ g_MCPToolRules g @ override_rules (g_WorkflowOverrides g) @
     override_rules (g_JobOverrides g)"

definition unplaced :: "policy_rule \<Rightarrow> policy_rule" where
  "unplaced r = r\<lparr>r_Tier := [], r_Selector := no_selector\<rparr>"

lemma override_rules_append:
  "mset (override_rules (appendScopedRule m key r)) = add_mset r (mset (override_rules m))"
  unfolding appendScopedRule_def
proof (induction m)
  case (Cons kv m)
  then show ?case by (cases kv) (auto simp: override_rules_def mget_list_def)
qed (simp add: override_rules_def mget_list_def)

lemma addRule_bucket:
  "image_mset unplaced (mset (bucket_rules (addRule g r))) =
   add_mset (unplaced r) (image_mset unplaced (mset (bucket_rules g)))"
  by (simp add: addRule_def Let_def bucket_rules_def override_rules_append unplaced_def)

lemma foldl_addRule_bucket:
  "image_mset unplaced (mset (bucket_rules (foldl addRule g rs))) =
   image_mset unplaced (mset rs) + image_mset unplaced (mset (bucket_rules g))"
  by (induction rs arbitrary: g) (simp_all add: addRule_bucket)

lemma addTierDefault_bucket [simp]: "bucket_rules (addTierDefault g d) = bucket_rules g"
  by (simp add: addTierDefault_def Let_def bucket_rules_def)

text \<open>
  Projecting a policy into buckets loses and duplicates nothing: up to the tier and
  selector that place it, every rule of the document is in exactly one bucket or override,
  as often as the document has it.
\<close>

theorem FromSafetyPolicy_partition:
  "image_mset unplaced (mset (bucket_rules (FromSafetyPolicy (Some p) invs oinvs snap ss))) =
   image_mset unplaced (mset (p_Rules p))"
  by (simp add: FromSafetyPolicy_def Let_def foldl_addRule_bucket foldl_invariant [where f = bucket_rules]
      addPolicyLevelDefault_def) (simp add: bucket_rules_def empty_global_def override_rules_def)

section \<open>A gap in the floor\<close>

text \<open>
  A decision of \<open>block\<close> is a deny when a rule is evaluated, but the split of the invariants
  does not count it as one: such an invariant stands after the user rules and does not hold.
\<close>

lemma invariant_block_overridden:
  "normalizeDecision (r_Decision (ex_invariant\<lparr>r_Decision := ''block''\<rparr>)) = ''deny'' \<and>
   matchRule (r_Match (ex_invariant\<lparr>r_Decision := ''block''\<rparr>)) (ex_input ''t'' ''job.pay'') \<and>
   map_option (\<lambda>p. d_Decision (Evaluate p (ex_input ''t'' ''job.pay'')))
     (scopedPolicyForRequest (Some ex_doc)
        (Some (FromSafetyPolicy (Some ex_doc) [ex_invariant\<lparr>r_Decision := ''block''\<rparr>] [] [] [])) [] ''j1'' ''job.pay'' []) =
   Some ''allow''"
  by code_simp

text \<open>
  A global deny rule without MCP terms is in the input bucket. A request that carries an MCP
  label is evaluated on the MCP bucket alone, so the rule does not apply to it.
\<close>

lemma input_deny_skipped_for_mcp:
  "map_option (\<lambda>p. d_Decision (Evaluate p (ex_input ''t'' ''job.x'')))
     (scopedPolicyForRequest (Some ex_doc)
        (Some (FromSafetyPolicy
           (Some (no_policy\<lparr>p_DefaultDecision := ''allow'', p_Rules := [ex_rule ''d'' any_match ''deny'',
               ex_rule ''m'' (any_match\<lparr>Tenants := [''u''], MCP := no_mcp_policy\<lparr>AllowTools := [''t'']\<rparr>\<rparr>) ''allow'']\<rparr>))
           [] [] [] [])) [] [] ''job.x'' [(''mcp.tool'', ''t'')]) = Some ''allow''"
  by code_simp

end
