(* ===== verification/Input_Policy.thy ===== *)
theory Input_Policy
  imports Global_Policy
begin

text \<open>
  Scanning of job input before execution, from \<open>core/controlplane/safetykernel\<close>:
  \<open>input_policy.go\<close>, \<open>input_scope.go\<close> and the helpers of \<open>output_policy.go\<close> and
  \<open>scanners.go\<close> they use. Input content is a byte string. The regular expression engine
  (\<open>rx\<close>, a pattern's matcher when it compiles), the registered scanners and the JSON decoder
  (\<open>unmarshal\<close>, the object or the error text) are arguments: what is proved holds for all of them.
\<close>

section \<open>Findings and helpers\<close>

record output_finding =
  f_Type :: string
  f_Severity :: string
  f_Detail :: string
  f_Offset :: int
  f_Length :: int
  f_Scanner :: string
  f_Confidence :: float32
  f_MatchedPattern :: string

definition finding :: "string \<Rightarrow> string \<Rightarrow> string \<Rightarrow> string \<Rightarrow> output_finding" where
  "finding typ severity detail scanner =
     \<lparr>f_Type = typ, f_Severity = severity, f_Detail = detail, f_Offset = 0, f_Length = 0,
      f_Scanner = scanner, f_Confidence = 0, f_MatchedPattern = []\<rparr>"

type_synonym scanner = "string \<Rightarrow> output_finding list"

definition maxFindingsPerScanner :: nat where "maxFindingsPerScanner = 32"

definition normalizeSeverity :: "string \<Rightarrow> string" where
  "normalizeSeverity raw =
     (let s = ToLower (TrimSpace raw) in
      if s \<in> {''critical'', ''high'', ''medium'', ''low''} then s else ''high'')"

definition normalizeList :: "string list \<Rightarrow> string list" where
  "normalizeList vs = filter (\<lambda>v. v \<noteq> []) (map TrimSpace vs)"

definition normalizeScannerName :: "string \<Rightarrow> string" where
  "normalizeScannerName raw =
     (let name = ToLower (TrimSpace raw) in
      if name = ''secret_leak'' then ''secret'' else if name = ''code_injection'' then ''injection'' else name)"

fun addScanners :: "string list \<Rightarrow> string list \<Rightarrow> string list" where
  "addScanners out [] = out"
| "addScanners out (v # vs) =
     (let name = normalizeScannerName v in
      if name = [] \<or> name \<in> set out then addScanners out vs else addScanners (out @ [name]) vs)"

definition mergeScannerLists :: "string list \<Rightarrow> string list \<Rightarrow> string list" where
  "mergeScannerLists primary secondary = addScanners (addScanners [] primary) secondary"

definition containsAnyFold :: "string list \<Rightarrow> string list \<Rightarrow> bool" where
  "containsAnyFold values required \<longleftrightarrow>
     list_ex (\<lambda>v. list_ex (\<lambda>r. EqualFold (TrimSpace v) (TrimSpace r)) required) values"

definition matchAny :: "string list \<Rightarrow> string \<Rightarrow> bool" where
  "matchAny patterns value \<longleftrightarrow> value \<noteq> [] \<and> list_ex (\<lambda>p. matchTopic p value) patterns"

section \<open>Regular expression limits\<close>

fun nestedQuantifier :: "string \<Rightarrow> bool" where
  "nestedQuantifier (a # b # c # rest) \<longleftrightarrow>
     (a \<in> set ''+*'' \<and> b = CHR '')'' \<and> c \<in> set ''+*?{'') \<or> nestedQuantifier (b # c # rest)"
| "nestedQuantifier _ \<longleftrightarrow> False"

datatype regex_error = RegexTooLong nat | RegexNestedQuantifier | RegexAlternations nat

definition validateRegexComplexity :: "string \<Rightarrow> regex_error option" where
  "validateRegexComplexity pat =
     (if length pat > 256 then Some (RegexTooLong (length pat))
      else if nestedQuantifier pat then Some RegexNestedQuantifier
      else if count_list pat CHR ''|'' > 5 then Some (RegexAlternations (count_list pat CHR ''|''))
      else None)"

section \<open>Keywords\<close>

definition truncateFinding :: "string \<Rightarrow> nat \<Rightarrow> string" where
  "truncateFinding raw limit = take limit (TrimSpace raw)"

definition keyword_finding :: "string \<Rightarrow> nat \<Rightarrow> output_finding" where
  "keyword_finding kw off =
     \<lparr>f_Type = ''keyword_match'', f_Severity = ''high'', f_Detail = ''keyword matched: '' @ kw,
      f_Offset = int off, f_Length = int (length kw), f_Scanner = ''keyword'', f_Confidence = 0x3F800000,
      f_MatchedPattern = truncateFinding kw 160\<rparr>"

text \<open>The inner loop: the findings so far and whether the limit was reached.\<close>

function scanKeyword :: "string \<Rightarrow> nat \<Rightarrow> string \<Rightarrow> output_finding list \<Rightarrow> output_finding list \<times> bool" where
  "scanKeyword kw off text found =
     (case Index text (ToLower kw) of
        None \<Rightarrow> (found, False)
      | Some pos \<Rightarrow>
          (let found' = found @ [keyword_finding kw (off + pos)];
               rest = drop (pos + length kw) text
           in if length found' \<ge> maxFindingsPerScanner then (found', True)
              else if rest = [] then (found', False)
              else scanKeyword kw (off + pos + length kw) rest found'))"
  by pat_completeness auto
termination
  by (relation "measure (\<lambda>(kw, off, text, found). maxFindingsPerScanner - length found)") (auto simp: Let_def)

declare scanKeyword.simps [simp del]

fun scanKeywords :: "string list \<Rightarrow> string \<Rightarrow> output_finding list \<Rightarrow> output_finding list" where
  "scanKeywords [] text found = found"
| "scanKeywords (kw # kws) text found =
     (case scanKeyword kw 0 text found of (found', full) \<Rightarrow> if full then found' else scanKeywords kws text found')"

definition keywordScan :: "string list \<Rightarrow> string \<Rightarrow> output_finding list" where
  "keywordScan keywords content =
     (if content = [] then [] else scanKeywords (normalizeList keywords) (ToLower content) [])"

fun scanNames :: "string list \<Rightarrow> scanner gomap \<Rightarrow> string \<Rightarrow> output_finding list \<Rightarrow> output_finding list" where
  "scanNames [] scanners content out = out"
| "scanNames (n # ns) scanners content out =
     (case map_of scanners (normalizeScannerName n) of
        None \<Rightarrow> scanNames ns scanners content out
      | Some scan \<Rightarrow>
          (let out' = out @ scan content in
           if length out' \<ge> maxFindingsPerScanner then take maxFindingsPerScanner out'
           else scanNames ns scanners content out'))"

definition scanWithScanners :: "string \<Rightarrow> string list \<Rightarrow> scanner gomap \<Rightarrow> output_finding list" where
  "scanWithScanners content names scanners =
     (if content = [] \<or> names = [] \<or> scanners = [] then [] else scanNames names scanners content [])"

section \<open>Structured scope\<close>

record scope_finding =
  sf_Type :: string
  sf_Detail :: string
  sf_Item :: string
  sf_Category :: string
  sf_Intent :: string

definition scope_note :: "string \<Rightarrow> string \<Rightarrow> scope_finding" where
  "scope_note typ detail = \<lparr>sf_Type = typ, sf_Detail = detail, sf_Item = [], sf_Category = [], sf_Intent = []\<rparr>"

definition normalizeText :: "string \<Rightarrow> string" where
  "normalizeText s =
     map (\<lambda>c. if c = CHR ''-'' \<or> c = CHR '' '' then CHR ''_'' else c) (ToLower (TrimSpace s))"

definition normalizeCategory :: "string \<Rightarrow> string gomap \<Rightarrow> string" where
  "normalizeCategory cat aliases =
     (case map_of aliases (normalizeText cat) of Some canonical \<Rightarrow> normalizeText canonical | None \<Rightarrow> normalizeText cat)"

text \<open>One pass over the intents, in the order Go ranges over them, keeping the longest hit.\<close>

definition classifyStep :: "string \<Rightarrow> string \<times> nat \<Rightarrow> string \<Rightarrow> string \<times> nat" where
  "classifyStep lower best intent =
     (let n = normalizeText intent in
      if Contains lower n \<and> length n > snd best then (intent, length n) else best)"

definition classifyIntent :: "string \<Rightarrow> string list gomap \<Rightarrow> string" where
  "classifyIntent instruction allowed = fst (foldl (classifyStep (normalizeText instruction)) ([], 0) (map fst allowed))"

fun resolveParts_json :: "goany \<Rightarrow> string list \<Rightarrow> goany option" where
  "resolveParts_json v [] = Some v"
| "resolveParts_json v (p # ps) =
     (case v of
        GoObject m \<Rightarrow> (case map_of m p of None \<Rightarrow> None | Some v' \<Rightarrow> resolveParts_json v' ps)
      | _ \<Rightarrow> None)"

definition resolveJSONPath :: "goany gomap \<Rightarrow> string \<Rightarrow> goany option" where
  "resolveJSONPath obj path = resolveParts_json (GoObject obj) (Split path CHR ''.'')"

definition truncateString :: "string \<Rightarrow> nat \<Rightarrow> string" where
  "truncateString s n = (if length s \<le> n then s else take n s @ ''...'')"

fun as_string :: "goany option \<Rightarrow> string" where
  "as_string (Some (GoString s)) = s"
| "as_string _ = []"

definition or_default :: "string \<Rightarrow> string \<Rightarrow> string" where
  "or_default s d = (if s = [] then d else s)"

definition scopeItem :: "scope_config \<Rightarrow> string \<Rightarrow> goany \<Rightarrow> scope_finding list" where
  "scopeItem cfg intent raw =
     (case raw of
        GoObject item \<Rightarrow>
          (let catRaw = as_string (map_of item (or_default (CategoryPath cfg) ''category''));
               nameRaw = as_string (map_of item (or_default (NamePath cfg) ''name''));
               normalized = normalizeCategory catRaw (Aliases cfg);
               allowedSet = (\<lambda>c. normalizeCategory c (Aliases cfg)) ` set (mget_list (AllowedCategories cfg) intent)
           in if normalized = []
              then [(scope_note ''scope_violation'' (''item '' @ Quote nameRaw @ '' has no category''))\<lparr>sf_Item := nameRaw\<rparr>]
              else if normalized \<notin> allowedSet
              then [\<lparr>sf_Type = ''scope_violation'',
                     sf_Detail = ''item '' @ Quote nameRaw @ '' has category '' @ Quote catRaw @
                                 '' which is not allowed for intent '' @ Quote intent,
                     sf_Item = nameRaw, sf_Category = catRaw, sf_Intent = intent\<rparr>]
              else [])
      | _ \<Rightarrow> [])"

definition unless_allowed :: "string \<Rightarrow> string \<Rightarrow> string \<Rightarrow> bool \<times> scope_finding list" where
  "unless_allowed mode typ detail = (if mode = ''allow'' then (False, []) else (True, [scope_note typ detail]))"

definition evaluateScope ::
    "(string \<Rightarrow> string + goany gomap) \<Rightarrow> scope_config \<Rightarrow> string \<Rightarrow> bool \<times> scope_finding list" where
  "evaluateScope unmarshal cfg content =
     (case unmarshal content of
        Inl err \<Rightarrow>
          unless_allowed (OnMissingInput cfg) ''malformed_payload''
            (''failed to parse input as JSON: '' @ truncateString err 200)
      | Inr payload \<Rightarrow>
          (let instruction = as_string (resolveJSONPath payload (InstructionPath cfg)) in
           if instruction = []
           then unless_allowed (OnMissingInput cfg) ''missing_input''
                  (''instruction field missing or empty at path '' @ Quote (InstructionPath cfg))
           else case resolveJSONPath payload (ItemsPath cfg) of
               None \<Rightarrow>
                 unless_allowed (OnMissingInput cfg) ''missing_input''
                   (''items field missing at path '' @ Quote (ItemsPath cfg))
             | Some itemsRaw \<Rightarrow>
                 (case itemsRaw of
                    GoArray (item # items) \<Rightarrow>
                      (let intent = classifyIntent instruction (AllowedCategories cfg) in
                       if intent = []
                       then unless_allowed (OnAmbiguous cfg) ''ambiguous_intent''
                              (''cannot classify instruction '' @ Quote (truncateString instruction 100) @
                               '' into a known intent'')
                       else if mget_list (AllowedCategories cfg) intent = [] then (False, [])
                       else let findings = concat (map (scopeItem cfg intent) (item # items))
                            in (findings \<noteq> [], findings))
                  | _ \<Rightarrow>
                      unless_allowed (OnMissingInput cfg) ''missing_input'' ''items field is empty or not an array'')))"

datatype scope_error = NoInstructionPath | NoItemsPath | BadOnMissingInput string | BadOnAmbiguous string

definition validateScopeConfig :: "scope_config \<Rightarrow> scope_error option" where
  "validateScopeConfig cfg =
     (if InstructionPath cfg = [] then Some NoInstructionPath
      else if ItemsPath cfg = [] then Some NoItemsPath
      else if OnMissingInput cfg \<notin> {[], ''deny'', ''allow''} then Some (BadOnMissingInput (OnMissingInput cfg))
      else if OnAmbiguous cfg \<notin> {[], ''deny'', ''allow''} then Some (BadOnAmbiguous (OnAmbiguous cfg))
      else None)"

section \<open>Compiled rules\<close>

type_synonym compiled_pattern = "string \<times> (string \<Rightarrow> bool)"

record compiled_input_rule =
  c_id :: string
  c_tier :: string
  c_selector :: policy_selector
  c_decision :: string
  c_reason :: string
  c_severity :: string
  c_tenants :: "string list"
  c_topics :: "string list"
  c_capabilities :: "string list"
  c_riskTags :: "string list"
  c_contentTypes :: "string list"
  c_scanners :: "string list"
  c_patterns :: "compiled_pattern list"
  c_keywords :: "string list"
  c_maxBytes :: int
  c_scope :: "scope_config option"

record input_evaluate_request =
  q_tenant :: string
  q_topic :: string
  q_capabilities :: "string list"
  q_riskTags :: "string list"
  q_contentType :: string
  q_content :: string
  q_inputSize :: int

definition compilePattern :: "(string \<Rightarrow> (string \<Rightarrow> bool) option) \<Rightarrow> string \<Rightarrow> compiled_pattern option" where
  "compilePattern rx raw =
     (let pat = TrimSpace raw in
      if pat = [] then None
      else if validateRegexComplexity pat \<noteq> None then None
      else map_option (\<lambda>re. (pat, re)) (rx pat))"

definition inputDecision :: "string \<Rightarrow> bool" where
  "inputDecision d \<longleftrightarrow> d \<in> {''deny'', ''require_approval'', ''require-approval'', ''require_human''}"

definition compileInputRule ::
    "(string \<Rightarrow> (string \<Rightarrow> bool) option) \<Rightarrow> safety_policy \<Rightarrow> input_policy_rule \<Rightarrow> compiled_input_rule option" where
  "compileInputRule rx p r =
     (let m = ir_Match r;
          decision = ToLower (TrimSpace (ir_Decision r));
          patterns = List.map_filter (compilePattern rx) (im_ContentPatterns m);
          tier0 = NormalizePolicyTier (inherited_tier (ir_Tier r) p);
          tier = (if IsValidPolicyTier tier0 then tier0 else PolicyTierGlobal);
          selector = (if tier = PolicyTierGlobal then no_selector else MergePolicySelector (p_Selector p) (ir_Selector r))
      in if ir_Enabled r = Some False then None
         else if \<not> inputDecision decision then None
         else if im_ContentPatterns m \<noteq> [] \<and> patterns = [] then None
         else if (case im_Scope m of None \<Rightarrow> False | Some cfg \<Rightarrow> validateScopeConfig cfg \<noteq> None) then None
         else Some \<lparr>c_id = TrimSpace (ir_ID r), c_tier = tier, c_selector = selector, c_decision = decision,
                    c_reason = TrimSpace (ir_Reason r), c_severity = normalizeSeverity (ir_Severity r),
                    c_tenants = normalizeList (im_Tenants m), c_topics = normalizeList (im_Topics m),
                    c_capabilities = normalizeList (im_Capabilities m), c_riskTags = normalizeList (im_RiskTags m),
                    c_contentTypes = normalizeList (im_ContentTypes m),
                    c_scanners = mergeScannerLists (im_Scanners m) (im_Detectors m), c_patterns = patterns,
                    c_keywords = normalizeList (im_Keywords m),
                    c_maxBytes = max (im_MaxInputBytes m) (im_InputSizeGt m), c_scope = im_Scope m\<rparr>)"

definition compileInputRules ::
    "(string \<Rightarrow> (string \<Rightarrow> bool) option) \<Rightarrow> safety_policy option \<Rightarrow> compiled_input_rule list" where
  "compileInputRules rx po =
     (case po of None \<Rightarrow> [] | Some p \<Rightarrow> List.map_filter (compileInputRule rx p) (p_InputRules p))"

definition inputRuleAppliesToScope :: "compiled_input_rule \<Rightarrow> string \<Rightarrow> string \<Rightarrow> bool" where
  "inputRuleAppliesToScope r workflowID jobID =
     (let tier = NormalizePolicyTier (c_tier r) in
      if tier = PolicyTierWorkflow
      then PolicySelectorKey PolicyTierWorkflow (c_selector r) \<noteq> [] \<and>
           PolicySelectorKey PolicyTierWorkflow (c_selector r) = workflowID
      else if tier = PolicyTierJob
      then PolicySelectorKey PolicyTierJob (c_selector r) \<noteq> [] \<and> PolicySelectorKey PolicyTierJob (c_selector r) = jobID
      else tier = PolicyTierGlobal)"

definition in_tier :: "string \<Rightarrow> compiled_input_rule \<Rightarrow> bool" where
  "in_tier tier r \<longleftrightarrow> NormalizePolicyTier (c_tier r) = tier"

definition selectInputRulesForScope ::
    "compiled_input_rule list \<Rightarrow> string \<Rightarrow> string \<Rightarrow> compiled_input_rule list" where
  "selectInputRulesForScope rules workflowID jobID =
     (let applicable = filter (\<lambda>r. inputRuleAppliesToScope r (TrimSpace workflowID) (TrimSpace jobID)) rules
      in filter (in_tier PolicyTierJob) applicable @ filter (in_tier PolicyTierWorkflow) applicable @
         filter (in_tier PolicyTierGlobal) applicable)"

section \<open>Evaluation of a compiled rule\<close>

definition inputMetadataMatches :: "compiled_input_rule \<Rightarrow> input_evaluate_request \<Rightarrow> bool" where
  "inputMetadataMatches r q \<longleftrightarrow>
     (if c_tenants r \<noteq> [] \<and> \<not> containsAnyFold [q_tenant q] (c_tenants r) then False
      else if c_topics r \<noteq> [] \<and> \<not> matchAny (c_topics r) (q_topic q) then False
      else if c_capabilities r \<noteq> [] \<and> \<not> containsAnyFold (q_capabilities q) (c_capabilities r) then False
      else if c_riskTags r \<noteq> [] \<and> \<not> containsAnyFold (q_riskTags q) (c_riskTags r) then False
      else c_contentTypes r = [] \<or> containsAnyFold [q_contentType q] (c_contentTypes r))"

definition inputRuleUsesContentMatchers :: "compiled_input_rule \<Rightarrow> bool" where
  "inputRuleUsesContentMatchers r \<longleftrightarrow> c_scanners r \<noteq> [] \<or> c_patterns r \<noteq> [] \<or> c_keywords r \<noteq> []"

definition inputRuleContentSensitive :: "compiled_input_rule \<Rightarrow> bool" where
  "inputRuleContentSensitive r \<longleftrightarrow>
     c_scanners r \<noteq> [] \<or> c_patterns r \<noteq> [] \<or> c_keywords r \<noteq> [] \<or> c_scope r \<noteq> None"

definition inputContentIncomplete :: "input_evaluate_request \<Rightarrow> bool" where
  "inputContentIncomplete q \<longleftrightarrow> q_inputSize q > int (length (q_content q))"

definition inputTruncatedFailClosedFinding :: output_finding where
  "inputTruncatedFailClosedFinding =
     finding ''content_truncated'' ''high''
       ''declared input size exceeds received content; unscanned tail may violate policy - failing closed'' ''size_check''"

definition evaluateInputSizeRule ::
    "compiled_input_rule \<Rightarrow> input_evaluate_request \<Rightarrow> bool \<times> output_finding list" where
  "evaluateInputSizeRule r q =
     (let size = (if q_inputSize q \<le> 0 then int (length (q_content q)) else q_inputSize q) in
      if size \<le> c_maxBytes r then (False, [])
      else (True, [finding ''input_size_exceeded'' (c_severity r) ''input size exceeds policy limit'' ''size_check'']))"

definition evaluateMissingInputRule :: "compiled_input_rule \<Rightarrow> bool \<times> output_finding list" where
  "evaluateMissingInputRule r =
     (if (case c_scope r of None \<Rightarrow> False | Some cfg \<Rightarrow> OnMissingInput cfg \<noteq> ''allow'')
      then (True, [finding ''content_required_but_missing'' (c_severity r)
                     ''scope rule requires structured input content but none was provided'' ''scope_evaluator''])
      else if inputRuleContentSensitive r then (False, [])
      else (True, []))"

definition scanInputScope ::
    "(string \<Rightarrow> string + goany gomap) \<Rightarrow> compiled_input_rule \<Rightarrow> string \<Rightarrow> output_finding list option" where
  "scanInputScope unmarshal r content =
     (case c_scope r of
        None \<Rightarrow> Some []
      | Some cfg \<Rightarrow>
          (case evaluateScope unmarshal cfg content of
             (violated, sfs) \<Rightarrow>
               (let findings = map (\<lambda>f. finding (sf_Type f) (c_severity r) (sf_Detail f) ''scope_evaluator'') sfs
                in if \<not> violated \<and> findings = [] then None else Some findings)))"

definition scanInputPatterns ::
    "compiled_input_rule \<Rightarrow> string \<Rightarrow> output_finding list \<Rightarrow> output_finding list option" where
  "scanInputPatterns r content findings =
     (if c_patterns r = [] then Some findings
      else let findings' = findings @
                 map (\<lambda>(raw, re). (finding ''content_pattern_match'' (c_severity r) ''input content matched pattern''
                                     ''regex'')\<lparr>f_MatchedPattern := raw\<rparr>)
                   (filter (\<lambda>(raw, re). re content) (c_patterns r))
           in if findings' = [] then None else Some findings')"

definition extend_findings :: "output_finding list \<Rightarrow> output_finding list \<Rightarrow> output_finding list option" where
  "extend_findings findings matches =
     (if matches = [] \<and> findings = [] then None else Some (findings @ matches))"

definition scanInputKeywords ::
    "compiled_input_rule \<Rightarrow> string \<Rightarrow> output_finding list \<Rightarrow> output_finding list option" where
  "scanInputKeywords r content findings =
     (if c_keywords r = [] then Some findings else extend_findings findings (keywordScan (c_keywords r) content))"

definition scanInputNamedScanners ::
    "compiled_input_rule \<Rightarrow> string \<Rightarrow> scanner gomap \<Rightarrow> output_finding list \<Rightarrow> output_finding list option" where
  "scanInputNamedScanners r content scanners findings =
     (if c_scanners r = [] then Some findings
      else extend_findings findings (scanWithScanners content (c_scanners r) scanners))"

definition evaluateInputContentRule ::
    "(string \<Rightarrow> string + goany gomap) \<Rightarrow> compiled_input_rule \<Rightarrow> string \<Rightarrow> scanner gomap \<Rightarrow>
     bool \<times> output_finding list" where
  "evaluateInputContentRule unmarshal r content scanners =
     (case Option.bind (scanInputScope unmarshal r content) (\<lambda>f1.
             Option.bind (scanInputPatterns r content f1) (\<lambda>f2.
               Option.bind (scanInputKeywords r content f2) (scanInputNamedScanners r content scanners))) of
        None \<Rightarrow> (False, [])
      | Some findings \<Rightarrow>
          if inputRuleUsesContentMatchers r \<and> findings = [] then (False, []) else (True, findings))"

definition evaluateInputRule ::
    "(string \<Rightarrow> string + goany gomap) \<Rightarrow> compiled_input_rule \<Rightarrow> input_evaluate_request \<Rightarrow> scanner gomap \<Rightarrow>
     bool \<times> output_finding list" where
  "evaluateInputRule unmarshal r q scanners =
     (if \<not> inputMetadataMatches r q then (False, [])
      else if inputRuleContentSensitive r \<and> inputContentIncomplete q then (True, [inputTruncatedFailClosedFinding])
      else if c_maxBytes r > 0 then evaluateInputSizeRule r q
      else if q_content q = [] then evaluateMissingInputRule r
      else evaluateInputContentRule unmarshal r (q_content q) scanners)"

section \<open>Downgrades and reasons\<close>

definition severityRank :: "string \<Rightarrow> nat" where
  "severityRank s =
     (let t = ToLower (TrimSpace s) in
      if t = ''low'' then 1 else if t = ''medium'' then 2 else if t = ''high'' then 3
      else if t = ''critical'' then 4 else 0)"

definition shouldDowngradeDenyToRequireHuman ::
    "compiled_input_rule \<Rightarrow> output_finding list \<Rightarrow> action_descriptor option \<Rightarrow> require_human_threshold \<Rightarrow> bool" where
  "shouldDowngradeDenyToRequireHuman r findings action threshold =
     (let minRank = severityRank (MinSeverityForDeny threshold) in
      if DowngradeWhenPromptOnly threshold \<and> action = None then True
      else if minRank > 0 \<and> list_ex (\<lambda>f. severityRank (f_Severity f) < minRank) findings then True
      else if minRank > 0 \<and> severityRank (c_severity r) > 0 \<and> severityRank (c_severity r) < minRank then True
      else if f32_lt 0 (MinConfidenceForDeny threshold) \<and>
              list_ex (\<lambda>f. f32_lt 0 (f_Confidence f) \<and> f32_lt (f_Confidence f) (MinConfidenceForDeny threshold)) findings
      then True
      else False)"

definition inputRuleReason :: "compiled_input_rule \<Rightarrow> output_finding list \<Rightarrow> string" where
  "inputRuleReason r findings =
     (let parts = Join (map f_Detail findings) '', '' in
      if c_reason r \<noteq> [] \<and> findings = [] then c_reason r
      else if findings \<noteq> []
      then (if c_reason r \<noteq> [] then c_reason r @ '': '' @ parts else ''input content flagged: '' @ parts)
      else c_reason r)"

section \<open>Properties\<close>

definition tier_rank :: "compiled_input_rule \<Rightarrow> nat" where
  "tier_rank r = (if in_tier PolicyTierJob r then 0 else if in_tier PolicyTierWorkflow r then 1 else 2)"

lemma in_tier_exclusive:
  "in_tier PolicyTierJob r \<Longrightarrow> \<not> in_tier PolicyTierWorkflow r" "in_tier PolicyTierJob r \<Longrightarrow> \<not> in_tier PolicyTierGlobal r"
  "in_tier PolicyTierWorkflow r \<Longrightarrow> \<not> in_tier PolicyTierGlobal r"
  by (auto simp: in_tier_def tier_names)

lemma applies_in_tier:
  "inputRuleAppliesToScope r w j \<Longrightarrow> in_tier PolicyTierJob r \<or> in_tier PolicyTierWorkflow r \<or> in_tier PolicyTierGlobal r"
  by (auto simp: inputRuleAppliesToScope_def in_tier_def Let_def split: if_splits)

lemma insort_key_skip: "\<forall>a \<in> set as. \<not> f x \<le> f a \<Longrightarrow> insort_key f x (as @ bs) = as @ insort_key f x bs"
  by (induction as) simp_all

lemma insort_key_front: "\<forall>b \<in> set bs. f x \<le> f b \<Longrightarrow> insort_key f x bs = x # bs"
  by (cases bs) simp_all

lemma sort_key_three:
  fixes f :: "'a \<Rightarrow> nat"
  assumes "\<And>x. f x \<le> 2"
  shows "sort_key f xs = filter (\<lambda>x. f x = 0) xs @ filter (\<lambda>x. f x = 1) xs @ filter (\<lambda>x. f x = 2) xs"
proof (induction xs)
  case (Cons x xs)
  consider "f x = 0" | "f x = 1" | "f x = 2" using assms [of x] by linarith
  then show ?case
    using Cons.IH by cases (simp_all add: insort_key_skip, auto intro!: insort_key_front)
qed simp

text \<open>
  Selecting the input rules of a request is the stable sort of the applicable rules by
  tier: exactly the rules of the request's job, of its workflow and of the global tier are
  kept, each as often as it was compiled, the more specific tier first and in document order
  within a tier.
\<close>

theorem selectInputRulesForScope_sort:
  "selectInputRulesForScope rules w j =
     sort_key tier_rank (filter (\<lambda>r. inputRuleAppliesToScope r (TrimSpace w) (TrimSpace j)) rules)"
proof -
  let ?a = "filter (\<lambda>r. inputRuleAppliesToScope r (TrimSpace w) (TrimSpace j)) rules"
  have cls: "filter (in_tier PolicyTierJob) ?a = filter (\<lambda>r. tier_rank r = 0) ?a"
    "filter (in_tier PolicyTierWorkflow) ?a = filter (\<lambda>r. tier_rank r = 1) ?a"
    "filter (in_tier PolicyTierGlobal) ?a = filter (\<lambda>r. tier_rank r = 2) ?a"
    by (rule filter_cong [OF refl]; use applies_in_tier in_tier_exclusive in \<open>auto simp: tier_rank_def\<close>)+
  have "sort_key tier_rank ?a =
      filter (\<lambda>r. tier_rank r = 0) ?a @ filter (\<lambda>r. tier_rank r = 1) ?a @ filter (\<lambda>r. tier_rank r = 2) ?a"
    by (rule sort_key_three) (simp add: tier_rank_def)
  then show ?thesis by (simp only: selectInputRulesForScope_def cls Let_def)
qed

lemma Index_None: "Index body sub = None \<longleftrightarrow> \<not> Contains body sub"
  by (induction body) (auto split: if_splits)

lemma scanKeyword_length: "length found \<le> length (fst (scanKeyword kw off body found))"
proof (induction kw off body found rule: scanKeyword.induct)
  case (1 kw off body found)
  show ?case
  proof (cases "Index body (ToLower kw)")
    case None then show ?thesis by (simp add: scanKeyword.simps [of kw off body found])
  next
    case (Some pos)
    then show ?thesis using 1 [OF Some refl refl]
      by (subst scanKeyword.simps) (auto simp: Let_def)
  qed
qed

lemma scanKeyword_hit:
  "Index body (ToLower kw) \<noteq> None \<Longrightarrow> length found < length (fst (scanKeyword kw off body found))"
proof -
  assume "Index body (ToLower kw) \<noteq> None"
  then obtain pos where pos: "Index body (ToLower kw) = Some pos" by blast
  have "Suc (length found) \<le> length (fst (scanKeyword kw o' t' (found @ [f])))" for o' t' f
    using scanKeyword_length [of "found @ [f]" kw o' t'] by simp
  then show ?thesis
    by (subst scanKeyword.simps) (auto simp: pos Let_def Suc_le_eq)
qed

lemma scanKeyword_miss: "Index body (ToLower kw) = None \<Longrightarrow> scanKeyword kw off body found = (found, False)"
  by (subst scanKeyword.simps) simp

lemma scanKeywords_length: "length found \<le> length (scanKeywords kws body found)"
proof (induction kws arbitrary: found)
  case (Cons kw kws)
  then show ?case using scanKeyword_length [of found kw 0 body]
    by (auto split: prod.split) (metis fst_conv le_trans)
qed simp

lemma scanKeywords_Nil:
  "scanKeywords kws body [] = [] \<longleftrightarrow> (\<forall>kw \<in> set kws. \<not> Contains body (ToLower kw))"
proof (induction kws)
  case (Cons kw kws)
  show ?case
  proof (cases "Index body (ToLower kw)")
    case None
    then show ?thesis using Cons.IH by (simp add: scanKeyword_miss Index_None)
  next
    case (Some pos)
    then have hit: "length (fst (scanKeyword kw 0 body [])) > 0" using scanKeyword_hit [of body kw "[]"] by simp
    obtain found full where r: "scanKeyword kw 0 body [] = (found, full)" by fastforce
    then have "scanKeywords (kw # kws) body [] \<noteq> []"
      using hit scanKeywords_length [of found kws body] by auto
    then show ?thesis using Some Index_None [of body "ToLower kw"] by auto
  qed
qed simp

text \<open>
  The keyword scan misses nothing: on non-empty content it reports no finding exactly when
  none of the trimmed, non-empty keywords occurs in the content, ignoring case.
\<close>

theorem keywordScan_complete:
  assumes "content \<noteq> []"
  shows "keywordScan kws content = [] \<longleftrightarrow>
    (\<forall>kw \<in> set kws. TrimSpace kw = [] \<or> \<not> Contains (ToLower content) (ToLower (TrimSpace kw)))"
  using assms by (auto simp: keywordScan_def scanKeywords_Nil normalizeList_def)

theorem keywordScan_complete_witness:
  "keywordScan ['' Secret '', ''token''] ''a top SECRET note'' \<noteq> []"
proof -
  have "\<not> (TrimSpace '' Secret '' = [] \<or> \<not> Contains (ToLower ''a top SECRET note'') (ToLower (TrimSpace '' Secret '')))"
    by code_simp
  then show ?thesis using keywordScan_complete [of "''a top SECRET note''" "['' Secret '', ''token'']"] by auto
qed

definition allowed_item :: "scope_config \<Rightarrow> string \<Rightarrow> (string \<times> goany) list \<Rightarrow> bool" where
  "allowed_item cfg intent item \<longleftrightarrow>
     normalizeCategory (as_string (map_of item (or_default (CategoryPath cfg) ''category''))) (Aliases cfg) \<in>
     (\<lambda>c. normalizeCategory c (Aliases cfg)) ` set (mget_list (AllowedCategories cfg) intent)"

lemma scopeItem_Nil: "scopeItem cfg intent (GoObject item) = [] \<Longrightarrow> allowed_item cfg intent item"
  by (simp add: scopeItem_def allowed_item_def Let_def split: if_splits)

lemma unless_allowed_blocks: "mode \<noteq> ''allow'' \<Longrightarrow> unless_allowed mode typ detail = (True, [scope_note typ detail])"
  by (simp add: unless_allowed_def)

lemma as_string_nonempty: "as_string v \<noteq> [] \<Longrightarrow> v = Some (GoString (as_string v))"
  by (cases v rule: as_string.cases) simp_all

text \<open>
  A payload that passes a scope rule configured to deny on missing and ambiguous input
  is inside its scope: it decodes, it has a non-empty instruction and a non-empty item list,
  the instruction names a configured intent, and unless that intent permits every category,
  each item object has a category that the intent allows, after aliases.
\<close>

theorem evaluateScope_sound:
  assumes "fst (evaluateScope unmarshal cfg content) = False"
    "OnMissingInput cfg \<noteq> ''allow''" "OnAmbiguous cfg \<noteq> ''allow''"
  shows "\<exists>payload instruction items intent.
    unmarshal content = Inr payload \<and>
    resolveJSONPath payload (InstructionPath cfg) = Some (GoString instruction) \<and> instruction \<noteq> [] \<and>
    resolveJSONPath payload (ItemsPath cfg) = Some (GoArray items) \<and> items \<noteq> [] \<and>
    intent = classifyIntent instruction (AllowedCategories cfg) \<and> intent \<noteq> [] \<and>
    (mget_list (AllowedCategories cfg) intent = [] \<or>
     (\<forall>item. GoObject item \<in> set items \<longrightarrow> allowed_item cfg intent item))"
proof (cases "unmarshal content")
  case (Inl e) then show ?thesis using assms by (simp add: evaluateScope_def unless_allowed_def)
next
  case (Inr payload)
  define ins where "ins = as_string (resolveJSONPath payload (InstructionPath cfg))"
  have ins: "ins \<noteq> []"
    using assms Inr by (auto simp: evaluateScope_def unless_allowed_def ins_def [symmetric] Let_def)
  obtain item items where items: "resolveJSONPath payload (ItemsPath cfg) = Some (GoArray (item # items))"
    using assms Inr ins
    by (auto simp: evaluateScope_def unless_allowed_def ins_def [symmetric] Let_def
        split: option.splits goany.splits list.splits)
  let ?intent = "classifyIntent ins (AllowedCategories cfg)"
  have "?intent \<noteq> []" and
    "mget_list (AllowedCategories cfg) ?intent = [] \<or> concat (map (scopeItem cfg ?intent) (item # items)) = []"
    using assms Inr ins items
    by (auto simp: evaluateScope_def unless_allowed_def ins_def [symmetric] Let_def split: if_splits)
  then have "?intent \<noteq> []" "mget_list (AllowedCategories cfg) ?intent = [] \<or>
     (\<forall>it. GoObject it \<in> set (item # items) \<longrightarrow> allowed_item cfg ?intent it)"
    using scopeItem_Nil [of cfg ?intent] by (auto simp: concat_eq_Nil_conv)
  with Inr ins items as_string_nonempty [of "resolveJSONPath payload (InstructionPath cfg)"] show ?thesis
    unfolding ins_def by blast
qed

definition ex_scope :: scope_config where
  "ex_scope =
     \<lparr>InstructionPath = ''req.text'', ItemsPath = ''cart'', CategoryPath = [], NamePath = [],
      AllowedCategories = [(''buy books'', [''Book'']), (''buy'', [''any''])],
      Aliases = [(''paperback'', ''book'')], OnMissingInput = [], OnAmbiguous = ''deny''\<rparr>"

definition ex_payload :: "goany gomap" where
  "ex_payload =
     [(''req'', GoObject [(''text'', GoString ''please buy-books now'')]),
      (''cart'', GoArray [GoObject [(''name'', GoString ''x''), (''category'', GoString ''Paperback'')]])]"

theorem evaluateScope_sound_witness:
  "\<exists>items. resolveJSONPath ex_payload ''cart'' = Some (GoArray items) \<and> items \<noteq> [] \<and>
     (\<forall>item. GoObject item \<in> set items \<longrightarrow> allowed_item ex_scope ''buy books'' item)"
proof -
  have 1: "fst (evaluateScope (\<lambda>_. Inr ex_payload) ex_scope ''{}'') = False" by code_simp
  have 2: "OnMissingInput ex_scope \<noteq> ''allow''" "OnAmbiguous ex_scope \<noteq> ''allow''" "ItemsPath ex_scope = ''cart''"
    by code_simp+
  have 3: "resolveJSONPath ex_payload (InstructionPath ex_scope) = Some (GoString ''please buy-books now'')" by code_simp
  have 4: "classifyIntent ''please buy-books now'' (AllowedCategories ex_scope) = ''buy books''" by code_simp
  have 5: "mget_list (AllowedCategories ex_scope) ''buy books'' \<noteq> []" by code_simp
  show ?thesis using evaluateScope_sound [OF 1 2(1,2)] 2(3) 3 4 5 by auto
qed

section \<open>Gaps\<close>

text \<open>The intent of an instruction that names two intents of the same length depends on Go's map order.\<close>

lemma classifyIntent_order_dependent:
  "mset [(''send'', [''mail'']), (''sell'', [''book''])] = mset [(''sell'', [''book'']), (''send'', [''mail''])] \<and>
   classifyIntent ''send or sell'' [(''send'', [''mail'']), (''sell'', [''book''])] = ''send'' \<and>
   classifyIntent ''send or sell'' [(''sell'', [''book'']), (''send'', [''mail''])] = ''sell''"
proof -
  have "classifyIntent ''send or sell'' [(''send'', [''mail'']), (''sell'', [''book''])] = ''send''"
    "classifyIntent ''send or sell'' [(''sell'', [''book'']), (''send'', [''mail''])] = ''sell''"
    by code_simp+
  then show ?thesis by simp
qed

text \<open>An item that is not an object is skipped, so a cart of plain strings passes the scope.\<close>

lemma evaluateScope_skips_non_objects:
  "evaluateScope
     (\<lambda>_. Inr [(''req'', GoObject [(''text'', GoString ''buy books'')]), (''cart'', GoArray [GoString ''weapon''])])
     ex_scope ''{}'' = (False, [])"
  by code_simp

text \<open>A rule with a size limit is decided by the size alone; its keywords are not scanned.\<close>

lemma evaluateInputRule_size_skips_keywords:
  assumes "inputMetadataMatches r q" "c_maxBytes r > 0" "0 < q_inputSize q" "q_inputSize q \<le> c_maxBytes r"
    "\<not> inputContentIncomplete q"
  shows "evaluateInputRule unmarshal r q scanners = (False, [])"
  using assms by (simp add: evaluateInputRule_def evaluateInputSizeRule_def)

end
