(* ===== verification/Redis.thy ===== *)
theory Redis
  imports Go_Strings
begin

text \<open>
  The Redis server the program keeps its shared state in is not part of the program. It is
  an argument of every definition that talks to it: a record of the commands the code issues,
  over an abstract type \<open>'s\<close> of server states. What the proofs rely on is the documented effect
  of those commands. It is stated through a view of the server as a key space (strings, hashes,
  sorted sets, sets, lists, streams and times to live): \<open>redis_laws R view\<close> says that every command
  changes the view as documented. The program uses each key with one type of value, so a command
  is described by what it does to that type. A concrete server, a record of association lists,
  satisfies the laws.

  A script runs atomically, so it is a function on the server state. A call from the client can
  also fail before it reaches the server, or be applied and lose its reply.
\<close>

section \<open>Commands\<close>

text \<open>An entry of a stream has an id, a millisecond time and a sequence number, and its fields.\<close>

type_synonym stream_id = "int \<times> int"
type_synonym stream_entry = "stream_id \<times> string gomap"

record 's redis =
  rGET :: "'s \<Rightarrow> string \<Rightarrow> string option"
  rSET :: "string \<Rightarrow> string \<Rightarrow> 's \<Rightarrow> 's"
  rSETPX :: "string \<Rightarrow> string \<Rightarrow> int \<Rightarrow> 's \<Rightarrow> 's"
  rINCR :: "string \<Rightarrow> 's \<Rightarrow> (int \<times> 's) option"
  rDEL :: "string \<Rightarrow> 's \<Rightarrow> 's"
  rPEXPIRE :: "string \<Rightarrow> int \<Rightarrow> 's \<Rightarrow> 's"
  rPTTL :: "'s \<Rightarrow> string \<Rightarrow> int"
  rEXISTS :: "'s \<Rightarrow> string \<Rightarrow> bool"
  rHGET :: "'s \<Rightarrow> string \<Rightarrow> string \<Rightarrow> string option"
  rHGETALL :: "'s \<Rightarrow> string \<Rightarrow> string gomap"
  rHSET :: "string \<Rightarrow> string \<Rightarrow> string \<Rightarrow> 's \<Rightarrow> 's"
  rHDEL :: "string \<Rightarrow> string \<Rightarrow> 's \<Rightarrow> 's"
  rHINCRBY :: "string \<Rightarrow> string \<Rightarrow> int \<Rightarrow> 's \<Rightarrow> (int \<times> 's) option"
  rZSCORE :: "'s \<Rightarrow> string \<Rightarrow> string \<Rightarrow> int option"
  rZADD :: "string \<Rightarrow> int \<Rightarrow> string \<Rightarrow> 's \<Rightarrow> 's"
  rZREM :: "string \<Rightarrow> string \<Rightarrow> 's \<Rightarrow> 's"
  rZREMRANGEBYSCORE :: "string \<Rightarrow> int \<Rightarrow> 's \<Rightarrow> 's"
  rZKEEP :: "string \<Rightarrow> nat \<Rightarrow> 's \<Rightarrow> 's"
  rZCARD :: "'s \<Rightarrow> string \<Rightarrow> int"
  rSISMEMBER :: "'s \<Rightarrow> string \<Rightarrow> string \<Rightarrow> bool"
  rSADD :: "string \<Rightarrow> string \<Rightarrow> 's \<Rightarrow> 's"
  rSREM :: "string \<Rightarrow> string \<Rightarrow> 's \<Rightarrow> 's"
  rSCARD :: "'s \<Rightarrow> string \<Rightarrow> int"
  rLRANGE :: "'s \<Rightarrow> string \<Rightarrow> string list"
  rRPUSH :: "string \<Rightarrow> string \<Rightarrow> 's \<Rightarrow> 's"
  rXRANGE :: "'s \<Rightarrow> string \<Rightarrow> stream_entry list"
  rXADD :: "string \<Rightarrow> string gomap \<Rightarrow> 's \<Rightarrow> 's"

text \<open>
  \<open>rZREMRANGEBYSCORE k x\<close> removes the scores from minus infinity to \<open>x\<close>, \<open>rZKEEP k n\<close>
  stands for \<open>ZREMRANGEBYRANK k 0 -(n+1)\<close>, which keeps the \<open>n\<close> highest ranks, and
  \<open>rLRANGE\<close> and \<open>rXRANGE\<close> read a whole list or stream; \<open>rXADD\<close> appends an entry with an id the
  server chooses. \<open>rINCR\<close> and \<open>rHINCRBY\<close> return nothing when the server answers with
  an error, because the value is no integer or would leave the 64-bit range.
\<close>

definition rEXPIRE :: "'s redis \<Rightarrow> string \<Rightarrow> int \<Rightarrow> 's \<Rightarrow> 's" where
  "rEXPIRE R k t = rPEXPIRE R k (1000 * t)"

definition rSETNX :: "'s redis \<Rightarrow> string \<Rightarrow> string \<Rightarrow> int \<Rightarrow> 's \<Rightarrow> bool \<times> 's" where
  "rSETNX R k v px s = (if rEXISTS R s k then (False, s) else (True, rSETPX R k v px s))"

definition rHSETNX :: "'s redis \<Rightarrow> string \<Rightarrow> string \<Rightarrow> string \<Rightarrow> 's \<Rightarrow> bool \<times> 's" where
  "rHSETNX R k f v s = (if rHGET R s k f \<noteq> None then (False, s) else (True, rHSET R k f v s))"

datatype call = CallOk | CallFailed | CallLost

text \<open>A call that runs \<open>f\<close> on the server: its reply when there is one, and the state after it.\<close>

definition run :: "call \<Rightarrow> ('s \<Rightarrow> 'a \<times> 's) \<Rightarrow> 's \<Rightarrow> 'a option \<times> 's" where
  "run c f s =
     (case c of
        CallOk \<Rightarrow> (Some (fst (f s)), snd (f s))
      | CallFailed \<Rightarrow> (None, s)
      | CallLost \<Rightarrow> (None, snd (f s)))"

section \<open>Documented effects\<close>

record keyspace =
  ks_strings :: "string \<Rightarrow> string option"
  ks_hashes :: "string \<Rightarrow> string \<Rightarrow> string option"
  ks_zsets :: "string \<Rightarrow> string \<Rightarrow> int option"
  ks_sets :: "string \<Rightarrow> string set"
  ks_lists :: "string \<Rightarrow> string list"
  ks_streams :: "string \<Rightarrow> stream_entry list"
  ks_ttl :: "string \<Rightarrow> int option"

definition key_exists :: "keyspace \<Rightarrow> string \<Rightarrow> bool" where
  "key_exists K k \<longleftrightarrow> ks_strings K k \<noteq> None \<or> ks_hashes K k \<noteq> Map.empty \<or> ks_zsets K k \<noteq> Map.empty \<or> ks_sets K k \<noteq> {} \<or> ks_lists K k \<noteq> [] \<or>
     ks_streams K k \<noteq> []"

text \<open>A collection that becomes empty is removed, and its time to live with it.\<close>

definition tidy :: "string \<Rightarrow> keyspace \<Rightarrow> keyspace" where
  "tidy k K = (if key_exists K k then K else K\<lparr>ks_ttl := (ks_ttl K)(k := None)\<rparr>)"

definition del_key :: "string \<Rightarrow> keyspace \<Rightarrow> keyspace" where
  "del_key k K =
     \<lparr>ks_strings = (ks_strings K)(k := None), ks_hashes = (ks_hashes K)(k := Map.empty), ks_zsets = (ks_zsets K)(k := Map.empty),
      ks_sets = (ks_sets K)(k := {}), ks_lists = (ks_lists K)(k := []), ks_streams = (ks_streams K)(k := []),
      ks_ttl = (ks_ttl K)(k := None)\<rparr>"

definition string_laws :: "'s redis \<Rightarrow> ('s \<Rightarrow> keyspace) \<Rightarrow> bool" where
  "string_laws R view \<longleftrightarrow>
     (\<forall>s k. rGET R s k = ks_strings (view s) k) \<and>
     (\<forall>k v s. view (rSET R k v s) = (view s)\<lparr>ks_strings := (ks_strings (view s))(k \<mapsto> v), ks_ttl := (ks_ttl (view s))(k := None)\<rparr>) \<and>
     (\<forall>k v t s. 0 < t \<longrightarrow>
        view (rSETPX R k v t s) = (view s)\<lparr>ks_strings := (ks_strings (view s))(k \<mapsto> v), ks_ttl := (ks_ttl (view s))(k \<mapsto> t)\<rparr>) \<and>
     (\<forall>k s. ks_strings (view s) k = None \<longrightarrow>
        (\<exists>s'. rINCR R k s = Some (1, s') \<and> view s' = (view s)\<lparr>ks_strings := (ks_strings (view s))(k \<mapsto> Itoa 1)\<rparr>)) \<and>
     (\<forall>k s n. ks_strings (view s) k = Some (Itoa n) \<and> int64_range n \<and> int64_range (n + 1) \<longrightarrow>
        (\<exists>s'. rINCR R k s = Some (n + 1, s') \<and> view s' = (view s)\<lparr>ks_strings := (ks_strings (view s))(k \<mapsto> Itoa (n + 1))\<rparr>)) \<and>
     (\<forall>k s v. ks_strings (view s) k = Some v \<and> \<not> (\<exists>n. v = Itoa n \<and> int64_range n \<and> int64_range (n + 1)) \<longrightarrow> rINCR R k s = None)"

definition key_laws :: "'s redis \<Rightarrow> ('s \<Rightarrow> keyspace) \<Rightarrow> bool" where
  "key_laws R view \<longleftrightarrow>
     (\<forall>k s. view (rDEL R k s) = del_key k (view s)) \<and>
     (\<forall>k t s. 0 < t \<longrightarrow> view (rPEXPIRE R k t s) =
        (if key_exists (view s) k then (view s)\<lparr>ks_ttl := (ks_ttl (view s))(k \<mapsto> t)\<rparr> else view s)) \<and>
     (\<forall>s k. rPTTL R s k =
        (if key_exists (view s) k then case ks_ttl (view s) k of None \<Rightarrow> -1 | Some t \<Rightarrow> t else -2)) \<and>
     (\<forall>s k. rEXISTS R s k = key_exists (view s) k)"

definition hash_laws :: "'s redis \<Rightarrow> ('s \<Rightarrow> keyspace) \<Rightarrow> bool" where
  "hash_laws R view \<longleftrightarrow>
     (\<forall>s k f. rHGET R s k f = ks_hashes (view s) k f) \<and>
     (\<forall>s k. wf_map (rHGETALL R s k) \<and> map_of (rHGETALL R s k) = ks_hashes (view s) k) \<and>
     (\<forall>k f v s. view (rHSET R k f v s) =
        (view s)\<lparr>ks_hashes := (ks_hashes (view s))(k := (ks_hashes (view s) k)(f \<mapsto> v))\<rparr>) \<and>
     (\<forall>k f s. view (rHDEL R k f s) =
        tidy k ((view s)\<lparr>ks_hashes := (ks_hashes (view s))(k := (ks_hashes (view s) k)(f := None))\<rparr>)) \<and>
     (\<forall>k f d s. ks_hashes (view s) k f = None \<longrightarrow>
        (\<exists>s'. rHINCRBY R k f d s = Some (d, s') \<and>
              view s' = (view s)\<lparr>ks_hashes := (ks_hashes (view s))(k := (ks_hashes (view s) k)(f \<mapsto> Itoa d))\<rparr>)) \<and>
     (\<forall>k f d s n. ks_hashes (view s) k f = Some (Itoa n) \<and> int64_range n \<and> int64_range (n + d) \<longrightarrow>
        (\<exists>s'. rHINCRBY R k f d s = Some (n + d, s') \<and>
              view s' = (view s)\<lparr>ks_hashes := (ks_hashes (view s))(k := (ks_hashes (view s) k)(f \<mapsto> Itoa (n + d)))\<rparr>)) \<and>
     (\<forall>k f d s v. ks_hashes (view s) k f = Some v \<and> \<not> (\<exists>n. v = Itoa n \<and> int64_range n \<and> int64_range (n + d)) \<longrightarrow>
        rHINCRBY R k f d s = None)"

definition zset_laws :: "'s redis \<Rightarrow> ('s \<Rightarrow> keyspace) \<Rightarrow> bool" where
  "zset_laws R view \<longleftrightarrow>
     (\<forall>s k m. rZSCORE R s k m = ks_zsets (view s) k m) \<and>
     (\<forall>s k. finite (dom (ks_zsets (view s) k)) \<and> rZCARD R s k = int (card (dom (ks_zsets (view s) k)))) \<and>
     (\<forall>k x m s. view (rZADD R k x m s) =
        (view s)\<lparr>ks_zsets := (ks_zsets (view s))(k := (ks_zsets (view s) k)(m \<mapsto> x))\<rparr>) \<and>
     (\<forall>k m s. view (rZREM R k m s) =
        tidy k ((view s)\<lparr>ks_zsets := (ks_zsets (view s))(k := (ks_zsets (view s) k)(m := None))\<rparr>)) \<and>
     (\<forall>k x s. view (rZREMRANGEBYSCORE R k x s) =
        tidy k ((view s)\<lparr>ks_zsets := (ks_zsets (view s))(k := (\<lambda>m. case ks_zsets (view s) k m of
           None \<Rightarrow> None | Some y \<Rightarrow> if y \<le> x then None else Some y))\<rparr>)) \<and>
     (\<forall>k n s. \<exists>M \<subseteq> dom (ks_zsets (view s) k). card M \<le> n \<and>
        (card (dom (ks_zsets (view s) k)) \<le> n \<longrightarrow> M = dom (ks_zsets (view s) k)) \<and>
        view (rZKEEP R k n s) = tidy k ((view s)\<lparr>ks_zsets := (ks_zsets (view s))(k := ks_zsets (view s) k |` M)\<rparr>))"

definition set_laws :: "'s redis \<Rightarrow> ('s \<Rightarrow> keyspace) \<Rightarrow> bool" where
  "set_laws R view \<longleftrightarrow>
     (\<forall>s k m. rSISMEMBER R s k m = (m \<in> ks_sets (view s) k)) \<and>
     (\<forall>s k. finite (ks_sets (view s) k) \<and> rSCARD R s k = int (card (ks_sets (view s) k))) \<and>
     (\<forall>k m s. view (rSADD R k m s) = (view s)\<lparr>ks_sets := (ks_sets (view s))(k := insert m (ks_sets (view s) k))\<rparr>) \<and>
     (\<forall>k m s. view (rSREM R k m s) = tidy k ((view s)\<lparr>ks_sets := (ks_sets (view s))(k := ks_sets (view s) k - {m})\<rparr>))"

definition list_laws :: "'s redis \<Rightarrow> ('s \<Rightarrow> keyspace) \<Rightarrow> bool" where
  "list_laws R view \<longleftrightarrow>
     (\<forall>s k. rLRANGE R s k = ks_lists (view s) k) \<and>
     (\<forall>k v s. view (rRPUSH R k v s) = (view s)\<lparr>ks_lists := (ks_lists (view s))(k := ks_lists (view s) k @ [v])\<rparr>)"

text \<open>Ids of a stream are ordered by time, then by sequence number, and a new entry gets the largest.\<close>

definition id_less :: "stream_id \<Rightarrow> stream_id \<Rightarrow> bool" where
  "id_less x y \<longleftrightarrow> fst x < fst y \<or> fst x = fst y \<and> snd x < snd y"

definition stream_laws :: "'s redis \<Rightarrow> ('s \<Rightarrow> keyspace) \<Rightarrow> bool" where
  "stream_laws R view \<longleftrightarrow>
     (\<forall>s k. rXRANGE R s k = ks_streams (view s) k) \<and>
     (\<forall>k fs s. \<exists>i. (\<forall>e \<in> set (ks_streams (view s) k). id_less (fst e) i) \<and>
        view (rXADD R k fs s) = (view s)\<lparr>ks_streams := (ks_streams (view s))(k := ks_streams (view s) k @ [(i, fs)])\<rparr>)"

definition redis_laws :: "'s redis \<Rightarrow> ('s \<Rightarrow> keyspace) \<Rightarrow> bool" where
  "redis_laws R view \<longleftrightarrow>
     string_laws R view \<and> key_laws R view \<and> hash_laws R view \<and> zset_laws R view \<and> set_laws R view \<and> list_laws R view \<and> stream_laws R view"

text \<open>Time passes on the server: a key is gone when more than its time to live has passed.\<close>

definition lapse :: "int \<Rightarrow> keyspace \<Rightarrow> keyspace \<Rightarrow> bool" where
  "lapse d K K' \<longleftrightarrow> 0 \<le> d \<and>
     (\<forall>k. case ks_ttl K k of
        None \<Rightarrow> ks_strings K' k = ks_strings K k \<and> ks_ttl K' k = None
      | Some t \<Rightarrow>
          (d < t \<longrightarrow> ks_strings K' k = ks_strings K k \<and> ks_ttl K' k = Some (t - d)) \<and>
          (t < d \<longrightarrow> ks_strings K' k = None \<and> ks_ttl K' k = None) \<and>
          (d = t \<longrightarrow> ks_strings K' k = None \<and> ks_ttl K' k = None \<or> ks_strings K' k = ks_strings K k \<and> ks_ttl K' k = Some 0))"

locale redis_server =
  fixes R :: "'s redis" and view :: "'s \<Rightarrow> keyspace"
  assumes laws: "redis_laws R view"
begin

lemma string_laws: "string_laws R view" and key_laws: "key_laws R view" and hash_laws: "hash_laws R view"
  and zset_laws: "zset_laws R view" and set_laws: "set_laws R view" and list_laws: "list_laws R view"
  and stream_laws: "stream_laws R view"
  using laws by (simp_all add: redis_laws_def)

lemma reads:
  "rGET R s k = ks_strings (view s) k"
  "rHGET R s k f = ks_hashes (view s) k f"
  "map_of (rHGETALL R s k) = ks_hashes (view s) k"
  "rZSCORE R s k m = ks_zsets (view s) k m"
  "rZCARD R s k = int (card (dom (ks_zsets (view s) k)))"
  "rSISMEMBER R s k m = (m \<in> ks_sets (view s) k)"
  "rSCARD R s k = int (card (ks_sets (view s) k))"
  "rLRANGE R s k = ks_lists (view s) k"
  "rXRANGE R s k = ks_streams (view s) k"
  "rEXISTS R s k = key_exists (view s) k"
  "rPTTL R s k = (if key_exists (view s) k then case ks_ttl (view s) k of None \<Rightarrow> -1 | Some t \<Rightarrow> t else -2)"
  using string_laws key_laws hash_laws zset_laws set_laws list_laws stream_laws
  by (simp_all add: string_laws_def key_laws_def hash_laws_def zset_laws_def set_laws_def list_laws_def stream_laws_def)

lemma xadd:
  obtains i where "\<forall>e \<in> set (ks_streams (view s) k). id_less (fst e) i"
    "view (rXADD R k fs s) = (view s)\<lparr>ks_streams := (ks_streams (view s))(k := ks_streams (view s) k @ [(i, fs)])\<rparr>"
  using stream_laws unfolding stream_laws_def by metis

lemma finite_zset [simp]: "finite (dom (ks_zsets (view s) k))"
  using zset_laws by (simp add: zset_laws_def)

lemma writes:
  "view (rSET R k v s) = (view s)\<lparr>ks_strings := (ks_strings (view s))(k \<mapsto> v), ks_ttl := (ks_ttl (view s))(k := None)\<rparr>"
  "0 < t \<Longrightarrow> view (rSETPX R k v t s) = (view s)\<lparr>ks_strings := (ks_strings (view s))(k \<mapsto> v), ks_ttl := (ks_ttl (view s))(k \<mapsto> t)\<rparr>"
  "view (rDEL R k s) = del_key k (view s)"
  "view (rHSET R k f v s) = (view s)\<lparr>ks_hashes := (ks_hashes (view s))(k := (ks_hashes (view s) k)(f \<mapsto> v))\<rparr>"
  "view (rHDEL R k f s) = tidy k ((view s)\<lparr>ks_hashes := (ks_hashes (view s))(k := (ks_hashes (view s) k)(f := None))\<rparr>)"
  "view (rZADD R k x m s) = (view s)\<lparr>ks_zsets := (ks_zsets (view s))(k := (ks_zsets (view s) k)(m \<mapsto> x))\<rparr>"
  "view (rZREM R k m s) = tidy k ((view s)\<lparr>ks_zsets := (ks_zsets (view s))(k := (ks_zsets (view s) k)(m := None))\<rparr>)"
  "view (rZREMRANGEBYSCORE R k x s) =
     tidy k ((view s)\<lparr>ks_zsets := (ks_zsets (view s))(k := (\<lambda>m. case ks_zsets (view s) k m of
        None \<Rightarrow> None | Some y \<Rightarrow> if y \<le> x then None else Some y))\<rparr>)"
  "view (rSADD R k m s) = (view s)\<lparr>ks_sets := (ks_sets (view s))(k := insert m (ks_sets (view s) k))\<rparr>"
  "view (rSREM R k m s) = tidy k ((view s)\<lparr>ks_sets := (ks_sets (view s))(k := ks_sets (view s) k - {m})\<rparr>)"
  "view (rRPUSH R k v s) = (view s)\<lparr>ks_lists := (ks_lists (view s))(k := ks_lists (view s) k @ [v])\<rparr>"
  using string_laws key_laws hash_laws zset_laws set_laws list_laws
  by (simp_all add: string_laws_def key_laws_def hash_laws_def zset_laws_def set_laws_def list_laws_def)

text \<open>Setting a time to live changes no value.\<close>

lemma pexpire:
  assumes "0 < t"
  shows "ks_strings (view (rPEXPIRE R k t s)) = ks_strings (view s)" "ks_hashes (view (rPEXPIRE R k t s)) = ks_hashes (view s)"
    "ks_zsets (view (rPEXPIRE R k t s)) = ks_zsets (view s)" "ks_sets (view (rPEXPIRE R k t s)) = ks_sets (view s)"
    "ks_lists (view (rPEXPIRE R k t s)) = ks_lists (view s)"
    "ks_ttl (view (rPEXPIRE R k t s)) = (if key_exists (view s) k then (ks_ttl (view s))(k \<mapsto> t) else ks_ttl (view s))"
  using key_laws assms by (simp_all add: key_laws_def)

lemma expire:
  assumes "0 < t"
  shows "ks_strings (view (rEXPIRE R k t s)) = ks_strings (view s)" "ks_hashes (view (rEXPIRE R k t s)) = ks_hashes (view s)"
    "ks_zsets (view (rEXPIRE R k t s)) = ks_zsets (view s)" "ks_sets (view (rEXPIRE R k t s)) = ks_sets (view s)"
    "ks_lists (view (rEXPIRE R k t s)) = ks_lists (view s)"
  using pexpire [of "1000 * t"] assms by (simp_all add: rEXPIRE_def)

lemma tidy_values [simp]:
  "ks_strings (tidy k K) = ks_strings K" "ks_hashes (tidy k K) = ks_hashes K" "ks_zsets (tidy k K) = ks_zsets K"
  "ks_sets (tidy k K) = ks_sets K" "ks_lists (tidy k K) = ks_lists K" "ks_streams (tidy k K) = ks_streams K"
  by (simp_all add: tidy_def)

lemma zkeep:
  "ks_strings (view (rZKEEP R k n s)) = ks_strings (view s)" "ks_hashes (view (rZKEEP R k n s)) = ks_hashes (view s)"
  "ks_sets (view (rZKEEP R k n s)) = ks_sets (view s)" "ks_lists (view (rZKEEP R k n s)) = ks_lists (view s)"
  "k' \<noteq> k \<Longrightarrow> ks_zsets (view (rZKEEP R k n s)) k' = ks_zsets (view s) k'"
  "card (dom (ks_zsets (view (rZKEEP R k n s)) k)) \<le> n"
proof -
  obtain M where M: "M \<subseteq> dom (ks_zsets (view s) k)" "card M \<le> n"
    "view (rZKEEP R k n s) = tidy k ((view s)\<lparr>ks_zsets := (ks_zsets (view s))(k := ks_zsets (view s) k |` M)\<rparr>)"
    using zset_laws unfolding zset_laws_def by meson
  then have "dom (ks_zsets (view s) k |` M) = M" by auto
  with M show "ks_strings (view (rZKEEP R k n s)) = ks_strings (view s)" "ks_hashes (view (rZKEEP R k n s)) = ks_hashes (view s)"
    "ks_sets (view (rZKEEP R k n s)) = ks_sets (view s)" "ks_lists (view (rZKEEP R k n s)) = ks_lists (view s)"
    "k' \<noteq> k \<Longrightarrow> ks_zsets (view (rZKEEP R k n s)) k' = ks_zsets (view s) k'"
    "card (dom (ks_zsets (view (rZKEEP R k n s)) k)) \<le> n"
    by simp_all
qed

lemma hincrby_new:
  assumes "ks_hashes (view s) k f = None"
  obtains s' where "rHINCRBY R k f d s = Some (d, s')"
    "view s' = (view s)\<lparr>ks_hashes := (ks_hashes (view s))(k := (ks_hashes (view s) k)(f \<mapsto> Itoa d))\<rparr>"
  using hash_laws assms unfolding hash_laws_def by metis

lemma hincrby_old:
  assumes "ks_hashes (view s) k f = Some (Itoa n)" "int64_range n" "int64_range (n + d)"
  obtains s' where "rHINCRBY R k f d s = Some (n + d, s')"
    "view s' = (view s)\<lparr>ks_hashes := (ks_hashes (view s))(k := (ks_hashes (view s) k)(f \<mapsto> Itoa (n + d)))\<rparr>"
  using hash_laws assms unfolding hash_laws_def by metis

lemma hincrby_cases:
  obtains "rHINCRBY R k f d s = None"
  | n s' where "rHINCRBY R k f d s = Some (n, s')"
    "view s' = (view s)\<lparr>ks_hashes := (ks_hashes (view s))(k := (ks_hashes (view s) k)(f \<mapsto> Itoa n))\<rparr>"
    "ks_hashes (view s) k f = None \<and> n = d \<or> (\<exists>m. ks_hashes (view s) k f = Some (Itoa m) \<and> n = m + d)"
proof (cases "ks_hashes (view s) k f")
  case None
  then show thesis using hincrby_new that(2) by metis
next
  case (Some v)
  show thesis
  proof (cases "\<exists>n. v = Itoa n \<and> int64_range n \<and> int64_range (n + d)")
    case True
    then obtain n where "v = Itoa n" "int64_range n" "int64_range (n + d)" by blast
    with Some show thesis using hincrby_old that(2) by metis
  next
    case False
    then show thesis using Some hash_laws that(1) unfolding hash_laws_def by metis
  qed
qed

lemma incr_new:
  assumes "ks_strings (view s) k = None"
  obtains s' where "rINCR R k s = Some (1, s')" "view s' = (view s)\<lparr>ks_strings := (ks_strings (view s))(k \<mapsto> Itoa 1)\<rparr>"
  using string_laws assms unfolding string_laws_def by metis

lemma incr_old:
  assumes "ks_strings (view s) k = Some (Itoa n)" "int64_range n" "int64_range (n + 1)"
  obtains s' where "rINCR R k s = Some (n + 1, s')" "view s' = (view s)\<lparr>ks_strings := (ks_strings (view s))(k \<mapsto> Itoa (n + 1))\<rparr>"
  using string_laws assms unfolding string_laws_def by metis

end

section \<open>A concrete server\<close>

record server =
  srv_strings :: "string gomap"
  srv_hashes :: "(string \<times> string \<times> string) list"
  srv_zsets :: "(string \<times> string \<times> int) list"
  srv_sets :: "(string \<times> string \<times> unit) list"
  srv_lists :: "string list gomap"
  srv_streams :: "stream_entry list gomap"
  srv_ttl :: "int gomap"

definition empty_server :: server where
  "empty_server = \<lparr>srv_strings = [], srv_hashes = [], srv_zsets = [], srv_sets = [], srv_lists = [], srv_streams = [], srv_ttl = []\<rparr>"

definition field_of :: "(string \<times> string \<times> 'v) list \<Rightarrow> string \<Rightarrow> string \<Rightarrow> 'v option" where
  "field_of h k f = map_option (\<lambda>(_, _, v). v) (find (\<lambda>(k', f', _). k' = k \<and> f' = f) h)"

definition set_field :: "string \<Rightarrow> string \<Rightarrow> 'v \<Rightarrow> (string \<times> string \<times> 'v) list \<Rightarrow> (string \<times> string \<times> 'v) list" where
  "set_field k f v h = (k, f, v) # filter (\<lambda>(k', f', _). \<not> (k' = k \<and> f' = f)) h"

definition drop_fields :: "(string \<Rightarrow> string \<Rightarrow> bool) \<Rightarrow> (string \<times> string \<times> 'v) list \<Rightarrow> (string \<times> string \<times> 'v) list" where
  "drop_fields Q h = filter (\<lambda>(k, f, _). \<not> Q k f) h"

definition fields_of :: "(string \<times> string \<times> 'v) list \<Rightarrow> string \<Rightarrow> string list" where
  "fields_of h k = map (\<lambda>x. fst (snd x)) (filter (\<lambda>x. fst x = k) h)"

definition server_view :: "server \<Rightarrow> keyspace" where
  "server_view s =
     \<lparr>ks_strings = map_of (srv_strings s), ks_hashes = field_of (srv_hashes s), ks_zsets = field_of (srv_zsets s),
      ks_sets = (\<lambda>k. set (fields_of (srv_sets s) k)), ks_lists = mget_list (srv_lists s),
      ks_streams = mget_list (srv_streams s), ks_ttl = map_of (srv_ttl s)\<rparr>"

definition srv_exists :: "server \<Rightarrow> string \<Rightarrow> bool" where
  "srv_exists s k \<longleftrightarrow> map_of (srv_strings s) k \<noteq> None \<or> fields_of (srv_hashes s) k \<noteq> [] \<or> fields_of (srv_zsets s) k \<noteq> [] \<or>
     fields_of (srv_sets s) k \<noteq> [] \<or> mget_list (srv_lists s) k \<noteq> [] \<or> mget_list (srv_streams s) k \<noteq> []"

definition srv_tidy :: "string \<Rightarrow> server \<Rightarrow> server" where
  "srv_tidy k s = (if srv_exists s k then s else s\<lparr>srv_ttl := mdel k (srv_ttl s)\<rparr>)"

definition srv_number :: "string option \<Rightarrow> int \<Rightarrow> int option" where
  "srv_number v d =
     (case v of
        None \<Rightarrow> Some d
      | Some x \<Rightarrow> (case Atoi x of
                     None \<Rightarrow> None
                   | Some n \<Rightarrow> if x = Itoa n \<and> int64_range n \<and> int64_range (n + d) then Some (n + d) else None))"

text \<open>The members of a sorted set that keeping the \<open>n\<close> highest scores leaves.\<close>

definition top_members :: "(string \<times> string \<times> int) list \<Rightarrow> string \<Rightarrow> nat \<Rightarrow> string list" where
  "top_members z k n = take n (sort_key (\<lambda>m. - the (field_of z k m)) (remdups (fields_of z k)))"

definition latest :: "stream_entry list \<Rightarrow> int" where
  "latest es = foldr (\<lambda>e m. max (fst (fst e)) m) es 0"

definition map_redis :: "server redis" where
  "map_redis =
     \<lparr>rGET = (\<lambda>s. map_of (srv_strings s)),
      rSET = (\<lambda>k v s. s\<lparr>srv_strings := mput k v (srv_strings s), srv_ttl := mdel k (srv_ttl s)\<rparr>),
      rSETPX = (\<lambda>k v t s. s\<lparr>srv_strings := mput k v (srv_strings s), srv_ttl := mput k t (srv_ttl s)\<rparr>),
      rINCR = (\<lambda>k s. map_option (\<lambda>n. (n, s\<lparr>srv_strings := mput k (Itoa n) (srv_strings s)\<rparr>))
                       (srv_number (map_of (srv_strings s) k) 1)),
      rDEL = (\<lambda>k s. \<lparr>srv_strings = mdel k (srv_strings s),
                     srv_hashes = drop_fields (\<lambda>k' _. k' = k) (srv_hashes s),
                     srv_zsets = drop_fields (\<lambda>k' _. k' = k) (srv_zsets s),
                     srv_sets = drop_fields (\<lambda>k' _. k' = k) (srv_sets s),
                     srv_lists = mdel k (srv_lists s), srv_streams = mdel k (srv_streams s),
                     srv_ttl = mdel k (srv_ttl s)\<rparr>),
      rPEXPIRE = (\<lambda>k t s. if srv_exists s k then s\<lparr>srv_ttl := mput k t (srv_ttl s)\<rparr> else s),
      rPTTL = (\<lambda>s k. if srv_exists s k then case map_of (srv_ttl s) k of None \<Rightarrow> -1 | Some t \<Rightarrow> t else -2),
      rEXISTS = srv_exists,
      rHGET = (\<lambda>s. field_of (srv_hashes s)),
      rHGETALL = (\<lambda>s k. map (\<lambda>f. (f, the (field_of (srv_hashes s) k f))) (remdups (fields_of (srv_hashes s) k))),
      rHSET = (\<lambda>k f v s. s\<lparr>srv_hashes := set_field k f v (srv_hashes s)\<rparr>),
      rHDEL = (\<lambda>k f s. srv_tidy k (s\<lparr>srv_hashes := drop_fields (\<lambda>k' f'. k' = k \<and> f' = f) (srv_hashes s)\<rparr>)),
      rHINCRBY = (\<lambda>k f d s. map_option (\<lambda>n. (n, s\<lparr>srv_hashes := set_field k f (Itoa n) (srv_hashes s)\<rparr>))
                              (srv_number (field_of (srv_hashes s) k f) d)),
      rZSCORE = (\<lambda>s. field_of (srv_zsets s)),
      rZADD = (\<lambda>k x m s. s\<lparr>srv_zsets := set_field k m x (srv_zsets s)\<rparr>),
      rZREM = (\<lambda>k m s. srv_tidy k (s\<lparr>srv_zsets := drop_fields (\<lambda>k' m'. k' = k \<and> m' = m) (srv_zsets s)\<rparr>)),
      rZREMRANGEBYSCORE = (\<lambda>k x s. srv_tidy k (s\<lparr>srv_zsets :=
         drop_fields (\<lambda>k' m'. k' = k \<and> (case field_of (srv_zsets s) k' m' of None \<Rightarrow> False | Some y \<Rightarrow> y \<le> x)) (srv_zsets s)\<rparr>)),
      rZKEEP = (\<lambda>k n s. srv_tidy k (s\<lparr>srv_zsets :=
         drop_fields (\<lambda>k' m'. k' = k \<and> m' \<notin> set (top_members (srv_zsets s) k n)) (srv_zsets s)\<rparr>)),
      rZCARD = (\<lambda>s k. int (length (remdups (fields_of (srv_zsets s) k)))),
      rSISMEMBER = (\<lambda>s k m. m \<in> set (fields_of (srv_sets s) k)),
      rSADD = (\<lambda>k m s. s\<lparr>srv_sets := set_field k m () (srv_sets s)\<rparr>),
      rSREM = (\<lambda>k m s. srv_tidy k (s\<lparr>srv_sets := drop_fields (\<lambda>k' m'. k' = k \<and> m' = m) (srv_sets s)\<rparr>)),
      rSCARD = (\<lambda>s k. int (length (remdups (fields_of (srv_sets s) k)))),
      rLRANGE = (\<lambda>s. mget_list (srv_lists s)),
      rRPUSH = (\<lambda>k v s. s\<lparr>srv_lists := mput k (mget_list (srv_lists s) k @ [v]) (srv_lists s)\<rparr>),
      rXRANGE = (\<lambda>s. mget_list (srv_streams s)),
      rXADD = (\<lambda>k fs s. s\<lparr>srv_streams := mput k (mget_list (srv_streams s) k @ [((latest (mget_list (srv_streams s) k) + 1, 0), fs)])
                          (srv_streams s)\<rparr>)\<rparr>"

lemma field_of_drop [simp]: "field_of (drop_fields Q h) k f = (if Q k f then None else field_of h k f)"
  by (induction h) (auto simp: field_of_def drop_fields_def)

lemma field_of_set [simp]:
  "field_of (set_field k f v h) k' f' = (if k' = k \<and> f' = f then Some v else field_of h k' f')"
proof (cases "k' = k \<and> f' = f")
  case False
  have "field_of (set_field k f v h) k' f' = field_of (drop_fields (\<lambda>k' f'. k' = k \<and> f' = f) h) k' f'"
    using False by (auto simp: set_field_def field_of_def drop_fields_def)
  with False show ?thesis by auto
qed (simp add: set_field_def field_of_def)

lemma in_fields: "f \<in> set (fields_of h k) \<longleftrightarrow> field_of h k f \<noteq> None"
proof -
  have "field_of h k f \<noteq> None \<longleftrightarrow> (\<exists>v. (k, f, v) \<in> set h)"
    by (auto simp: field_of_def find_None_iff)
  then show ?thesis by (force simp: fields_of_def)
qed

lemma dom_field_of [simp]: "dom (field_of h k) = set (fields_of h k)"
  by (auto simp: in_fields)

lemma fields_Nil_iff: "fields_of h k = [] \<longleftrightarrow> field_of h k = Map.empty"
  by (metis dom_eq_empty_conv dom_field_of set_empty)

lemma key_exists_view [simp]: "key_exists (server_view s) k = srv_exists s k"
  by (simp add: key_exists_def srv_exists_def server_view_def fields_Nil_iff)

lemma view_tidy [simp]: "server_view (srv_tidy k s) = tidy k (server_view s)"
  by (simp add: srv_tidy_def tidy_def) (simp add: server_view_def)

lemma set_fields_set [simp]: "set (fields_of (set_field k f v h) k') = (if k' = k then insert f (set (fields_of h k')) else set (fields_of h k'))"
  by (auto simp: in_fields split: if_splits)

lemma set_fields_drop [simp]: "set (fields_of (drop_fields Q h) k) = {f \<in> set (fields_of h k). \<not> Q k f}"
  by (auto simp: in_fields split: if_splits)

lemma srv_number_simps [simp]:
  "srv_number None d = Some d"
  "int64_range n \<Longrightarrow> int64_range (n + d) \<Longrightarrow> srv_number (Some (Itoa n)) d = Some (n + d)"
  "\<forall>n. int64_range n \<longrightarrow> v = Itoa n \<longrightarrow> \<not> int64_range (n + d) \<Longrightarrow> srv_number (Some v) d = None"
  by (auto simp: srv_number_def split: option.split)

lemma top_members_subset: "set (top_members z k n) \<subseteq> set (fields_of z k)"
  using set_take_subset by (fastforce simp: top_members_def)

lemma card_top_members: "card (set (top_members z k n)) \<le> n"
  using card_length [of "top_members z k n"] by (simp add: top_members_def)

lemma top_members_all: "card (set (fields_of z k)) \<le> n \<Longrightarrow> set (top_members z k n) = set (fields_of z k)"
  by (simp add: top_members_def length_remdups_card_conv)

lemma view_upd:
  "server_view (s\<lparr>srv_strings := x\<rparr>) = (server_view s)\<lparr>ks_strings := map_of x\<rparr>"
  "server_view (s\<lparr>srv_hashes := h\<rparr>) = (server_view s)\<lparr>ks_hashes := field_of h\<rparr>"
  "server_view (s\<lparr>srv_zsets := z\<rparr>) = (server_view s)\<lparr>ks_zsets := field_of z\<rparr>"
  "server_view (s\<lparr>srv_sets := y\<rparr>) = (server_view s)\<lparr>ks_sets := \<lambda>k. set (fields_of y k)\<rparr>"
  "server_view (s\<lparr>srv_lists := l\<rparr>) = (server_view s)\<lparr>ks_lists := mget_list l\<rparr>"
  "server_view (s\<lparr>srv_streams := xs\<rparr>) = (server_view s)\<lparr>ks_streams := mget_list xs\<rparr>"
  "server_view (s\<lparr>srv_ttl := d\<rparr>) = (server_view s)\<lparr>ks_ttl := map_of d\<rparr>"
  by (simp_all add: server_view_def)

lemma view_sel:
  "ks_strings (server_view s) = map_of (srv_strings s)" "ks_hashes (server_view s) = field_of (srv_hashes s)"
  "ks_zsets (server_view s) = field_of (srv_zsets s)" "ks_sets (server_view s) = (\<lambda>k. set (fields_of (srv_sets s) k))"
  "ks_lists (server_view s) = mget_list (srv_lists s)" "ks_streams (server_view s) = mget_list (srv_streams s)"
  "ks_ttl (server_view s) = map_of (srv_ttl s)"
  by (simp_all add: server_view_def)

lemma field_of_upd:
  "field_of (set_field k f v h) = (field_of h)(k := (field_of h k)(f \<mapsto> v))"
  "field_of (drop_fields (\<lambda>k' f'. k' = k \<and> Q f') h) = (field_of h)(k := (\<lambda>f. if Q f then None else field_of h k f))"
  "(\<lambda>f'. if f' = f then None else field_of h k f') = (field_of h k)(f := None)"
  by (auto simp: fun_eq_iff)

lemma map_redis_strings: "string_laws map_redis server_view" "list_laws map_redis server_view"
  by (auto simp: string_laws_def list_laws_def map_redis_def view_upd view_sel Let_def mget_list_def fun_eq_iff)

lemma map_redis_streams: "stream_laws map_redis server_view"
proof -
  have "fst (fst e) \<le> latest es" if "e \<in> set es" for e es
    using that by (induction es) (auto simp: latest_def)
  then have "\<forall>e \<in> set es. id_less (fst e) (latest es + 1, 0)" for es by (fastforce simp: id_less_def)
  moreover have "server_view (rXADD map_redis k fs s) = (server_view s)\<lparr>ks_streams := (ks_streams (server_view s))
      (k := ks_streams (server_view s) k @ [((latest (ks_streams (server_view s) k) + 1, 0), fs)])\<rparr>" for k fs s
    by (simp add: map_redis_def view_upd view_sel fun_eq_iff mget_list_def)
  moreover have "rXRANGE map_redis s k = ks_streams (server_view s) k" for s k by (simp add: map_redis_def view_sel)
  ultimately show ?thesis unfolding stream_laws_def by blast
qed

lemma map_redis_keys: "key_laws map_redis server_view"
proof -
  have "server_view (rDEL map_redis k s) = del_key k (server_view s)" for k s
    by (auto simp: del_key_def map_redis_def server_view_def mget_list_def fun_eq_iff)
  then show ?thesis by (simp add: key_laws_def) (simp add: map_redis_def view_upd view_sel)
qed

lemma map_redis_hgetall:
  "wf_map (rHGETALL map_redis s k)" "map_of (rHGETALL map_redis s k) = field_of (srv_hashes s) k"
proof -
  have m: "map_of (map (\<lambda>f. (f, the (h f))) fs) f = (if f \<in> set fs then Some (the (h f)) else None)"
    for h :: "string \<Rightarrow> string option" and fs f
    by (induction fs) auto
  have "field_of (srv_hashes s) k f = None" if "f \<notin> set (fields_of (srv_hashes s) k)" for f
    using that by (simp add: in_fields)
  then show "map_of (rHGETALL map_redis s k) = field_of (srv_hashes s) k"
    by (auto simp: map_redis_def m fun_eq_iff in_fields)
  show "wf_map (rHGETALL map_redis s k)" by (simp add: map_redis_def wf_map_def o_def)
qed

lemma map_redis_hashes: "hash_laws map_redis server_view"
  unfolding hash_laws_def
  by (intro conjI) (simp_all add: map_redis_hgetall view_sel, auto simp: map_redis_def Let_def view_upd view_sel field_of_upd)

lemma map_redis_sets: "set_laws map_redis server_view"
proof -
  have "(\<lambda>k'. set (fields_of (set_field k m () y) k')) = (\<lambda>k'. set (fields_of y k'))(k := insert m (set (fields_of y k)))"
    "(\<lambda>k'. set (fields_of (drop_fields (\<lambda>k' m'. k' = k \<and> m' = m) y) k')) =
       (\<lambda>k'. set (fields_of y k'))(k := set (fields_of y k) - {m})" for k m and y :: "(string \<times> string \<times> unit) list"
    by (auto simp: fun_eq_iff)
  then show ?thesis by (simp add: set_laws_def map_redis_def view_upd view_sel length_remdups_card_conv)
qed

lemma map_redis_zkeep:
  "server_view (rZKEEP map_redis k n s) =
     tidy k ((server_view s)\<lparr>ks_zsets := (ks_zsets (server_view s))(k := ks_zsets (server_view s) k |` set (top_members (srv_zsets s) k n))\<rparr>)"
proof -
  have "field_of (drop_fields (\<lambda>k' m'. k' = k \<and> m' \<notin> M) z) = (field_of z)(k := field_of z k |` M)"
    for M and z :: "(string \<times> string \<times> int) list"
    by (auto simp: fun_eq_iff restrict_map_def)
  then show ?thesis by (simp add: map_redis_def view_upd view_sel)
qed

lemma map_redis_zsets: "zset_laws map_redis server_view"
proof -
  have "\<exists>M \<subseteq> dom (ks_zsets (server_view s) k). card M \<le> n \<and>
      (card (dom (ks_zsets (server_view s) k)) \<le> n \<longrightarrow> M = dom (ks_zsets (server_view s) k)) \<and>
      server_view (rZKEEP map_redis k n s) =
        tidy k ((server_view s)\<lparr>ks_zsets := (ks_zsets (server_view s))(k := ks_zsets (server_view s) k |` M)\<rparr>)" for s k n
    using top_members_subset [of "srv_zsets s" k n] card_top_members [of "srv_zsets s" k n]
      top_members_all [of "srv_zsets s" k n] map_redis_zkeep [of k n s]
    by (intro exI [of _ "set (top_members (srv_zsets s) k n)"]) (simp add: view_sel)
  moreover have "field_of (drop_fields (\<lambda>k' m'. k' = k \<and> (case field_of z k' m' of None \<Rightarrow> False | Some y \<Rightarrow> y \<le> x)) z) =
      (field_of z)(k := (\<lambda>m. case field_of z k m of None \<Rightarrow> None | Some y \<Rightarrow> if y \<le> x then None else Some y))"
    for k x and z :: "(string \<times> string \<times> int) list"
    by (auto simp: fun_eq_iff split: option.split)
  ultimately show ?thesis
    unfolding zset_laws_def
    by (simp add: map_redis_def view_upd view_sel length_remdups_card_conv field_of_upd)
qed

interpretation mr: redis_server map_redis server_view
  by unfold_locales
    (simp add: redis_laws_def map_redis_strings map_redis_keys map_redis_hashes map_redis_zsets map_redis_sets map_redis_streams)

lemmas map_redis_laws = mr.laws

end
