(* ===== verification/Velocity.thy ===== *)
theory Velocity
  imports Safety_Policy Redis
begin

text \<open>
  Rate limits of policy rules, from \<open>core/controlplane/safetykernel/velocity.go\<close> and the
  helpers of \<open>kernel.go\<close>: a sliding window per rule and bucket in a Redis sorted set, and the
  evaluation of a rule list in which a rule with a velocity block fires only when its window
  is full. The server is an argument; times are Unix seconds.
\<close>

section \<open>The window\<close>

definition sanitizeKeyValue :: "string \<Rightarrow> string" where
  "sanitizeKeyValue raw =
     map (\<lambda>c. if c \<in> {CHR '':'', CHR '' '', CHR 0x0A, CHR 0x0D, CHR 0x09} then CHR ''_'' else c) raw"

definition velocityKey :: "string \<Rightarrow> string \<Rightarrow> string" where
  "velocityKey ruleID keyValue =
     ''cordum:velocity:'' @ sanitizeKeyValue ruleID @ '':'' @ sanitizeKeyValue keyValue"

text \<open>The two scripts.\<close>

definition velocityLua :: "'s redis \<Rightarrow> string \<Rightarrow> int \<Rightarrow> int \<Rightarrow> string \<Rightarrow> int \<Rightarrow> 's \<Rightarrow> int \<times> 's" where
  "velocityLua R key now windowStart member ttl s =
     (let s1 = rZREMRANGEBYSCORE R key windowStart s;
          s2 = rZADD R key now member s1;
          s3 = rEXPIRE R key ttl s2
      in (rZCARD R s3 key, s3))"

definition velocityCheckOnlyLua :: "'s redis \<Rightarrow> string \<Rightarrow> int \<Rightarrow> 's \<Rightarrow> int \<times> 's" where
  "velocityCheckOnlyLua R key windowStart s =
     (let s1 = rZREMRANGEBYSCORE R key windowStart s in (rZCARD R s1 key, s1))"

datatype velocity_failure =
    VelocityNotInitialized
  | VelocityInvalidConfig int int
  | VelocityRedisError

definition CheckAndRecord ::
    "'s redis option \<Rightarrow> call \<Rightarrow> int \<Rightarrow> string \<Rightarrow> string \<Rightarrow> string \<Rightarrow> velocity_config \<Rightarrow> 's \<Rightarrow>
     (velocity_failure + bool \<times> int) \<times> 's" where
  "CheckAndRecord vc c now ruleID keyValue requestID cfg s =
     (case vc of
        None \<Rightarrow> (Inl VelocityNotInitialized, s)
      | Some R \<Rightarrow>
          if MaxRequests cfg \<le> 0 \<or> WindowSeconds cfg \<le> 0
          then (Inl (VelocityInvalidConfig (MaxRequests cfg) (WindowSeconds cfg)), s)
          else case run c (velocityLua R (velocityKey ruleID keyValue) now (now - WindowSeconds cfg) requestID
                             (WindowSeconds cfg + 60)) s of
              (None, s') \<Rightarrow> (Inl VelocityRedisError, s')
            | (Some n, s') \<Rightarrow> (Inr (n > MaxRequests cfg, n), s'))"

definition CheckOnly ::
    "'s redis option \<Rightarrow> call \<Rightarrow> int \<Rightarrow> string \<Rightarrow> string \<Rightarrow> velocity_config \<Rightarrow> 's \<Rightarrow>
     (velocity_failure + bool \<times> int) \<times> 's" where
  "CheckOnly vc c now ruleID keyValue cfg s =
     (case vc of
        None \<Rightarrow> (Inl VelocityNotInitialized, s)
      | Some R \<Rightarrow>
          if MaxRequests cfg \<le> 0 \<or> WindowSeconds cfg \<le> 0
          then (Inl (VelocityInvalidConfig (MaxRequests cfg) (WindowSeconds cfg)), s)
          else case run c (velocityCheckOnlyLua R (velocityKey ruleID keyValue) (now - WindowSeconds cfg)) s of
              (None, s') \<Rightarrow> (Inl VelocityRedisError, s')
            | (Some n, s') \<Rightarrow> (Inr (n > MaxRequests cfg, n), s'))"

text \<open>The member of the window: the job, or the random identifier drawn for the call.\<close>

definition resolveVelocityMember :: "string \<Rightarrow> string \<Rightarrow> string" where
  "resolveVelocityMember jobID anon = (if jobID \<noteq> [] then jobID else anon)"

section \<open>Rule evaluation\<close>

definition Unlimited :: int where "Unlimited = -1"

definition hasVelocityRules :: "policy_rule list \<Rightarrow> bool" where
  "hasVelocityRules rs \<longleftrightarrow> list_ex (\<lambda>r. r_Velocity r \<noteq> None) rs"

fun countVelocity :: "int \<Rightarrow> int \<Rightarrow> policy_rule list \<Rightarrow> int" where
  "countVelocity limit seen [] = seen"
| "countVelocity limit seen (r # rs) =
     (if r_Velocity r = None then countVelocity limit seen rs
      else if limit \<noteq> Unlimited \<and> seen + 1 \<ge> limit then seen + 1
      else countVelocity limit (seen + 1) rs)"

definition effectiveVelocityRuleCount :: "safety_policy option \<Rightarrow> int \<Rightarrow> int" where
  "effectiveVelocityRuleCount po limit =
     (case po of
        None \<Rightarrow> 0
      | Some p \<Rightarrow> if limit = 0 then 0 else countVelocity limit 0 (EffectiveRules p))"

text \<open>
  What the loop reads besides the policy: the server if one is connected, the limit of the
  licence, the clock, \<open>VELOCITY_FAIL_MODE\<close>, and for the n-th velocity rule the random member and
  the outcome of its call.
\<close>

record 's velocity_env =
  ve_checker :: "'s redis option"
  ve_limit :: int
  ve_now :: int
  ve_failMode :: string
  ve_anon :: "int \<Rightarrow> string"
  ve_call :: "int \<Rightarrow> call"

definition velocityUnavailable :: policy_decision where
  "velocityUnavailable =
     (plain_decision ''require_approval'' ''velocity check unavailable'' PolicyTierGlobal)\<lparr>d_ApprovalRequired := True\<rparr>"

text \<open>Whether a matching velocity rule is passed over, fires, or ends the walk.\<close>

datatype velocity_step = VSkip | VFire | VUnavailable

definition velocityStep ::
    "'s velocity_env \<Rightarrow> bool \<Rightarrow> string \<Rightarrow> policy_input \<Rightarrow> int \<Rightarrow> string \<Rightarrow> velocity_config \<Rightarrow> 's \<Rightarrow> velocity_step \<times> 's" where
  "velocityStep env dryRun jobID i seen ruleID v s =
     (if ve_checker env = None then (VSkip, s)
      else let keyValue = ResolveKey (Some v) i in
        if keyValue = [] then (VSkip, s)
        else let (res, s') =
               (if dryRun then CheckOnly (ve_checker env) (ve_call env seen) (ve_now env) ruleID keyValue v s
                else CheckAndRecord (ve_checker env) (ve_call env seen) (ve_now env) ruleID keyValue
                       (resolveVelocityMember jobID (ve_anon env seen)) v s)
             in case res of
                  Inl e \<Rightarrow> (if ToLower (TrimSpace (ve_failMode env)) = ''open'' then VSkip else VUnavailable, s')
                | Inr (exceeded, n) \<Rightarrow> (if exceeded then VFire else VSkip, s'))"

fun velocityLoop ::
    "'s velocity_env \<Rightarrow> safety_policy \<Rightarrow> policy_input \<Rightarrow> string \<Rightarrow> bool \<Rightarrow> int \<Rightarrow> policy_rule list \<Rightarrow> 's \<Rightarrow>
     policy_decision \<times> 's" where
  "velocityLoop env p i jobID dryRun seen [] s = (DefaultPolicyDecision p, s)"
| "velocityLoop env p i jobID dryRun seen (r # rs) s =
     (case r_Velocity r of
        None \<Rightarrow>
          if matchRule (r_Match r) i then (BuildDecision r, s) else velocityLoop env p i jobID dryRun seen rs s
      | Some v \<Rightarrow>
          if ve_limit env \<noteq> Unlimited \<and> seen + 1 > ve_limit env
          then velocityLoop env p i jobID dryRun (seen + 1) rs s
          else if \<not> matchRule (r_Match r) i then velocityLoop env p i jobID dryRun (seen + 1) rs s
          else case velocityStep env dryRun jobID i (seen + 1) (r_ID r) v s of
              (VSkip, s') \<Rightarrow> velocityLoop env p i jobID dryRun (seen + 1) rs s'
            | (VFire, s') \<Rightarrow> (BuildDecision r, s')
            | (VUnavailable, s') \<Rightarrow> (velocityUnavailable, s'))"

definition evaluateRulesWithVelocity ::
    "'s velocity_env \<Rightarrow> safety_policy \<Rightarrow> policy_input \<Rightarrow> string \<Rightarrow> string \<Rightarrow> 's \<Rightarrow> policy_decision \<times> 's" where
  "evaluateRulesWithVelocity env p i jobID method s =
     velocityLoop env p i jobID (method \<in> {''simulate'', ''explain''}) 0 (EffectiveRules p) s"

section \<open>Properties\<close>

context redis_server
begin

lemma velocityLua_window:
  assumes "0 < expiry"
    and live: "live = insert member {m. \<exists>t. rZSCORE R s key m = Some t \<and> start < t}"
  shows "fst (velocityLua R key now start member expiry s) = int (card live)"
    "rZSCORE R (snd (velocityLua R key now start member expiry s)) key m =
       (if m = member then Some now else if m \<in> live then rZSCORE R s key m else None)"
proof -
  define s' where "s' = snd (velocityLua R key now start member expiry s)"
  have score: "ks_zsets (view s') key m =
      (if m = member then Some now else if m \<in> live then ks_zsets (view s) key m else None)" for m
    using assms(1)
    by (auto simp: s'_def velocityLua_def Let_def live expire writes reads not_le split: option.split)
  then show "rZSCORE R (snd (velocityLua R key now start member expiry s)) key m =
       (if m = member then Some now else if m \<in> live then rZSCORE R s key m else None)"
    by (simp add: reads s'_def)
  have "dom (ks_zsets (view s') key) = live" by (auto simp: score live reads split: if_splits)
  then show "fst (velocityLua R key now start member expiry s) = int (card live)"
    by (simp add: s'_def velocityLua_def Let_def reads)
qed

end

text \<open>
  C37. The sliding window counts exactly. Recording a request leaves in the bucket the request
  itself and the members seen strictly inside the window, each at its latest time; the count
  returned is the number of these distinct members, and the limit is reported exceeded exactly
  when that number is above the configured maximum. A retry under the same job id therefore
  never advances the count.
\<close>

theorem CheckAndRecord_window:
  fixes s :: 's and R :: "'s redis"
  assumes "redis_laws R view" "MaxRequests cfg > 0" "WindowSeconds cfg > 0"
    and live: "live = insert requestID {m. \<exists>t. rZSCORE R s (velocityKey ruleID keyValue) m = Some t \<and>
                                                now - WindowSeconds cfg < t}"
  shows "\<exists>s'. CheckAndRecord (Some R) CallOk now ruleID keyValue requestID cfg s =
           (Inr (int (card live) > MaxRequests cfg, int (card live)), s') \<and>
         (\<forall>m. rZSCORE R s' (velocityKey ruleID keyValue) m =
            (if m = requestID then Some now
             else if m \<in> live then rZSCORE R s (velocityKey ruleID keyValue) m else None))"
  using redis_server.velocityLua_window [OF redis_server.intro [OF assms(1)] _ live, of "WindowSeconds cfg + 60" now]
    assms(2,3) by (simp add: CheckAndRecord_def run_def)

definition ex_window :: server where
  "ex_window = empty_server\<lparr>srv_zsets := [(velocityKey ''r'' ''t'', ''a'', 95), (velocityKey ''r'' ''t'', ''b'', 40)]\<rparr>"

definition ex_velocity :: velocity_config where
  "ex_velocity = \<lparr>MaxRequests = 1, WindowSeconds = 60, Key = ''tenant''\<rparr>"

theorem CheckAndRecord_window_witness:
  "\<exists>s'. CheckAndRecord (Some map_redis) CallOk 100 ''r'' ''t'' ''c'' ex_velocity ex_window = (Inr (True, 2), s')"
proof -
  have score: "rZSCORE map_redis ex_window (velocityKey ''r'' ''t'') m =
      (if m = ''a'' then Some 95 else if m = ''b'' then Some 40 else None)" for m
    by (simp add: map_redis_def ex_window_def field_of_def)
  have live: "insert ''c'' {m. \<exists>t. rZSCORE map_redis ex_window (velocityKey ''r'' ''t'') m = Some t \<and>
      100 - WindowSeconds ex_velocity < t} = {''c'', ''a''}"
    by (auto simp: score ex_velocity_def split: if_splits)
  show ?thesis
    using CheckAndRecord_window [of map_redis server_view ex_velocity "{''c'', ''a''}" "''c''" ex_window "''r''" "''t''" 100]
      map_redis_laws live by (auto simp: ex_velocity_def)
qed


definition ex_env :: "int \<Rightarrow> server velocity_env" where
  "ex_env limit =
     \<lparr>ve_checker = Some map_redis, ve_limit = limit, ve_now = 100, ve_failMode = [],
      ve_anon = (\<lambda>_. ''x''), ve_call = (\<lambda>_. CallOk)\<rparr>"


text \<open>A server that cannot be reached never lets a limited request through by default.\<close>

lemma velocityStep_unreachable:
  assumes "ve_checker env \<noteq> None" "ve_call env n \<noteq> CallOk" "ResolveKey (Some v) i \<noteq> []"
    "ToLower (TrimSpace (ve_failMode env)) \<noteq> ''open''"
  shows "fst (velocityStep env dry jobID i n ruleID v s) = VUnavailable"
  using assms
  by (cases "ve_call env n") (auto simp: velocityStep_def CheckOnly_def CheckAndRecord_def run_def Let_def)

text \<open>
  With a licence limit of zero the kernel counts no velocity rule and takes the plain path, where
  the velocity block is ignored: the rule fires on the first request. The velocity-aware
  walk would have passed over it.
\<close>

lemma velocity_limit_zero_fires:
  fixes v :: velocity_config
  assumes "p_Rules p = [r]" "r_Velocity r = Some v" "matchRule (r_Match r) i" "ve_limit env = 0"
  shows "effectiveVelocityRuleCount (Some p) 0 = 0" "Evaluate p i = BuildDecision r"
    "fst (evaluateRulesWithVelocity env p i jobID method s) = DefaultPolicyDecision p"
  using assms
  by (simp_all add: effectiveVelocityRuleCount_def Evaluate_def evaluateRulesWithVelocity_def EffectiveRules_def Unlimited_def)

end
