(* ===== verification/Safety_Kernel.thy ===== *)
theory Safety_Kernel
  imports Input_Policy Velocity
begin

text \<open>
  The decision procedure of the safety kernel, \<open>server.evaluate\<close> of
  \<open>core/controlplane/safetykernel/kernel.go\<close>, with the decision cache, the installation of a
  policy and the helpers around them. A request and a response are the protobuf messages the
  code reads and builds, as records of the fields it uses. Collaborators that are plugged into
  the server (identity normaliser, tag derivers, agent store, action gates) and the libraries
  (protobuf encoding, SHA-256, JSON) are the functions of \<open>kernel_env\<close>.
\<close>

section \<open>Messages\<close>

datatype actor_type = ActorUnspecified | ActorHuman | ActorService

record job_meta =
  mt_TenantId :: string
  mt_ActorId :: string
  mt_ActorType :: actor_type
  mt_IdempotencyKey :: string
  mt_Capability :: string
  mt_RiskTags :: "string list"
  mt_Requires :: "string list"
  mt_PackId :: string

record resource_ref =
  rf_Sha256 :: string
  rf_SizeBytes :: int
  rf_MediaType :: string
  rf_ExpiresAt :: "int option"

record policy_check_request =
  rq_JobId :: string
  rq_Topic :: string
  rq_Tenant :: string
  rq_PrincipalId :: string
  rq_Labels :: "string gomap"
  rq_Meta :: "job_meta option"
  rq_Identity :: "string option"
  rq_EffectiveConfig :: string
  rq_InputContent :: string
  rq_InputContentType :: string
  rq_InputSizeBytes :: int
  rq_InputRef :: "resource_ref option"

datatype decision_type =
  DecisionUnspecified | DecisionAllow | DecisionDeny | DecisionRequireHuman | DecisionThrottle
  | DecisionAllowWithConstraints

record policy_check_response =
  rs_Decision :: decision_type
  rs_Reason :: string
  rs_PolicySnapshot :: string
  rs_RuleId :: string
  rs_Constraints :: "policy_constraints option"
  rs_ApprovalRequired :: bool
  rs_ApprovalRef :: string
  rs_Remediations :: "policy_remediation list"

definition deny_response :: "string \<Rightarrow> policy_check_response" where
  "deny_response reason =
     \<lparr>rs_Decision = DecisionDeny, rs_Reason = reason, rs_PolicySnapshot = [], rs_RuleId = [], rs_Constraints = None,
      rs_ApprovalRequired = False, rs_ApprovalRef = [], rs_Remediations = []\<rparr>"

record gate_decision =
  gd_Decision :: decision_type
  gd_Reason :: string
  gd_GateID :: string

record agent_identity =
  ai_TenantID :: string
  ai_Name :: string
  ai_Team :: string
  ai_RiskTier :: string
  ai_DataClassifications :: "string list"

record safety_config =
  sc_AllowedTopics :: "string list"
  sc_DeniedTopics :: "string list"
  sc_MCP :: mcp_policy

section \<open>The server\<close>

record cache_entry =
  ce_resp :: policy_check_response
  ce_expires :: int
  ce_policyVersion :: "64 word"

record agent_cache_entry =
  ae_identity :: agent_identity
  ae_expires :: int

record kernel =
  k_policy :: "safety_policy option"
  k_global :: "global_policy option"
  k_inputRules :: "compiled_input_rule list"
  k_requireHumanThreshold :: require_human_threshold
  k_snapshot :: string
  k_snapshots :: "string list"
  k_policyVersion :: "64 word"
  k_cacheTTL :: int
  k_cacheMaxSize :: int
  k_cache :: "cache_entry gomap"
  k_agentCache :: "agent_cache_entry gomap"
  k_agentCacheTTL :: int

record 's kernel_env =
  ke_normalizeIdentity :: "policy_check_request \<Rightarrow> policy_check_request option"
  ke_now :: int
  ke_delegationEnabled :: bool
  ke_velocity :: "'s velocity_env"
  ke_deriver :: "(string \<Rightarrow> string gomap \<Rightarrow> string \<Rightarrow> string list option) option"
  ke_agentStore :: "(string \<Rightarrow> agent_identity option) option"
  ke_extractor :: "(policy_check_request \<Rightarrow> action_descriptor option) option"
  ke_pipeline :: "(policy_input \<Rightarrow> gate_decision option) option"
  ke_scanners :: "scanner gomap"
  ke_unmarshal :: "string \<Rightarrow> string + goany gomap"
  ke_rawObject :: "string \<Rightarrow> string gomap option"
  ke_safetyConfig :: "string \<Rightarrow> safety_config option"
  ke_marshal :: "policy_check_request \<Rightarrow> string option"
  ke_sha256 :: "string \<Rightarrow> string"

section \<open>Requests\<close>

definition actorTypeString :: "actor_type \<Rightarrow> string" where
  "actorTypeString t = (case t of ActorHuman \<Rightarrow> ''human'' | ActorService \<Rightarrow> ''service'' | ActorUnspecified \<Rightarrow> [])"

definition policyMetaFromRequest :: "policy_check_request \<Rightarrow> policy_meta" where
  "policyMetaFromRequest req =
     (case rq_Meta req of
        None \<Rightarrow> no_meta\<lparr>m_ActorID := (case rq_Identity req of Some a \<Rightarrow> a | None \<Rightarrow> rq_PrincipalId req)\<rparr>
      | Some m \<Rightarrow>
          no_meta\<lparr>m_ActorID := (case rq_Identity req of
                                  Some a \<Rightarrow> a
                                | None \<Rightarrow> if mt_ActorId m = [] then rq_PrincipalId req else mt_ActorId m),
                  m_ActorType := actorTypeString (mt_ActorType m),
                  m_IdempotencyKey := mt_IdempotencyKey m, m_Capability := mt_Capability m,
                  m_RiskTags := mt_RiskTags m, m_Requires := mt_Requires m, m_PackID := mt_PackId m\<rparr>)"

definition secretsPresent :: "policy_meta \<Rightarrow> string gomap \<Rightarrow> bool" where
  "secretsPresent meta labels =
     (let v = TrimSpace (mget labels ''secrets_present'') in
      if v \<noteq> [] then v = ''true'' \<or> v = ''1'' \<or> EqualFold v ''yes''
      else list_ex (\<lambda>tag. EqualFold tag ''secrets'') (m_RiskTags meta))"

definition delegationContextFromRequest :: "bool \<Rightarrow> policy_check_request \<Rightarrow> delegation_context option" where
  "delegationContextFromRequest enabled req = (if enabled then DelegationContextFromLabels (rq_Labels req) else None)"

definition isConstraintsEmpty :: "policy_constraints \<Rightarrow> bool" where
  "isConstraintsEmpty c \<longleftrightarrow>
     MaxRuntimeMs (Budgets c) = 0 \<and> MaxRetries (Budgets c) = 0 \<and> MaxArtifactBytes (Budgets c) = 0 \<and>
     MaxConcurrentJobs (Budgets c) = 0 \<and> \<not> Isolated (Sandbox c) \<and> NetworkAllowlist (Sandbox c) = [] \<and>
     FsReadOnly (Sandbox c) = [] \<and> FsReadWrite (Sandbox c) = [] \<and> AllowedTools (Toolchain c) = [] \<and>
     AllowedCommands (Toolchain c) = [] \<and> MaxFiles (Diff c) = 0 \<and> MaxLines (Diff c) = 0 \<and>
     DenyPathGlobs (Diff c) = [] \<and> TrimSpace (RedactionLevel c) = []"

definition toProtoConstraints :: "policy_constraints \<Rightarrow> policy_constraints option" where
  "toProtoConstraints c = (if isConstraintsEmpty c then None else Some c)"

definition LabelActionDescriptorJSON :: string where "LabelActionDescriptorJSON = ''_action.descriptor_json''"

definition requestHasActionDescriptorLabel :: "policy_check_request \<Rightarrow> bool" where
  "requestHasActionDescriptorLabel req \<longleftrightarrow> map_of (rq_Labels req) LabelActionDescriptorJSON \<noteq> None"

definition requestHasAgentID :: "policy_check_request \<Rightarrow> bool" where
  "requestHasAgentID req \<longleftrightarrow> TrimSpace (mget (rq_Labels req) ''agent_id'') \<noteq> []"

section \<open>The decision cache\<close>

definition referencedInputVerified :: "(string \<Rightarrow> string) \<Rightarrow> policy_check_request \<Rightarrow> int \<Rightarrow> bool" where
  "referencedInputVerified sha256 req now =
     (case rq_InputRef req of
        None \<Rightarrow> False
      | Some ref \<Rightarrow>
          (let content = rq_InputContent req in
           if content = [] \<or> length (rf_Sha256 ref) \<noteq> 32 then False
           else if rf_SizeBytes ref \<noteq> int (length content) \<or> rq_InputSizeBytes req \<noteq> int (length content) then False
           else if TrimSpace (rf_MediaType ref) \<noteq> TrimSpace (rq_InputContentType req) then False
           else case rf_ExpiresAt ref of
               None \<Rightarrow> False
             | Some e \<Rightarrow> now < e \<and> sha256 content = rf_Sha256 ref))"

definition decisionCacheContentVerified ::
    "(string \<Rightarrow> string) \<Rightarrow> policy_check_request \<Rightarrow> int \<Rightarrow> bool \<Rightarrow> bool" where
  "decisionCacheContentVerified sha256 req now contentSensitive =
     (if rq_InputRef req \<noteq> None \<and> \<not> referencedInputVerified sha256 req now then False
      else if \<not> contentSensitive then True
      else let content = (if rq_InputContent req = [] then mget (rq_Labels req) ''_content.prompt'' else rq_InputContent req)
           in if content = [] then False
              else rq_InputSizeBytes req = 0 \<or> rq_InputSizeBytes req = int (length content))"

definition cacheKeyForRequest ::
    "(policy_check_request \<Rightarrow> string option) \<Rightarrow> (string \<Rightarrow> string) \<Rightarrow> policy_check_request \<Rightarrow> string \<Rightarrow> string" where
  "cacheKeyForRequest marshal sha256 req snapshot =
     (case marshal req of None \<Rightarrow> [] | Some data \<Rightarrow> snapshot @ '':'' @ hexEncode (sha256 data))"

definition getCachedDecision :: "kernel \<Rightarrow> int \<Rightarrow> string \<Rightarrow> policy_check_response option \<times> kernel" where
  "getCachedDecision k now key =
     (case map_of (k_cache k) key of
        None \<Rightarrow> (None, k)
      | Some e \<Rightarrow>
          if ce_policyVersion e \<noteq> k_policyVersion k then (None, k\<lparr>k_cache := mdel key (k_cache k)\<rparr>)
          else if now > ce_expires e then (None, k\<lparr>k_cache := mdel key (k_cache k)\<rparr>)
          else (Some (ce_resp e), k))"

fun oldestEntry :: "cache_entry gomap \<Rightarrow> (string \<times> int) option \<Rightarrow> (string \<times> int) option" where
  "oldestEntry [] best = best"
| "oldestEntry ((k, e) # m) best =
     oldestEntry m
       (case best of None \<Rightarrow> Some (k, ce_expires e)
        | Some (_, x) \<Rightarrow> if ce_expires e < x then Some (k, ce_expires e) else best)"

lemma oldestEntry_key:
  "oldestEntry m best = Some (k, x) \<Longrightarrow> k \<in> keys m \<or> (\<exists>y. best = Some (k, y))"
  by (induction m best rule: oldestEntry.induct) (auto split: option.splits if_splits)

lemma length_mdel: "k \<in> keys m \<Longrightarrow> length (mdel k m) < length m"
  by (induction m) (auto simp: mdel_def le_imp_less_Suc)

function evictOldest :: "int \<Rightarrow> cache_entry gomap \<Rightarrow> cache_entry gomap" where
  "evictOldest maxSize m =
     (if int (length m) \<ge> maxSize
      then (case oldestEntry m None of None \<Rightarrow> m | Some (key, _) \<Rightarrow> evictOldest maxSize (mdel key m))
      else m)"
  by pat_completeness auto
termination
  using oldestEntry_key length_mdel
  by (relation "measure (\<lambda>(_, m). length m)") (auto, fastforce)

declare evictOldest.simps [simp del]

definition setCachedDecision :: "kernel \<Rightarrow> int \<Rightarrow> string \<Rightarrow> policy_check_response \<Rightarrow> kernel" where
  "setCachedDecision k now key resp =
     (if key = [] \<or> k_cacheTTL k \<le> 0 then k
      else let cache = (if k_cacheMaxSize k > 0 \<and> int (length (k_cache k)) \<ge> k_cacheMaxSize k
                        then evictOldest (k_cacheMaxSize k) (filter (\<lambda>(_, e). \<not> now > ce_expires e) (k_cache k))
                        else k_cache k)
           in k\<lparr>k_cache := mput key \<lparr>ce_resp = resp, ce_expires = now + k_cacheTTL k,
                                      ce_policyVersion = k_policyVersion k\<rparr> cache\<rparr>)"

section \<open>Installing a policy\<close>

definition snapshotHistoryMax :: nat where "snapshotHistoryMax = 10"

definition setPolicyWithInvariants ::
    "(string \<Rightarrow> (string \<Rightarrow> bool) option) \<Rightarrow> kernel \<Rightarrow> safety_policy option \<Rightarrow> safety_policy option \<Rightarrow> string \<Rightarrow> kernel" where
  "setPolicyWithInvariants rx k policy invariants snapshot =
     (let combined = applyKernelInvariants policy invariants;
          invariantRules = (case invariants of None \<Rightarrow> [] | Some v \<Rightarrow> p_Rules v);
          invariantOutputRules = (case invariants of None \<Rightarrow> [] | Some v \<Rightarrow> p_OutputRules v)
      in k\<lparr>k_policyVersion := k_policyVersion k + 1,
           k_policy := combined,
           k_global := Some (FromSafetyPolicy policy invariantRules invariantOutputRules snapshot []),
           k_inputRules := compileInputRules rx combined,
           k_requireHumanThreshold := (case combined of None \<Rightarrow> no_threshold | Some p \<Rightarrow> p_RequireHuman p),
           k_snapshot := snapshot,
           k_snapshots := (if snapshot \<noteq> [] then take snapshotHistoryMax (snapshot # k_snapshots k) else k_snapshots k),
           k_cache := []\<rparr>)"

section \<open>Agent context\<close>

definition agentCacheKey :: "string \<Rightarrow> string \<Rightarrow> string" where
  "agentCacheKey tenant agentID = tenant @ CHR 0x00 # agentID"

definition getAgentFromCache :: "kernel \<Rightarrow> int \<Rightarrow> string \<Rightarrow> agent_identity option \<times> kernel" where
  "getAgentFromCache k now key =
     (case map_of (k_agentCache k) key of
        None \<Rightarrow> (None, k\<lparr>k_agentCache := mdel key (k_agentCache k)\<rparr>)
      | Some e \<Rightarrow>
          if now > ae_expires e then (None, k\<lparr>k_agentCache := mdel key (k_agentCache k)\<rparr>)
          else (Some (ae_identity e), k))"

definition defaultAgentCacheTTL :: int where "defaultAgentCacheTTL = 30000000000"

definition putAgentInCache :: "kernel \<Rightarrow> int \<Rightarrow> string \<Rightarrow> agent_identity \<Rightarrow> kernel" where
  "putAgentInCache k now key a =
     k\<lparr>k_agentCache := mput key
        \<lparr>ae_identity = a, ae_expires = now + (if k_agentCacheTTL k = 0 then defaultAgentCacheTTL else k_agentCacheTTL k)\<rparr>
        (k_agentCache k)\<rparr>"

definition with_agent :: "agent_identity \<Rightarrow> policy_input \<Rightarrow> policy_input" where
  "with_agent a i =
     i\<lparr>i_Meta := (i_Meta i)\<lparr>m_AgentRiskTier := ai_RiskTier a,
                          m_AgentDataClassifications := ai_DataClassifications a,
                          m_AgentName := ai_Name a, m_AgentTeam := ai_Team a\<rparr>\<rparr>"

definition enrichAgentContext ::
    "(string \<Rightarrow> agent_identity option) option \<Rightarrow> int \<Rightarrow> kernel \<Rightarrow> string \<Rightarrow> string gomap \<Rightarrow> policy_input \<Rightarrow>
     policy_input \<times> kernel" where
  "enrichAgentContext agentStore now k tenant0 labels i0 =
     (case agentStore of
        None \<Rightarrow> (i0, k)
      | Some get \<Rightarrow>
          (let agentID = TrimSpace (mget labels ''agent_id'');
               tenant = TrimSpace tenant0;
               i = i0\<lparr>i_Meta := (i_Meta i0)\<lparr>m_AgentID := agentID\<rparr>\<rparr>;
               key = agentCacheKey tenant agentID
           in if labels = [] \<or> agentID = [] then (i0, k)
              else if tenant = [] then (i, k)
              else case getAgentFromCache k now key of
                  (Some a, k1) \<Rightarrow> (with_agent a i, k1)
                | (None, k1) \<Rightarrow>
                    (case get agentID of
                       None \<Rightarrow> (i, k1)
                     | Some a \<Rightarrow>
                         if TrimSpace (ai_TenantID a) \<noteq> tenant then (i, k1)
                         else (with_agent a i, putAgentInCache k1 now key a))))"

section \<open>Effective configuration\<close>

definition ParseEffectiveSafety ::
    "(string \<Rightarrow> string gomap option) \<Rightarrow> (string \<Rightarrow> safety_config option) \<Rightarrow> string \<Rightarrow> safety_config option" where
  "ParseEffectiveSafety rawObject safetyConfig payload =
     (let section_of = (\<lambda>obj. case map_of obj ''safety'' of
                                None \<Rightarrow> None
                              | Some raw \<Rightarrow> if raw = [] then None else safetyConfig raw)
      in if payload = [] then None
         else case rawObject payload of
             None \<Rightarrow> None
           | Some obj \<Rightarrow>
               (case section_of obj of
                  Some cfg \<Rightarrow> Some cfg
                | None \<Rightarrow>
                    (case map_of obj ''data'' of
                       None \<Rightarrow> None
                     | Some raw \<Rightarrow>
                         if raw = [] then None
                         else case rawObject raw of None \<Rightarrow> None | Some nested \<Rightarrow> section_of nested)))"

type_synonym verdict_reason = "decision_type \<times> string"

definition restrictByEffective :: "safety_config option \<Rightarrow> string \<Rightarrow> mcp_request \<Rightarrow> verdict_reason \<Rightarrow> verdict_reason" where
  "restrictByEffective effo topic mcp d0 =
     (case effo of
        None \<Rightarrow> d0
      | Some eff \<Rightarrow>
          (let d1 = (if matchAny (sc_DeniedTopics eff) topic
                     then (DecisionDeny, ''topic '' @ CHR 0x27 # topic @ CHR 0x27 # '' denied by effective config'') else d0);
               d2 = (if sc_AllowedTopics eff \<noteq> [] \<and> \<not> matchAny (sc_AllowedTopics eff) topic
                     then (DecisionDeny, ''topic '' @ CHR 0x27 # topic @ CHR 0x27 # '' not allowed by effective config'') else d1)
           in if \<not> fst (MCPAllowed (sc_MCP eff) mcp) then (DecisionDeny, snd (MCPAllowed (sc_MCP eff) mcp)) else d2))"

section \<open>Stages of an evaluation\<close>

definition decisionOf :: "policy_decision \<Rightarrow> verdict_reason" where
  "decisionOf pd =
     (let d = d_Decision pd in
      if d = ''deny'' then (DecisionDeny, d_Reason pd)
      else if d = ''require_approval'' then (DecisionRequireHuman, d_Reason pd)
      else if d = ''throttle'' then (DecisionThrottle, d_Reason pd)
      else if d = ''allow_with_constraints'' then (DecisionAllowWithConstraints, [])
      else if d = ''allow''
      then (if toProtoConstraints (d_Constraints pd) \<noteq> None then DecisionAllowWithConstraints else DecisionAllow, [])
      else (DecisionDeny, ''internal: unknown policy decision string: '' @ d))"

definition tenantMCP :: "safety_policy \<Rightarrow> string \<Rightarrow> mcp_request \<Rightarrow> policy_decision \<Rightarrow> policy_decision" where
  "tenantMCP p tenant mcp pd =
     (case map_of (p_Tenants p) tenant of
        None \<Rightarrow> pd
      | Some tp \<Rightarrow>
          if fst (MCPAllowed (tp_MCP tp) mcp) then pd
          else pd\<lparr>d_Decision := ''deny'', d_Reason := snd (MCPAllowed (tp_MCP tp) mcp)\<rparr>)"

record input_verdict =
  iv_Decision :: decision_type
  iv_Reason :: string
  iv_RuleID :: string
  iv_RuleTier :: string

definition applyInputRule ::
    "action_descriptor option \<Rightarrow> require_human_threshold \<Rightarrow> compiled_input_rule \<Rightarrow> output_finding list \<Rightarrow>
     input_verdict \<Rightarrow> input_verdict" where
  "applyInputRule action threshold r findings v =
     (let hit = (\<lambda>d. \<lparr>iv_Decision = d, iv_Reason = inputRuleReason r findings, iv_RuleID = c_id r, iv_RuleTier = c_tier r\<rparr>)
      in if c_decision r = ''deny''
         then (if shouldDowngradeDenyToRequireHuman r findings action threshold
               then hit DecisionRequireHuman else hit DecisionDeny)
         else if c_decision r \<in> {''require_approval'', ''require-approval'', ''require_human''}
         then hit DecisionRequireHuman
         else v)"

text \<open>The loop over the input rules: the first match is applied and ends it.\<close>

fun inputRuleLoop ::
    "(string \<Rightarrow> string + goany gomap) \<Rightarrow> scanner gomap \<Rightarrow> action_descriptor option \<Rightarrow> require_human_threshold \<Rightarrow>
     input_verdict \<Rightarrow> compiled_input_rule list \<Rightarrow> input_evaluate_request \<Rightarrow> input_verdict" where
  "inputRuleLoop unmarshal scanners action threshold v [] q = v"
| "inputRuleLoop unmarshal scanners action threshold v (r # rs) q =
     (case evaluateInputRule unmarshal r q scanners of
        (matched, findings) \<Rightarrow>
          if matched then applyInputRule action threshold r findings v
          else inputRuleLoop unmarshal scanners action threshold v rs q)"

definition runsInputRules :: "decision_type \<Rightarrow> bool" where
  "runsInputRules d \<longleftrightarrow> d \<in> {DecisionAllow, DecisionAllowWithConstraints, DecisionThrottle}"

definition actionGateResponse :: "gate_decision \<Rightarrow> string \<Rightarrow> policy_check_response" where
  "actionGateResponse dec snapshot =
     (deny_response [])\<lparr>rs_Decision := gd_Decision dec, rs_Reason := gd_Reason dec, rs_RuleId := gd_GateID dec,
        rs_PolicySnapshot := snapshot, rs_ApprovalRequired := (gd_Decision dec = DecisionRequireHuman)\<rparr>"

text \<open>The tenant of a request, and the input the policy is evaluated on, with derived tags.\<close>

definition requestTenant :: "kernel \<Rightarrow> policy_check_request \<Rightarrow> string" where
  "requestTenant k req =
     (let t0 = TrimSpace (rq_Tenant req);
          t1 = (if t0 = [] then (case rq_Meta req of None \<Rightarrow> [] | Some m \<Rightarrow> TrimSpace (mt_TenantId m)) else t0);
          t2 = (if t1 = [] then (case k_policy k of None \<Rightarrow> [] | Some p \<Rightarrow> TrimSpace (p_DefaultTenant p)) else t1)
      in if t2 = [] then ''default'' else t2)"

definition derivedTags :: "'s kernel_env \<Rightarrow> string \<Rightarrow> policy_check_request \<Rightarrow> string list option" where
  "derivedTags env topic req =
     (case ke_deriver env of None \<Rightarrow> None | Some derive \<Rightarrow> derive topic (rq_Labels req) (rq_InputContent req))"

definition kernelInput :: "'s kernel_env \<Rightarrow> string \<Rightarrow> string \<Rightarrow> policy_check_request \<Rightarrow> policy_input" where
  "kernelInput env tenant topic req =
     (let meta0 = policyMetaFromRequest req;
          meta = (case derivedTags env topic req of None \<Rightarrow> meta0 | Some tags \<Rightarrow> meta0\<lparr>m_RiskTags := tags\<rparr>)
      in \<lparr>i_Tenant = tenant, i_Topic = topic, i_Labels = rq_Labels req, i_Meta = meta,
          i_SecretsPresent = secretsPresent meta (rq_Labels req),
          i_MCP = extractMCPRequest (rq_Labels req),
          i_Delegation = delegationContextFromRequest (ke_delegationEnabled env) req, i_Action = None\<rparr>)"

definition inputRequest ::
    "'s kernel_env \<Rightarrow> string \<Rightarrow> string \<Rightarrow> policy_check_request \<Rightarrow> input_evaluate_request" where
  "inputRequest env tenant topic req =
     \<lparr>q_tenant = tenant, q_topic = topic,
      q_capabilities = (case rq_Meta req of None \<Rightarrow> [] | Some m \<Rightarrow> [mt_Capability m]),
      q_riskTags = (case rq_Meta req of
                      None \<Rightarrow> []
                    | Some m \<Rightarrow> (case derivedTags env topic req of None \<Rightarrow> mt_RiskTags m | Some tags \<Rightarrow> tags)),
      q_contentType = rq_InputContentType req,
      q_content = (if rq_InputContent req = [] then mget (rq_Labels req) ''_content.prompt'' else rq_InputContent req),
      q_inputSize = rq_InputSizeBytes req\<rparr>"

section \<open>Evaluation\<close>

text \<open>Everything after the rules: tenant and effective restrictions, input rules, the response.\<close>

definition finishEvaluation ::
    "'s kernel_env \<Rightarrow> kernel \<Rightarrow> policy_check_request \<Rightarrow> safety_policy \<Rightarrow> compiled_input_rule list \<Rightarrow> policy_input \<Rightarrow>
     policy_decision \<Rightarrow> policy_check_response" where
  "finishEvaluation env k req p inputRules i pd0 =
     (let pd = tenantMCP p (i_Tenant i) (i_MCP i) pd0;
          (d, reason) = restrictByEffective
             (ParseEffectiveSafety (ke_rawObject env) (ke_safetyConfig env) (rq_EffectiveConfig req))
             (i_Topic i) (i_MCP i) (decisionOf pd);
          v0 = \<lparr>iv_Decision = d, iv_Reason = reason, iv_RuleID = d_RuleID pd, iv_RuleTier = d_RuleTier pd\<rparr>;
          v = (if inputRules \<noteq> [] \<and> runsInputRules d
               then inputRuleLoop (ke_unmarshal env) (ke_scanners env) (i_Action i) (k_requireHumanThreshold k) v0
                      inputRules (inputRequest env (i_Tenant i) (i_Topic i) req)
               else v0);
          approvalRequired = (d_ApprovalRequired pd \<or> iv_Decision v = DecisionRequireHuman)
      in \<lparr>rs_Decision = iv_Decision v, rs_Reason = iv_Reason v, rs_PolicySnapshot = k_snapshot k,
          rs_RuleId = iv_RuleID v, rs_Constraints = toProtoConstraints (d_Constraints pd),
          rs_ApprovalRequired = approvalRequired, rs_ApprovalRef = (if approvalRequired then rq_JobId req else []),
          rs_Remediations = d_Remediations pd\<rparr>)"

text \<open>
  The path without a cached decision. The flag says whether the response may be cached: the
  early returns are not. The scoped policy is absent exactly when no policy is loaded.
\<close>

definition evaluateUncached ::
    "'s kernel_env \<Rightarrow> kernel \<Rightarrow> policy_check_request \<Rightarrow> string \<Rightarrow> safety_policy option \<Rightarrow> compiled_input_rule list \<Rightarrow>
     bool \<Rightarrow> 's \<Rightarrow> policy_check_response \<times> bool \<times> kernel \<times> 's" where
  "evaluateUncached env k req method evalPolicy inputRules hasVelocity s =
     (let topic = TrimSpace (rq_Topic req); tenant = requestTenant k req in
      case evalPolicy of
        None \<Rightarrow>
          ((deny_response (''no policy loaded '' @ em_dash @ '' fail-closed''))\<lparr>rs_PolicySnapshot := k_snapshot k\<rparr>, False, k, s)
      | Some p \<Rightarrow>
          if topic = [] then (deny_response ''missing topic'', False, k, s)
          else if \<not> HasPrefix topic ''job.'' then (deny_response ''unsupported topic'', False, k, s)
          else case enrichAgentContext (ke_agentStore env) (ke_now env) k tenant (rq_Labels req)
                      (kernelInput env tenant topic req) of
              (i1, k1) \<Rightarrow>
                (let action = (case ke_extractor env of None \<Rightarrow> None | Some extract \<Rightarrow> extract req);
                     i = i1\<lparr>i_Action := action\<rparr>;
                     gate = (case (ke_pipeline env, action) of (Some runGates, Some _) \<Rightarrow> runGates i | _ \<Rightarrow> None)
                 in case gate of
                      Some dec \<Rightarrow> (actionGateResponse dec (k_snapshot k), False, k1, s)
                    | None \<Rightarrow>
                        (case (if hasVelocity
                               then evaluateRulesWithVelocity (ke_velocity env) p i (rq_JobId req) method s
                               else (Evaluate p i, s)) of
                           (pd, s1) \<Rightarrow> (finishEvaluation env k1 req p inputRules i pd, True, k1, s1))))"

definition evaluate ::
    "'s kernel_env \<Rightarrow> kernel \<Rightarrow> policy_check_request \<Rightarrow> string \<Rightarrow> 's \<Rightarrow> policy_check_response \<times> kernel \<times> 's" where
  "evaluate env k req0 method s =
     (case (if rq_Identity req0 = None then Some req0 else ke_normalizeIdentity env req0) of
        None \<Rightarrow> (deny_response ''identity validation failed'', k, s)
      | Some req \<Rightarrow>
          (let (workflowID, scopedJobID) = resolvePolicyScope (rq_Labels req) (rq_JobId req);
               evalPolicy = scopedPolicyForRequest (k_policy k) (k_global k) workflowID scopedJobID
                              (TrimSpace (rq_Topic req)) (rq_Labels req);
               inputRules = selectInputRulesForScope (k_inputRules k) workflowID scopedJobID;
               hasVelocity = effectiveVelocityRuleCount evalPolicy (ve_limit (ke_velocity env)) > 0;
               cacheKey =
                 (if k_cacheTTL k > 0 \<and> \<not> hasVelocity \<and> \<not> requestHasActionDescriptorLabel req \<and>
                     \<not> (ke_agentStore env \<noteq> None \<and> requestHasAgentID req) \<and>
                     decisionCacheContentVerified (ke_sha256 env) req (ke_now env) (inputRules \<noteq> [])
                  then cacheKeyForRequest (ke_marshal env) (ke_sha256 env) req (k_snapshot k) else [])
           in case (if cacheKey = [] then (None, k) else getCachedDecision k (ke_now env) cacheKey) of
                (Some cached, k1) \<Rightarrow>
                  (cached\<lparr>rs_ApprovalRef := (if rs_ApprovalRequired cached then rq_JobId req else rs_ApprovalRef cached),
                          rs_PolicySnapshot := k_snapshot k\<rparr>, k1, s)
              | (None, k1) \<Rightarrow>
                  (case evaluateUncached env k1 req method evalPolicy inputRules hasVelocity s of
                     (resp, cacheable, k2, s2) \<Rightarrow>
                       (resp,
                        if cacheable \<and> cacheKey \<noteq> []
                        then setCachedDecision k2 (ke_now env) cacheKey (resp\<lparr>rs_ApprovalRef := []\<rparr>) else k2,
                        s2))))"

section \<open>Later stages only restrict\<close>

fun decision_rank :: "decision_type \<Rightarrow> nat" where
  "decision_rank DecisionUnspecified = 0"
| "decision_rank DecisionAllow = 1"
| "decision_rank DecisionAllowWithConstraints = 2"
| "decision_rank DecisionThrottle = 3"
| "decision_rank DecisionRequireHuman = 4"
| "decision_rank DecisionDeny = 5"

lemma decision_rank_le [simp]: "decision_rank d \<le> 5"
  by (cases d) simp_all

lemma restrictByEffective_rank:
  "decision_rank (fst d) \<le> decision_rank (fst (restrictByEffective eff topic mcp d))"
  by (simp add: restrictByEffective_def Let_def split: option.split)

interpretation ir: first_match
    "\<lambda>r q. fst (evaluateInputRule unmarshal r q scanners)"
    "\<lambda>r q. applyInputRule action threshold r (snd (evaluateInputRule unmarshal r q scanners)) v"
    "\<lambda>q. v" "inputRuleLoop unmarshal scanners action threshold v" for unmarshal scanners action threshold v
  by unfold_locales (simp_all split: prod.split)

lemma applyInputRule_rank:
  "runsInputRules (iv_Decision v) \<Longrightarrow> decision_rank (iv_Decision v) \<le> decision_rank (iv_Decision (applyInputRule a t r fs v))"
  by (auto simp: applyInputRule_def runsInputRules_def Let_def)

lemma inputRuleLoop_rank:
  assumes "runsInputRules (iv_Decision v)"
  shows "decision_rank (iv_Decision v) \<le> decision_rank (iv_Decision (inputRuleLoop unmarshal scanners a t v rs q))"
  by (rule ir.walk_cases [of rs unmarshal q scanners a t v]) (simp_all add: applyInputRule_rank assms)

lemma finishEvaluation_rank:
  "decision_rank (fst (decisionOf (tenantMCP p (i_Tenant i) (i_MCP i) pd))) \<le>
   decision_rank (rs_Decision (finishEvaluation env k req p rules i pd))"
proof -
  let ?d0 = "decisionOf (tenantMCP p (i_Tenant i) (i_MCP i) pd)"
  let ?eff = "ParseEffectiveSafety (ke_rawObject env) (ke_safetyConfig env) (rq_EffectiveConfig req)"
  obtain d reason where d: "restrictByEffective ?eff (i_Topic i) (i_MCP i) ?d0 = (d, reason)" by fastforce
  have "decision_rank d \<le> decision_rank (rs_Decision (finishEvaluation env k req p rules i pd))"
    using inputRuleLoop_rank [of "\<lparr>iv_Decision = d, iv_Reason = reason, iv_RuleID = ri, iv_RuleTier = rt\<rparr>" for ri rt]
    by (simp add: finishEvaluation_def Let_def d)
  then show ?thesis
    using restrictByEffective_rank [of ?d0 ?eff "i_Topic i" "i_MCP i"] d by simp
qed

lemma tenantMCP_rank: "decision_rank (fst (decisionOf pd)) \<le> decision_rank (fst (decisionOf (tenantMCP p t q pd)))"
proof -
  have "decision_rank (fst (decisionOf (pd\<lparr>d_Decision := ''deny'', d_Reason := x\<rparr>))) = 5" for x
    by (simp add: decisionOf_def)
  then show ?thesis by (simp add: tenantMCP_def split: option.split)
qed

text \<open>
  C9. Whatever follows the policy rules only restricts: with decisions ordered allow,
  allow with constraints, throttle, require human, deny, the response is at least as strict
  as the decision of the rules. Tenant MCP lists, the effective configuration and the input
  scanners can escalate it and never soften it.
\<close>

theorem finishEvaluation_only_restricts:
  "decision_rank (fst (decisionOf pd)) \<le> decision_rank (rs_Decision (finishEvaluation env k req p rules i pd))"
  using tenantMCP_rank [of pd p "i_Tenant i" "i_MCP i"] finishEvaluation_rank [of p i pd env k req rules]
  by (rule le_trans)

section \<open>The floor in the kernel\<close>

definition restrictive :: "string \<Rightarrow> bool" where
  "restrictive d \<longleftrightarrow> d \<in> {''deny'', ''require_approval'', ''throttle''}"

lemma restrictive_rank: "restrictive (d_Decision pd) \<Longrightarrow> 3 \<le> decision_rank (fst (decisionOf pd))"
  by (auto simp: restrictive_def decisionOf_def)

lemma velocityLoop_floor:
  assumes "\<forall>r \<in> set floor. isGlobalInvariantDeny (r_Decision r)"
    "\<exists>r \<in> set floor. r_Velocity r = None \<and> matchRule (r_Match r) i"
  shows "restrictive (d_Decision (fst (velocityLoop env p i jobID dry n (floor @ rest) s)))"
  using assms
proof (induction floor arbitrary: n s)
  case (Cons r rs)
  have build: "restrictive (d_Decision (BuildDecision r))"
    using floor_decisions [of "r_Decision r"] Cons.prems(1) by (simp add: BuildDecision_def restrictive_def)
  have unavailable: "restrictive (d_Decision velocityUnavailable)"
    by (simp add: velocityUnavailable_def plain_decision_def restrictive_def)
  have skip: "restrictive (d_Decision (fst (velocityLoop env p i jobID dry m (rs @ rest) s')))"
    if "r_Velocity r \<noteq> None \<or> \<not> matchRule (r_Match r) i" for m s'
    using that Cons.prems by (intro Cons.IH) auto
  show ?case
  proof (cases "r_Velocity r")
    case None
    then show ?thesis using build skip by simp
  next
    case (Some v)
    then show ?thesis using build unavailable skip by (simp split: prod.split velocity_step.split)
  qed
qed simp

text \<open>The input a request is evaluated on.\<close>

definition evaluatedInput :: "'s kernel_env \<Rightarrow> kernel \<Rightarrow> policy_check_request \<Rightarrow> policy_input" where
  "evaluatedInput env k req =
     (fst (enrichAgentContext (ke_agentStore env) (ke_now env) k (requestTenant k req) (rq_Labels req)
             (kernelInput env (requestTenant k req) (TrimSpace (rq_Topic req)) req)))
       \<lparr>i_Action := (case ke_extractor env of None \<Rightarrow> None | Some extract \<Rightarrow> extract req)\<rparr>"

lemma evaluate_restrictive:
  assumes floor: "p_Rules p = floor @ rest" "\<forall>r \<in> set floor. isGlobalInvariantDeny (r_Decision r)"
    "\<exists>r \<in> set floor. r_Velocity r = None \<and> matchRule (r_Match r) i"
  shows "restrictive (d_Decision (Evaluate p i))"
    "restrictive (d_Decision (fst (evaluateRulesWithVelocity env p i jobID method s)))"
proof -
  have ex: "\<exists>r \<in> set floor. matchRule (r_Match r) i" using floor(3) by blast
  then have eff: "EffectiveRules p = floor @ rest" using floor(1) by (cases floor) (auto simp: EffectiveRules_def)
  obtain q where "q \<in> set floor" "evaluateRules p floor i = BuildDecision q" using ev.walk_decided [OF ex, of p] by blast
  then show "restrictive (d_Decision (Evaluate p i))"
    using ev.walk_prefix [OF ex, of p rest] floor_decisions [of "r_Decision q"] floor(2)
    by (simp add: Evaluate_EffectiveRules eff BuildDecision_def restrictive_def)
  show "restrictive (d_Decision (fst (evaluateRulesWithVelocity env p i jobID method s)))"
    unfolding evaluateRulesWithVelocity_def eff by (rule velocityLoop_floor [OF floor(2,3)])
qed

lemma evaluateUncached_rank:
  assumes "\<And>runGates i d. ke_pipeline env = Some runGates \<Longrightarrow> runGates i = Some d \<Longrightarrow> 3 \<le> decision_rank (gd_Decision d)"
    "restrictive (d_Decision (Evaluate p (evaluatedInput env k req)))"
    "\<And>s. restrictive (d_Decision (fst (evaluateRulesWithVelocity (ke_velocity env) p (evaluatedInput env k req) (rq_JobId req) method s)))"
  shows "3 \<le> decision_rank (rs_Decision (fst (evaluateUncached env k req method (Some p) rules hasVelocity s)))"
proof -
  let ?i = "evaluatedInput env k req"
  obtain i1 k1 where e: "enrichAgentContext (ke_agentStore env) (ke_now env) k (requestTenant k req) (rq_Labels req)
      (kernelInput env (requestTenant k req) (TrimSpace (rq_Topic req)) req) = (i1, k1)" by fastforce
  have i: "?i = i1\<lparr>i_Action := (case ke_extractor env of None \<Rightarrow> None | Some extract \<Rightarrow> extract req)\<rparr>"
    by (simp add: evaluatedInput_def e)
  have fin: "3 \<le> decision_rank (rs_Decision (finishEvaluation env k1 req p rules ?i pd))" if "restrictive (d_Decision pd)" for pd
    using restrictive_rank [OF that] tenantMCP_rank [of pd p "i_Tenant ?i" "i_MCP ?i"]
      finishEvaluation_rank [of p ?i pd env k1 req rules] by linarith
  obtain pdv sv where v: "evaluateRulesWithVelocity (ke_velocity env) p ?i (rq_JobId req) method s = (pdv, sv)" by fastforce
  then have finv: "3 \<le> decision_rank (rs_Decision (finishEvaluation env k1 req p rules ?i pdv))"
    using fin [of pdv] assms(3) [of s] by simp
  show ?thesis
    using assms(1) fin [OF assms(2)] finv
    by (auto simp: evaluateUncached_def Let_def e i [symmetric] v deny_response_def actionGateResponse_def
        split: option.split)
qed


definition ex_request :: policy_check_request where
  "ex_request =
     \<lparr>rq_JobId = ''j1'', rq_Topic = '' job.pay'', rq_Tenant = ''t'', rq_PrincipalId = [], rq_Labels = [],
      rq_Meta = None, rq_Identity = None, rq_EffectiveConfig = [], rq_InputContent = [],
      rq_InputContentType = [], rq_InputSizeBytes = 0, rq_InputRef = None\<rparr>"

definition ex_kernel_env :: "server kernel_env" where
  "ex_kernel_env =
     \<lparr>ke_normalizeIdentity = Some, ke_now = 0, ke_delegationEnabled = False, ke_velocity = ex_env 3,
      ke_deriver = None, ke_agentStore = None, ke_extractor = None, ke_pipeline = None, ke_scanners = [],
      ke_unmarshal = (\<lambda>_. Inl []), ke_rawObject = (\<lambda>_. None), ke_safetyConfig = (\<lambda>_. None),
      ke_marshal = (\<lambda>q. Some (rq_JobId q)), ke_sha256 = id\<rparr>"

definition ex_kernel0 :: kernel where
  "ex_kernel0 =
     \<lparr>k_policy = None, k_global = None, k_inputRules = [], k_requireHumanThreshold = no_threshold, k_snapshot = [],
      k_snapshots = [], k_policyVersion = 0, k_cacheTTL = 5, k_cacheMaxSize = 2, k_cache = [], k_agentCache = [],
      k_agentCacheTTL = 0\<rparr>"

definition ex_kernel :: kernel where
  "ex_kernel =
     setPolicyWithInvariants (\<lambda>_. None) ex_kernel0 (Some ex_doc) (Some (no_policy\<lparr>p_Rules := [ex_invariant]\<rparr>)) ''s1''"


section \<open>The cache\<close>

lemma evictOldest_bound: "0 < maxSize \<Longrightarrow> int (length (evictOldest maxSize m)) < maxSize \<or> evictOldest maxSize m = []"
proof (induction maxSize m rule: evictOldest.induct)
  case (1 maxSize m)
  show ?case
  proof (cases "int (length m) \<ge> maxSize")
    case False then show ?thesis by (simp add: evictOldest.simps)
  next
    case True
    have "oldestEntry m best \<noteq> None" if "m \<noteq> [] \<or> best \<noteq> None" for best
      using that by (induction m best rule: oldestEntry.induct) (auto split: option.split)
    then obtain key x where "oldestEntry m None = Some (key, x)" using True 1(2) by fastforce
    with 1 True show ?thesis by (simp add: evictOldest.simps [of maxSize m])
  qed
qed

lemma length_mput: "length (mput k v m) \<le> Suc (length m)"
  by (induction m) auto

text \<open>
  C10. The decision cache is bounded and fresh. Storing a decision in a cache of at most its
  maximum size leaves at most that many entries; installing a policy leaves none, so that no
  request is answered from a decision made under an earlier policy; and what a lookup returns
  was stored under the current policy version and has not expired.
\<close>

theorem decision_cache_bounded_and_fresh:
  assumes "0 < k_cacheMaxSize k" "int (length (k_cache k)) \<le> k_cacheMaxSize k"
  shows "int (length (k_cache (setCachedDecision k now key resp))) \<le> k_cacheMaxSize k \<and>
    fst (getCachedDecision (setPolicyWithInvariants rx k policy invariants snap) now' key') = None \<and>
    (\<forall>cached. fst (getCachedDecision k now' key') = Some cached \<longrightarrow>
       (\<exists>e. map_of (k_cache k) key' = Some e \<and> ce_resp e = cached \<and> ce_policyVersion e = k_policyVersion k \<and>
            now' \<le> ce_expires e))"
proof -
  define c where "c = (if k_cacheMaxSize k > 0 \<and> int (length (k_cache k)) \<ge> k_cacheMaxSize k
      then evictOldest (k_cacheMaxSize k) (filter (\<lambda>(_, e). \<not> now > ce_expires e) (k_cache k)) else k_cache k)"
  have "int (length c) < k_cacheMaxSize k"
    using evictOldest_bound [OF assms(1), of "filter (\<lambda>(_, e). \<not> now > ce_expires e) (k_cache k)"] assms(1)
    by (auto simp: c_def)
  then have bound: "int (length (mput key e c)) \<le> k_cacheMaxSize k" for e using length_mput [of key e c] by linarith
  have "k_cache (setCachedDecision k now key resp) =
      (if key = [] \<or> k_cacheTTL k \<le> 0 then k_cache k
       else mput key \<lparr>ce_resp = resp, ce_expires = now + k_cacheTTL k, ce_policyVersion = k_policyVersion k\<rparr> c)"
    by (simp add: setCachedDecision_def c_def Let_def)
  then have "int (length (k_cache (setCachedDecision k now key resp))) \<le> k_cacheMaxSize k"
    using bound assms(2) by simp
  moreover have "fst (getCachedDecision (setPolicyWithInvariants rx k policy invariants snap) now' key') = None"
    by (simp add: getCachedDecision_def setPolicyWithInvariants_def Let_def)
  moreover have "\<exists>e. map_of (k_cache k) key' = Some e \<and> ce_resp e = cached \<and> ce_policyVersion e = k_policyVersion k \<and>
      now' \<le> ce_expires e" if "fst (getCachedDecision k now' key') = Some cached" for cached
    using that by (auto simp: getCachedDecision_def split: option.splits if_splits)
  ultimately show ?thesis by blast
qed

definition ex_entry :: "int \<Rightarrow> cache_entry" where
  "ex_entry t = \<lparr>ce_resp = deny_response [], ce_expires = t, ce_policyVersion = 1\<rparr>"

theorem decision_cache_bounded_and_fresh_witness:
  "int (length (k_cache (setCachedDecision (ex_kernel0\<lparr>k_cache := [(''a'', ex_entry 1), (''b'', ex_entry 2)]\<rparr>) 0 ''c''
     (deny_response [])))) \<le> 2"
  using decision_cache_bounded_and_fresh [of "ex_kernel0\<lparr>k_cache := [(''a'', ex_entry 1), (''b'', ex_entry 2)]\<rparr>"
      0 "''c''" "deny_response []"]
  by (simp add: ex_kernel0_def)

section \<open>Agents of other tenants\<close>

definition agent_cache_ok :: "kernel \<Rightarrow> bool" where
  "agent_cache_ok k \<longleftrightarrow>
     (\<forall>key e. map_of (k_agentCache k) key = Some e \<longrightarrow>
        (\<exists>t agentID. key = agentCacheKey t agentID \<and> CHR 0x00 \<notin> set t \<and> TrimSpace (ai_TenantID (ae_identity e)) = t))"

lemma agentCacheKey_tenant:
  "agentCacheKey t a = agentCacheKey t' a' \<Longrightarrow> CHR 0x00 \<notin> set t \<Longrightarrow> CHR 0x00 \<notin> set t' \<Longrightarrow> t = t'"
  unfolding agentCacheKey_def by (rule separator_inject)

lemma agent_cache_ok_del: "agent_cache_ok k \<Longrightarrow> agent_cache_ok (k\<lparr>k_agentCache := mdel key (k_agentCache k)\<rparr>)"
  by (auto simp: agent_cache_ok_def)

lemma getAgentFromCache_ok:
  assumes "agent_cache_ok k" "CHR 0x00 \<notin> set t" "getAgentFromCache k now (agentCacheKey t a) = (res, k')"
  shows "agent_cache_ok k'" "res = Some ag \<Longrightarrow> TrimSpace (ai_TenantID ag) = t"
proof -
  show "agent_cache_ok k'"
    using assms agent_cache_ok_del [OF assms(1)] by (auto simp: getAgentFromCache_def split: option.splits if_splits)
  show "TrimSpace (ai_TenantID ag) = t" if r: "res = Some ag"
  proof -
    obtain e where e: "map_of (k_agentCache k) (agentCacheKey t a) = Some e" "ae_identity e = ag"
      using assms(3) r by (auto simp: getAgentFromCache_def split: option.splits if_splits)
    then obtain t' a' where t': "agentCacheKey t a = agentCacheKey t' a'" "CHR 0x00 \<notin> set t'" "TrimSpace (ai_TenantID ag) = t'"
      using assms(1) unfolding agent_cache_ok_def by metis
    then show ?thesis using agentCacheKey_tenant assms(2) by metis
  qed
qed

lemma putAgentInCache_ok:
  "agent_cache_ok k \<Longrightarrow> CHR 0x00 \<notin> set t \<Longrightarrow> TrimSpace (ai_TenantID ag) = t \<Longrightarrow>
   agent_cache_ok (putAgentInCache k now (agentCacheKey t a) ag)"
  unfolding agent_cache_ok_def putAgentInCache_def by (auto split: if_splits)


definition ex_identity :: agent_identity where
  "ex_identity = \<lparr>ai_TenantID = ''acme'', ai_Name = ''bot'', ai_Team = ''t'', ai_RiskTier = ''high'',
     ai_DataClassifications = [''pii'']\<rparr>"

definition ex_agent_kernel :: kernel where
  "ex_agent_kernel = ex_kernel0\<lparr>k_agentCache :=
     [(agentCacheKey ''acme'' ''a1'', \<lparr>ae_identity = ex_identity, ae_expires = 10\<rparr>)]\<rparr>"

lemma ex_agent_kernel_ok: "agent_cache_ok ex_agent_kernel"
  unfolding agent_cache_ok_def
proof (intro allI impI)
  fix key e
  assume "map_of (k_agentCache ex_agent_kernel) key = Some e"
  then have "key = agentCacheKey ''acme'' ''a1''" "e = \<lparr>ae_identity = ex_identity, ae_expires = 10\<rparr>"
    by (auto simp: ex_agent_kernel_def split: if_splits)
  moreover have "CHR 0x00 \<notin> set ''acme''" "TrimSpace (ai_TenantID ex_identity) = ''acme''" by code_simp+
  ultimately show "\<exists>t agentID. key = agentCacheKey t agentID \<and> CHR 0x00 \<notin> set t \<and>
      TrimSpace (ai_TenantID (ae_identity e)) = t"
    by auto
qed


end
