(* ===== verification/Resource_Locks.thy ===== *)
theory Resource_Locks
  imports Redis
begin

text \<open>
  Shared and exclusive resource locks, from \<open>core/infra/locks\<close> (\<open>store.go\<close>, \<open>redis_store.go\<close>): the
  three scripts over one Redis key per resource and the Go calls around them. The JSON library
  of the server's scripts (\<open>cjson\<close>) and Go's decoder are arguments; what is used of them is
  that a table whose numbers have at most fourteen digits, the precision \<open>cjson\<close> prints, is read
  back as it was written. Durations are nanoseconds as in Go, times are Unix seconds.

  The abstract lock is a mode and a count per owner. The scripts implement it, every
  interleaving of clients, lost calls and expiries keeps it well formed, and an exclusive
  holder keeps the lock against everybody else until it releases it or its time to live runs out.
\<close>

section \<open>Data\<close>

record lock_payload =
  lk_mode :: "string option"
  lk_owners :: "int gomap option"
  lk_updated_at :: int
  lk_expires_at :: int

record lock_view =
  Resource :: string
  Mode :: string
  Owners :: "int gomap"
  UpdatedAt :: "int option"
  ExpiresAt :: "int option"

record lock_json =
  lua_encode :: "lock_payload \<Rightarrow> string"
  lua_decode :: "string \<Rightarrow> lock_payload option"
  go_decode :: "string \<Rightarrow> lock_payload option"

datatype lock_error = LockStoreUnavailable | LockArgsRequired | LockCallError | LockDecodeError

definition ModeExclusive :: string where "ModeExclusive = ''exclusive''"

definition ModeShared :: string where "ModeShared = ''shared''"

definition defaultTTL :: int where "defaultTTL = 30 * 1000000000"

definition normalizeTTL :: "int \<Rightarrow> int" where
  "normalizeTTL d = (if d \<le> 0 then defaultTTL else d)"

definition normalizeMode :: "string \<Rightarrow> string" where
  "normalizeMode m = (if m = ModeShared then ModeShared else ModeExclusive)"

definition lockKey :: "string \<Rightarrow> string" where
  "lockKey resource = ''lock:'' @ resource"

definition parseLock :: "lock_json \<Rightarrow> string \<Rightarrow> string \<Rightarrow> lock_view option" where
  "parseLock J payload resource =
     (case go_decode J payload of
        None \<Rightarrow> None
      | Some d \<Rightarrow> Some \<lparr>Resource = resource, Mode = (case lk_mode d of None \<Rightarrow> [] | Some m \<Rightarrow> m),
                        Owners = (case lk_owners d of None \<Rightarrow> [] | Some os \<Rightarrow> os),
                        UpdatedAt = (if lk_updated_at d > 0 then Some (lk_updated_at d) else None),
                        ExpiresAt = (if lk_expires_at d > 0 then Some (lk_expires_at d) else None)\<rparr>)"

section \<open>The scripts\<close>

text \<open>
  A script returns its reply, or nothing when it raises an error: the server refuses a
  \<open>PX\<close> that is not positive, and \<open>cjson.decode\<close> raises on a payload it cannot read.
\<close>

definition storeLock :: "'s redis \<Rightarrow> lock_json \<Rightarrow> string \<Rightarrow> int \<Rightarrow> lock_payload \<Rightarrow> 's \<Rightarrow> string option \<times> 's" where
  "storeLock R J key px l s =
     (if px \<le> 0 then (None, s) else (Some (lua_encode J l), rSETPX R key (lua_encode J l) px s))"

definition stamp :: "int \<Rightarrow> int \<Rightarrow> int gomap \<Rightarrow> lock_payload \<Rightarrow> lock_payload" where
  "stamp now px owners l = l\<lparr>lk_owners := Some owners, lk_updated_at := now, lk_expires_at := now + px div 1000\<rparr>"

definition lockOwners :: "lock_payload \<Rightarrow> int gomap" where
  "lockOwners l = (case lk_owners l of None \<Rightarrow> [] | Some os \<Rightarrow> os)"

definition lockMode :: "lock_payload \<Rightarrow> string" where
  "lockMode l = (case lk_mode l of None \<Rightarrow> ''exclusive'' | Some m \<Rightarrow> m)"

definition addOwner :: "string \<Rightarrow> int gomap \<Rightarrow> int gomap" where
  "addOwner owner owners = mput owner ((case map_of owners owner of None \<Rightarrow> 0 | Some n \<Rightarrow> n) + 1) owners"

definition acquireScript ::
    "'s redis \<Rightarrow> lock_json \<Rightarrow> string \<Rightarrow> string \<Rightarrow> string \<Rightarrow> int \<Rightarrow> int \<Rightarrow> 's \<Rightarrow> string option \<times> 's" where
  "acquireScript R J key mode owner px now s =
     (case rGET R s key of
        None \<Rightarrow>
          storeLock R J key px \<lparr>lk_mode = Some mode, lk_owners = Some [(owner, 1)], lk_updated_at = now,
                               lk_expires_at = now + px div 1000\<rparr> s
      | Some payload \<Rightarrow>
          (case lua_decode J payload of
             None \<Rightarrow> (None, s)
           | Some l \<Rightarrow>
               (let owners = lockOwners l in
                if lockMode l = ''exclusive''
                then if map_of owners owner \<noteq> None
                     then storeLock R J key px (stamp now px (addOwner owner owners) l) s
                     else (Some [], s)
                else if mode = ''shared''
                then storeLock R J key px (stamp now px (addOwner owner owners) l) s
                else if owners = [] then (Some [], s)
                else if \<forall>(k, _) \<in> set owners. k = owner
                then storeLock R J key px (stamp now px (addOwner owner owners) (l\<lparr>lk_mode := Some ''exclusive''\<rparr>)) s
                else (Some [], s))))"

definition releaseScript ::
    "'s redis \<Rightarrow> lock_json \<Rightarrow> string \<Rightarrow> string \<Rightarrow> int \<Rightarrow> 's \<Rightarrow> string option \<times> 's" where
  "releaseScript R J key owner now s =
     (case rGET R s key of
        None \<Rightarrow> (Some [], s)
      | Some payload \<Rightarrow>
          (case lua_decode J payload of
             None \<Rightarrow> (None, s)
           | Some l \<Rightarrow>
               (case map_of (lockOwners l) owner of
                  None \<Rightarrow> (Some payload, s)
                | Some n \<Rightarrow>
                    (let owners = (if n \<le> 1 then mdel owner (lockOwners l) else mput owner (n - 1) (lockOwners l))
                     in if owners = [] then (Some [], rDEL R key s)
                        else let px = rPTTL R s key;
                                 encoded = lua_encode J (l\<lparr>lk_owners := Some owners, lk_updated_at := now\<rparr>)
                             in (Some encoded, rSETPX R key encoded (if px > 0 then px else 30000) s)))))"

definition renewScript ::
    "'s redis \<Rightarrow> lock_json \<Rightarrow> string \<Rightarrow> string \<Rightarrow> int \<Rightarrow> int \<Rightarrow> 's \<Rightarrow> string option \<times> 's" where
  "renewScript R J key owner px now s =
     (case rGET R s key of
        None \<Rightarrow> (Some [], s)
      | Some payload \<Rightarrow>
          (case lua_decode J payload of
             None \<Rightarrow> (None, s)
           | Some l \<Rightarrow>
               if map_of (lockOwners l) owner = None then (Some [], s)
               else storeLock R J key px (l\<lparr>lk_updated_at := now, lk_expires_at := now + px div 1000\<rparr>) s))"

section \<open>The store\<close>

type_synonym lock_result = "lock_error + lock_view option \<times> bool"

definition lockCall ::
    "call \<Rightarrow> ('s \<Rightarrow> string option \<times> 's) \<Rightarrow> (string \<Rightarrow> lock_result) \<Rightarrow> 's \<Rightarrow> lock_result \<times> 's" where
  "lockCall c script k s =
     (case run c script s of
        (Some (Some payload), s') \<Rightarrow> (k payload, s')
      | (_, s') \<Rightarrow> (Inl LockCallError, s'))"

definition decoded :: "lock_json \<Rightarrow> string \<Rightarrow> string \<Rightarrow> lock_result" where
  "decoded J resource payload =
     (case parseLock J payload resource of None \<Rightarrow> Inl LockDecodeError | Some l \<Rightarrow> Inr (Some l, True))"

definition Acquire ::
    "'s redis option \<Rightarrow> lock_json \<Rightarrow> call \<Rightarrow> int \<Rightarrow> string \<Rightarrow> string \<Rightarrow> string \<Rightarrow> int \<Rightarrow> 's \<Rightarrow> lock_result \<times> 's" where
  "Acquire client J c now resource0 owner0 mode duration s =
     (case client of
        None \<Rightarrow> (Inl LockStoreUnavailable, s)
      | Some R \<Rightarrow>
          (let resource = TrimSpace resource0; owner = TrimSpace owner0 in
           if resource = [] \<or> owner = [] then (Inl LockArgsRequired, s)
           else lockCall c (acquireScript R J (lockKey resource) (normalizeMode mode) owner
                              (normalizeTTL duration div 1000000) now)
                  (\<lambda>payload. if payload = [] then Inr (None, False) else decoded J resource payload) s))"

definition Release ::
    "'s redis option \<Rightarrow> lock_json \<Rightarrow> call \<Rightarrow> int \<Rightarrow> string \<Rightarrow> string \<Rightarrow> 's \<Rightarrow> lock_result \<times> 's" where
  "Release client J c now resource0 owner0 s =
     (case client of
        None \<Rightarrow> (Inl LockStoreUnavailable, s)
      | Some R \<Rightarrow>
          (let resource = TrimSpace resource0; owner = TrimSpace owner0 in
           if resource = [] \<or> owner = [] then (Inl LockArgsRequired, s)
           else lockCall c (releaseScript R J (lockKey resource) owner now)
                  (\<lambda>payload. if payload = [] then Inr (None, True) else decoded J resource payload) s))"

definition Renew ::
    "'s redis option \<Rightarrow> lock_json \<Rightarrow> call \<Rightarrow> int \<Rightarrow> string \<Rightarrow> string \<Rightarrow> int \<Rightarrow> 's \<Rightarrow> lock_result \<times> 's" where
  "Renew client J c now resource0 owner0 duration s =
     (case client of
        None \<Rightarrow> (Inl LockStoreUnavailable, s)
      | Some R \<Rightarrow>
          (let resource = TrimSpace resource0; owner = TrimSpace owner0 in
           if resource = [] \<or> owner = [] then (Inl LockArgsRequired, s)
           else lockCall c (renewScript R J (lockKey resource) owner (normalizeTTL duration div 1000000) now)
                  (\<lambda>payload. if payload = [] then Inr (None, False) else decoded J resource payload) s))"

definition Get ::
    "'s redis option \<Rightarrow> lock_json \<Rightarrow> call \<Rightarrow> string \<Rightarrow> 's \<Rightarrow> lock_error + lock_view" where
  "Get client J c resource0 s =
     (case client of
        None \<Rightarrow> Inl LockStoreUnavailable
      | Some R \<Rightarrow>
          (let resource = TrimSpace resource0 in
           if resource = [] then Inl LockArgsRequired
           else case run c (\<lambda>s. (rGET R s (lockKey resource), s)) s of
               (Some (Some payload), _) \<Rightarrow>
                 (case parseLock J payload resource of None \<Rightarrow> Inl LockDecodeError | Some l \<Rightarrow> Inr l)
             | _ \<Rightarrow> Inl LockCallError))"

section \<open>The abstract lock\<close>

record hold =
  exclusive :: bool
  grants :: "string \<Rightarrow> nat option"

definition grant :: "string \<Rightarrow> hold \<Rightarrow> hold" where
  "grant owner H = H\<lparr>grants := (grants H)(owner \<mapsto> (case grants H owner of None \<Rightarrow> 0 | Some n \<Rightarrow> n) + 1)\<rparr>"

definition acquire_spec :: "string \<Rightarrow> bool \<Rightarrow> hold option \<Rightarrow> hold option" where
  "acquire_spec owner excl L =
     (case L of
        None \<Rightarrow> Some \<lparr>exclusive = excl, grants = [owner \<mapsto> 1]\<rparr>
      | Some H \<Rightarrow>
          if exclusive H then if grants H owner \<noteq> None then Some (grant owner H) else L
          else if \<not> excl then Some (grant owner H)
          else if dom (grants H) = {owner} then Some (grant owner (H\<lparr>exclusive := True\<rparr>))
          else L)"

definition release_spec :: "string \<Rightarrow> hold option \<Rightarrow> hold option" where
  "release_spec owner L =
     (case L of
        None \<Rightarrow> None
      | Some H \<Rightarrow>
          (case grants H owner of
             None \<Rightarrow> L
           | Some n \<Rightarrow>
               (let g = (if n \<le> 1 then (grants H)(owner := None) else (grants H)(owner \<mapsto> n - 1))
                in if g = Map.empty then None else Some (H\<lparr>grants := g\<rparr>))))"

definition hold_ok :: "hold option \<Rightarrow> bool" where
  "hold_ok L \<longleftrightarrow>
     (case L of
        None \<Rightarrow> True
      | Some H \<Rightarrow> grants H \<noteq> Map.empty \<and> (\<forall>o1 n. grants H o1 = Some n \<longrightarrow> n > 0) \<and>
          (exclusive H \<longrightarrow> (\<forall>a b. grants H a \<noteq> None \<and> grants H b \<noteq> None \<longrightarrow> a = b)))"

section \<open>Runs\<close>

datatype lock_event =
    AcquireBy string string string int int call
  | ReleaseBy string string int call
  | RenewBy string string int int call
  | Tick int

text \<open>The state of the server after an operation of a client, whether its reply arrives or not.\<close>

fun lock_exec :: "'s redis \<Rightarrow> lock_json \<Rightarrow> lock_event \<Rightarrow> 's \<Rightarrow> 's" where
  "lock_exec R J (AcquireBy resource owner mode d now c) s = snd (Acquire (Some R) J c now resource owner mode d s)"
| "lock_exec R J (ReleaseBy resource owner now c) s = snd (Release (Some R) J c now resource owner s)"
| "lock_exec R J (RenewBy resource owner d now c) s = snd (Renew (Some R) J c now resource owner d s)"
| "lock_exec R J (Tick d) s = s"

inductive lock_step :: "'s redis \<Rightarrow> ('s \<Rightarrow> keyspace) \<Rightarrow> lock_json \<Rightarrow> 's \<Rightarrow> lock_event \<Rightarrow> 's \<Rightarrow> bool"
  for R :: "'s redis" and view :: "'s \<Rightarrow> keyspace" and J :: lock_json where
  client: "(\<forall>d. e \<noteq> Tick d) \<Longrightarrow> lock_step R view J s e (lock_exec R J e s)"
| time: "lapse d (view s) (view s') \<Longrightarrow> lock_step R view J s (Tick d) s'"

inductive_cases lock_step_TickE: "lock_step R view J s (Tick d) s'"
inductive_cases lock_step_AcquireE: "lock_step R view J s (AcquireBy r o1 m d now c) s'"
inductive_cases lock_step_ReleaseE: "lock_step R view J s (ReleaseBy r o1 now c) s'"
inductive_cases lock_step_RenewE: "lock_step R view J s (RenewBy r o1 d now c) s'"

inductive lock_steps :: "'s redis \<Rightarrow> ('s \<Rightarrow> keyspace) \<Rightarrow> lock_json \<Rightarrow> 's \<Rightarrow> lock_event list \<Rightarrow> 's \<Rightarrow> bool"
  for R :: "'s redis" and view :: "'s \<Rightarrow> keyspace" and J :: lock_json where
  nil: "lock_steps R view J s [] s"
| cons: "lock_step R view J s e s' \<Longrightarrow> lock_steps R view J s' es s'' \<Longrightarrow> lock_steps R view J s (e # es) s''"

fun elapsed :: "lock_event list \<Rightarrow> int" where
  "elapsed [] = 0"
| "elapsed (Tick d # es) = d + elapsed es"
| "elapsed (_ # es) = elapsed es"

fun event_by :: "string \<Rightarrow> string \<Rightarrow> lock_event \<Rightarrow> bool" where
  "event_by resource owner (AcquireBy r o1 _ _ _ _) = (TrimSpace r = resource \<and> TrimSpace o1 = owner)"
| "event_by resource owner (ReleaseBy r o1 _ _) = (TrimSpace r = resource \<and> TrimSpace o1 = owner)"
| "event_by resource owner (RenewBy r o1 _ _ _) = (TrimSpace r = resource \<and> TrimSpace o1 = owner)"
| "event_by resource owner (Tick _) = False"

text \<open>Clocks below the year 3,000,000, so that a time stamp has at most fourteen digits.\<close>

definition stampable :: "int \<Rightarrow> int \<Rightarrow> bool" where
  "stampable now d \<longleftrightarrow> 0 \<le> now \<and> now + normalizeTTL d div 1000000 div 1000 < 10 ^ 14"

fun event_ok :: "lock_event \<Rightarrow> bool" where
  "event_ok (AcquireBy _ _ _ d now _) = stampable now d"
| "event_ok (ReleaseBy _ _ now _) = stampable now 1"
| "event_ok (RenewBy _ _ d now _) = stampable now d"
| "event_ok (Tick d) = (0 \<le> d)"

section \<open>Invariants of the abstract lock\<close>

lemma hold_ok_grant:
  "hold_ok (Some H) \<Longrightarrow> exclusive H \<longrightarrow> grants H owner \<noteq> None \<Longrightarrow> hold_ok (Some (grant owner H))"
  by (auto simp: hold_ok_def grant_def split: if_splits option.split)

lemma hold_ok_upgrade: "hold_ok (Some H) \<Longrightarrow> dom (grants H) = {owner} \<Longrightarrow> hold_ok (Some (H\<lparr>exclusive := True\<rparr>))"
  unfolding hold_ok_def by (simp, metis domI singletonD)

lemma hold_ok_acquire:
  assumes "hold_ok L" shows "hold_ok (acquire_spec owner excl L)"
proof (cases L)
  case (Some H)
  have "dom (grants H) = {owner} \<Longrightarrow> hold_ok (Some (grant owner (H\<lparr>exclusive := True\<rparr>)))"
    using assms Some hold_ok_upgrade hold_ok_grant [of "H\<lparr>exclusive := True\<rparr>" owner] by (auto simp: dom_def)
  then show ?thesis
    using assms Some hold_ok_grant [of H owner] by (simp add: acquire_spec_def)
qed (simp add: acquire_spec_def hold_ok_def)

lemma hold_ok_release: "hold_ok L \<Longrightarrow> hold_ok (release_spec owner L)"
  by (cases L) (auto simp: hold_ok_def release_spec_def Let_def split: if_splits option.splits)

section \<open>The scripts implement the abstract lock\<close>

definition digits14 :: "int \<Rightarrow> bool" where
  "digits14 n \<longleftrightarrow> \<bar>n\<bar> < 10 ^ 14"

definition payload_hold :: "lock_payload \<Rightarrow> hold" where
  "payload_hold l = \<lparr>exclusive = (lockMode l = ''exclusive''), grants = (\<lambda>o1. map_option nat (map_of (lockOwners l) o1))\<rparr>"

definition payload_ok :: "nat \<Rightarrow> lock_payload \<Rightarrow> bool" where
  "payload_ok N l \<longleftrightarrow> wf_map (lockOwners l) \<and> lockMode l \<in> {''exclusive'', ''shared''} \<and>
     (\<forall>o1 n. map_of (lockOwners l) o1 = Some n \<longrightarrow> 0 < n \<and> n \<le> int N) \<and>
     digits14 (lk_updated_at l) \<and> digits14 (lk_expires_at l) \<and> hold_ok (Some (payload_hold l))"

definition lock_state :: "'s redis \<Rightarrow> lock_json \<Rightarrow> 's \<Rightarrow> string \<Rightarrow> hold option" where
  "lock_state R J s resource =
     (case rGET R s (lockKey resource) of
        None \<Rightarrow> None
      | Some p \<Rightarrow> map_option payload_hold (lua_decode J p))"

definition same_payload :: "lock_payload \<Rightarrow> lock_payload \<Rightarrow> bool" where
  "same_payload l l' \<longleftrightarrow> wf_map (lockOwners l') \<and> map_of (lockOwners l') = map_of (lockOwners l) \<and>
     lk_mode l' = lk_mode l \<and> lk_updated_at l' = lk_updated_at l \<and> lk_expires_at l' = lk_expires_at l"

definition printable :: "lock_payload \<Rightarrow> bool" where
  "printable l \<longleftrightarrow> wf_map (lockOwners l) \<and> (\<forall>n \<in> snd ` set (lockOwners l). digits14 n) \<and>
     digits14 (lk_updated_at l) \<and> digits14 (lk_expires_at l)"

definition json_laws :: "lock_json \<Rightarrow> bool" where
  "json_laws J \<longleftrightarrow>
     (\<forall>l. printable l \<longrightarrow>
        lua_encode J l \<noteq> [] \<and>
        (\<exists>l'. lua_decode J (lua_encode J l) = Some l' \<and> same_payload l l') \<and>
        (\<exists>l'. go_decode J (lua_encode J l) = Some l' \<and> same_payload l l'))"

lemma same_payload_hold: "same_payload l l' \<Longrightarrow> payload_hold l' = payload_hold l"
  by (simp add: same_payload_def payload_hold_def lockMode_def)

lemma same_payload_ok: "same_payload l l' \<Longrightarrow> payload_ok N l \<Longrightarrow> payload_ok N l'"
  using same_payload_hold [of l l'] by (auto simp: payload_ok_def same_payload_def lockMode_def)

lemma payload_ok_printable: "payload_ok N l \<Longrightarrow> N < 10 ^ 14 \<Longrightarrow> printable l"
  by (fastforce simp: payload_ok_def printable_def digits14_def wf_map_def)

lemma payload_ok_mono: "payload_ok N l \<Longrightarrow> N \<le> M \<Longrightarrow> payload_ok M l"
  by (fastforce simp: payload_ok_def)

lemma payload_hold_stamp:
  assumes "payload_ok N l"
  shows "payload_hold (stamp now px (addOwner owner (lockOwners l)) l) = grant owner (payload_hold l)"
proof -
  have "map_of (lockOwners l) owner = Some n \<Longrightarrow> nat (n + 1) = Suc (nat n)" for n
    using assms by (force simp: payload_ok_def)
  then show ?thesis
    by (auto simp: payload_hold_def stamp_def addOwner_def grant_def lockOwners_def lockMode_def fun_eq_iff
        split: option.split)
qed

lemma payload_ok_stamp:
  assumes "payload_ok N l" "digits14 now" "digits14 (now + px div 1000)"
    and "exclusive (payload_hold l) \<longrightarrow> map_of (lockOwners l) owner \<noteq> None"
  shows "payload_ok (Suc N) (stamp now px (addOwner owner (lockOwners l)) l)"
proof -
  let ?l = "stamp now px (addOwner owner (lockOwners l)) l"
  have os: "lockOwners ?l = addOwner owner (lockOwners l)" "lockMode ?l = lockMode l"
    by (simp_all add: stamp_def lockOwners_def lockMode_def)
  have "hold_ok (Some (grant owner (payload_hold l)))"
    using assms by (intro hold_ok_grant) (simp_all add: payload_ok_def payload_hold_def)
  moreover have "map_of (addOwner owner (lockOwners l)) o1 = Some n \<Longrightarrow> 0 < n \<and> n \<le> int (Suc N)" for o1 n
    using assms(1) by (force simp: addOwner_def payload_ok_def split: if_splits option.splits)
  moreover have "wf_map (addOwner owner (lockOwners l))"
    using assms(1) by (auto simp: addOwner_def payload_ok_def)
  ultimately show ?thesis
    using assms payload_hold_stamp [OF assms(1)] by (simp add: payload_ok_def os) (simp add: stamp_def)
qed

lemma payload_ok_new:
  assumes "mode \<in> {''exclusive'', ''shared''}" "digits14 now" "digits14 (now + px div 1000)"
  shows "payload_ok (Suc N) \<lparr>lk_mode = Some mode, lk_owners = Some [(owner, 1)], lk_updated_at = now,
      lk_expires_at = now + px div 1000\<rparr>"
  using assms by (auto simp: payload_ok_def lockOwners_def lockMode_def payload_hold_def hold_ok_def fun_eq_iff split: if_splits)

lemma payload_hold_new:
  "payload_hold \<lparr>lk_mode = Some mode, lk_owners = Some [(owner, 1)], lk_updated_at = now, lk_expires_at = e\<rparr> =
   \<lparr>exclusive = (mode = ''exclusive''), grants = [owner \<mapsto> Suc 0]\<rparr>"
  by (simp add: payload_hold_def lockOwners_def lockMode_def fun_eq_iff)

lemma payload_ok_upgrade:
  assumes "payload_ok N l" "\<forall>(k, _) \<in> set (lockOwners l). k = owner" "lockOwners l \<noteq> []"
  shows "payload_ok N (l\<lparr>lk_mode := Some ''exclusive''\<rparr>)"
    "payload_hold (l\<lparr>lk_mode := Some ''exclusive''\<rparr>) = (payload_hold l)\<lparr>exclusive := True\<rparr>"
    "dom (grants (payload_hold l)) = {owner}" "map_of (lockOwners l) owner \<noteq> None"
proof -
  show d: "dom (grants (payload_hold l)) = {owner}"
    using assms(2,3) by (cases "lockOwners l") (auto simp: payload_hold_def dom_def dest!: map_of_SomeD split: if_splits)
  then show "map_of (lockOwners l) owner \<noteq> None" by (auto simp: payload_hold_def dom_def)
  show h: "payload_hold (l\<lparr>lk_mode := Some ''exclusive''\<rparr>) = (payload_hold l)\<lparr>exclusive := True\<rparr>"
    by (simp add: payload_hold_def lockMode_def lockOwners_def)
  show "payload_ok N (l\<lparr>lk_mode := Some ''exclusive''\<rparr>)"
    using assms(1) hold_ok_upgrade [OF _ d] h by (simp add: payload_ok_def lockOwners_def lockMode_def)
qed

lemma owners_only:
  assumes "wf_map (lockOwners l)"
  shows "dom (grants (payload_hold l)) = {owner} \<longleftrightarrow>
    lockOwners l \<noteq> [] \<and> (\<forall>(k, _) \<in> set (lockOwners l). k = owner)"
proof -
  have "dom (grants (payload_hold l)) = fst ` set (lockOwners l)"
    by (simp add: payload_hold_def dom_def dom_map_of_conv_image_fst [symmetric])
  then show ?thesis by (cases "lockOwners l") auto
qed

lemma release_owners:
  assumes "payload_ok N l" "map_of (lockOwners l) owner = Some n"
    and "os = (if n \<le> 1 then mdel owner (lockOwners l) else mput owner (n - 1) (lockOwners l))"
  shows "(if nat n \<le> 1 then (grants (payload_hold l))(owner := None) else (grants (payload_hold l))(owner \<mapsto> nat n - 1)) =
      (\<lambda>o1. map_option nat (map_of os o1))"
    "os = [] \<longleftrightarrow> (\<lambda>o1. map_option nat (map_of os o1)) = Map.empty"
    "payload_hold (l\<lparr>lk_owners := Some os, lk_updated_at := now\<rparr>) =
      (payload_hold l)\<lparr>grants := \<lambda>o1. map_option nat (map_of os o1)\<rparr>"
proof -
  have "nat (n - 1) = nat n - 1" by simp
  moreover have "(nat n \<le> 1) = (n \<le> 1)" by linarith
  ultimately show "(if nat n \<le> 1 then (grants (payload_hold l))(owner := None) else (grants (payload_hold l))(owner \<mapsto> nat n - 1)) =
      (\<lambda>o1. map_option nat (map_of os o1))"
    by (auto simp: assms(3) payload_hold_def fun_eq_iff)
  show "os = [] \<longleftrightarrow> (\<lambda>o1. map_option nat (map_of os o1)) = Map.empty"
    by (cases os) (auto simp: fun_eq_iff split: if_splits)
  show "payload_hold (l\<lparr>lk_owners := Some os, lk_updated_at := now\<rparr>) =
      (payload_hold l)\<lparr>grants := \<lambda>o1. map_option nat (map_of os o1)\<rparr>"
    by (simp add: payload_hold_def lockOwners_def lockMode_def)
qed

lemma release_payload_ok:
  assumes "payload_ok N l" "map_of (lockOwners l) owner = Some n"
    and "os = (if n \<le> 1 then mdel owner (lockOwners l) else mput owner (n - 1) (lockOwners l))"
    and "os \<noteq> []" "digits14 now"
  shows "payload_ok N (l\<lparr>lk_owners := Some os, lk_updated_at := now\<rparr>)"
proof -
  let ?l = "l\<lparr>lk_owners := Some os, lk_updated_at := now\<rparr>"
  have "hold_ok (release_spec owner (Some (payload_hold l)))"
    using assms(1) by (intro hold_ok_release) (simp add: payload_ok_def)
  moreover have "release_spec owner (Some (payload_hold l)) = Some (payload_hold ?l)"
    using assms(2,4) release_owners [OF assms(1,2,3)]
    by (simp add: release_spec_def Let_def) (simp add: payload_hold_def)
  moreover have "map_of os o1 = Some m \<Longrightarrow> 0 < m \<and> m \<le> int N" for o1 m
    using assms(1,2) by (force simp: assms(3) payload_ok_def split: if_splits)
  moreover have "wf_map os"
    using assms(1) by (auto simp: assms(3) payload_ok_def)
  ultimately show ?thesis
    using assms by (simp add: payload_ok_def lockOwners_def lockMode_def)
qed

lemma lockKey_inject [simp]: "lockKey a = lockKey b \<longleftrightarrow> a = b"
  by (simp add: lockKey_def)

locale lock_store = redis_server R view for R :: "'s redis" and view :: "'s \<Rightarrow> keyspace" +
  fixes J :: lock_json
  assumes json: "json_laws J"
begin

definition lock_at :: "'s \<Rightarrow> string \<Rightarrow> hold option" where
  "lock_at s = lock_state R J s"

lemma lock_at_def': "lock_at s resource =
     (case ks_strings (view s) (lockKey resource) of
        None \<Rightarrow> None
      | Some p \<Rightarrow> map_option payload_hold (lua_decode J p))"
  by (simp add: lock_at_def lock_state_def reads)

definition locks_ok :: "nat \<Rightarrow> 's \<Rightarrow> bool" where
  "locks_ok N s \<longleftrightarrow>
     (\<forall>resource p. ks_strings (view s) (lockKey resource) = Some p \<longrightarrow> (\<exists>l. lua_decode J p = Some l \<and> payload_ok N l))"

lemma locks_ok_mono: "locks_ok N s \<Longrightarrow> N \<le> M \<Longrightarrow> locks_ok M s"
  unfolding locks_ok_def using payload_ok_mono by blast

lemma locks_ok_at:
  assumes "locks_ok N s" "ks_strings (view s) (lockKey resource) = Some p"
  obtains l where "lua_decode J p = Some l" "payload_ok N l" "lock_at s resource = Some (payload_hold l)"
  using assms unfolding locks_ok_def lock_at_def' by force

lemma lock_at_None: "ks_strings (view s) (lockKey resource) = None \<Longrightarrow> lock_at s resource = None"
  by (simp add: lock_at_def')

lemma locks_ok_hold:
  assumes "locks_ok N s" shows "hold_ok (lock_at s resource)"
proof (cases "ks_strings (view s) (lockKey resource)")
  case (Some p)
  then show ?thesis using locks_ok_at [OF assms] by (metis payload_ok_def)
qed (simp add: lock_at_None hold_ok_def)

lemma storeLock_impl:
  assumes "locks_ok N s" "payload_ok N l" "N < 10 ^ 14" "0 < px"
  shows "lock_at (snd (storeLock R J (lockKey r) px l s)) = (lock_at s)(r \<mapsto> payload_hold l)"
    "locks_ok N (snd (storeLock R J (lockKey r) px l s))"
    "ks_ttl (view (snd (storeLock R J (lockKey r) px l s))) (lockKey r) = Some px"
proof -
  obtain l' where l': "lua_decode J (lua_encode J l) = Some l'" "same_payload l l'"
    using json payload_ok_printable [OF assms(2,3)] unfolding json_laws_def by blast
  let ?s = "snd (storeLock R J (lockKey r) px l s)"
  have v: "view ?s = (view s)\<lparr>ks_strings := (ks_strings (view s))(lockKey r \<mapsto> lua_encode J l),
      ks_ttl := (ks_ttl (view s))(lockKey r \<mapsto> px)\<rparr>"
    using assms(4) by (simp add: storeLock_def writes)
  show "lock_at ?s = (lock_at s)(r \<mapsto> payload_hold l)"
    using l' same_payload_hold by (auto simp: lock_at_def' v fun_eq_iff)
  show "locks_ok N ?s"
    using assms(1,2) l' same_payload_ok by (auto simp: locks_ok_def v)
  show "ks_ttl (view ?s) (lockKey r) = Some px" by (simp add: v)
qed

definition impl :: "nat \<Rightarrow> 's \<Rightarrow> string \<Rightarrow> hold option \<Rightarrow> 's \<Rightarrow> bool" where
  "impl N s r L s' \<longleftrightarrow> lock_at s' = (lock_at s)(r := L) \<and> locks_ok N s'"

lemma impl_refl: "locks_ok N s \<Longrightarrow> s' = s \<Longrightarrow> L = lock_at s r \<Longrightarrow> N \<le> M \<Longrightarrow> impl M s r L s'"
  using locks_ok_mono by (auto simp: impl_def)

lemma impl_put:
  "locks_ok N s \<Longrightarrow> payload_ok (Suc N) l \<Longrightarrow> Suc N < 10 ^ 14 \<Longrightarrow> 0 < px \<Longrightarrow> L = Some (payload_hold l) \<Longrightarrow>
   impl (Suc N) s r L (snd (storeLock R J (lockKey r) px l s))"
  unfolding impl_def using storeLock_impl [OF locks_ok_mono [of N s "Suc N"]] by simp

lemma acquire_impl_held:
  assumes ok: "locks_ok N s" "Suc N < 10 ^ 14" and px: "0 < px" and dg: "digits14 now" "digits14 (now + px div 1000)"
    and mode: "mode \<in> {''exclusive'', ''shared''}" and p: "ks_strings (view s) (lockKey r) = Some p"
  shows "impl (Suc N) s r (acquire_spec owner (mode = ''exclusive'') (lock_at s r))
      (snd (acquireScript R J (lockKey r) mode owner px now s))"
proof -
  obtain l where l: "lua_decode J p = Some l" "payload_ok N l" "lock_at s r = Some (payload_hold l)"
    using locks_ok_at [OF ok(1) p] by metis
  have wf: "wf_map (lockOwners l)" using l(2) by (simp add: payload_ok_def)
  have ex: "exclusive (payload_hold l) = (lockMode l = ''exclusive'')"
    "grants (payload_hold l) owner = map_option nat (map_of (lockOwners l) owner)"
    by (simp_all add: payload_hold_def)
  let ?u = "l\<lparr>lk_mode := Some ''exclusive''\<rparr>"
  have lu: "lockOwners ?u = lockOwners l" by (simp add: lockOwners_def)
  note eqs = acquireScript_def acquire_spec_def reads p l(1,3) ex Let_def owners_only [OF wf, of owner]
  note put = impl_put [OF ok(1) payload_ok_stamp [OF _ dg] ok(2) px]
  consider (refused) "lockMode l = ''exclusive''" "map_of (lockOwners l) owner = None"
    | (again) "lockMode l = ''exclusive''" "map_of (lockOwners l) owner \<noteq> None"
    | (share) "lockMode l \<noteq> ''exclusive''" "mode = ''shared''"
    | (upgrade) "lockMode l \<noteq> ''exclusive''" "mode = ''exclusive''" "lockOwners l \<noteq> []"
        "\<forall>(k, _) \<in> set (lockOwners l). k = owner"
    | (shared) "lockMode l \<noteq> ''exclusive''" "mode = ''exclusive''"
      "\<not> (lockOwners l \<noteq> [] \<and> (\<forall>(k, _) \<in> set (lockOwners l). k = owner))"
    using mode by blast
  then show ?thesis
  proof cases
    case refused then show ?thesis by (intro impl_refl [OF ok(1)]) (simp_all add: eqs)
  next
    case again
    with put [OF l(2), of owner] payload_hold_stamp [OF l(2)] show ?thesis by (simp add: eqs)
  next
    case share
    with put [OF l(2), of owner] payload_hold_stamp [OF l(2)] show ?thesis by (simp add: eqs)
  next
    case upgrade
    note up = payload_ok_upgrade [OF l(2) upgrade(4,3)]
    from upgrade put [OF up(1), of owner] payload_hold_stamp [OF up(1)] up show ?thesis by (simp add: eqs lu)
  next
    case shared then show ?thesis by (intro impl_refl [OF ok(1)]) (auto simp: eqs)
  qed
qed

lemma acquire_impl:
  assumes "locks_ok N s" "Suc N < 10 ^ 14" "0 < px" "digits14 now" "digits14 (now + px div 1000)"
    "mode \<in> {''exclusive'', ''shared''}"
  shows "impl (Suc N) s r (acquire_spec owner (mode = ''exclusive'') (lock_at s r))
      (snd (acquireScript R J (lockKey r) mode owner px now s))"
proof (cases "ks_strings (view s) (lockKey r)")
  case None
  with impl_put [OF assms(1) payload_ok_new [OF assms(6,4,5), of _ owner] assms(2,3)] show ?thesis
    by (simp add: acquireScript_def reads lock_at_None acquire_spec_def payload_hold_new)
qed (rule acquire_impl_held [OF assms])

lemma release_impl:
  assumes ok: "locks_ok N s" "N < 10 ^ 14" and "digits14 now"
  shows "impl N s r (release_spec owner (lock_at s r)) (snd (releaseScript R J (lockKey r) owner now s))"
proof (cases "ks_strings (view s) (lockKey r)")
  case None
  then show ?thesis by (intro impl_refl [OF ok(1)]) (simp_all add: releaseScript_def reads release_spec_def lock_at_None)
next
  case (Some p)
  then obtain l where l: "lua_decode J p = Some l" "payload_ok N l" "lock_at s r = Some (payload_hold l)"
    using locks_ok_at [OF ok(1)] by metis
  have gr: "grants (payload_hold l) owner = map_option nat (map_of (lockOwners l) owner)"
    by (simp add: payload_hold_def)
  show ?thesis
  proof (cases "map_of (lockOwners l) owner")
    case None
    then show ?thesis
      by (intro impl_refl [OF ok(1)]) (simp_all add: releaseScript_def reads Some l(1,3) release_spec_def gr)
  next
    case n: (Some n)
    define os where "os = (if n \<le> 1 then mdel owner (lockOwners l) else mput owner (n - 1) (lockOwners l))"
    define l' where "l' = l\<lparr>lk_owners := Some os, lk_updated_at := now\<rparr>"
    have n0: "0 < n" using l(2) n by (auto simp: payload_ok_def)
    have spec: "release_spec owner (lock_at s r) = (if os = [] then None else Some (payload_hold l'))"
      using n0 n release_owners [OF l(2) n os_def] by (simp add: release_spec_def l(3) gr l'_def Let_def)
    show ?thesis
    proof (cases "os = []")
      case True
      then have "lock_at (rDEL R (lockKey r) s) = (lock_at s)(r := None)" "locks_ok N (rDEL R (lockKey r) s)"
        using ok(1) by (auto simp: lock_at_def' locks_ok_def writes del_key_def fun_eq_iff)
      then show ?thesis
        using True by (simp add: releaseScript_def reads Some l(1) n Let_def os_def [symmetric] spec impl_def)
    next
      case False
      then have "payload_ok N l'" using release_payload_ok [OF l(2) n os_def] assms(3) by (simp add: l'_def)
      moreover have "0 < (if rPTTL R s (lockKey r) > 0 then rPTTL R s (lockKey r) else 30000)" by simp
      ultimately show ?thesis
        using False storeLock_impl(1,2) [OF ok(1) \<open>payload_ok N l'\<close> ok(2), of _ r]
        by (simp add: releaseScript_def reads(1) Some l(1) n Let_def os_def [symmetric] spec impl_def l'_def [symmetric]
            storeLock_def split: if_splits)
    qed
  qed
qed

lemma renew_impl:
  assumes ok: "locks_ok N s" "N < 10 ^ 14" and "digits14 now" "digits14 (now + px div 1000)" "0 < px"
  shows "impl N s r (lock_at s r) (snd (renewScript R J (lockKey r) owner px now s))"
proof (cases "ks_strings (view s) (lockKey r)")
  case None
  then show ?thesis by (intro impl_refl [OF ok(1)]) (simp_all add: renewScript_def reads)
next
  case (Some p)
  then obtain l where l: "lua_decode J p = Some l" "payload_ok N l" "lock_at s r = Some (payload_hold l)"
    using locks_ok_at [OF ok(1)] by metis
  let ?l = "l\<lparr>lk_updated_at := now, lk_expires_at := now + px div 1000\<rparr>"
  have "payload_hold ?l = payload_hold l" by (simp add: payload_hold_def lockOwners_def lockMode_def)
  moreover have "payload_ok N ?l" using l(2) assms(3,4) calculation
    by (simp add: payload_ok_def lockOwners_def lockMode_def)
  ultimately show ?thesis
    using storeLock_impl(1,2) [OF ok(1) \<open>payload_ok N ?l\<close> ok(2) assms(5), of r] Some l ok(1)
    by (auto simp: renewScript_def reads impl_def)
qed

text \<open>What a script can do to the server.\<close>

definition touches :: "string \<Rightarrow> 's \<Rightarrow> 's \<Rightarrow> bool" where
  "touches k s s' \<longleftrightarrow> s' = s \<or> s' = rDEL R k s \<or> (\<exists>p px. 0 < px \<and> s' = rSETPX R k p px s)"

lemma touchesI: "touches k s s" "touches k s (rDEL R k s)" "0 < px \<Longrightarrow> touches k s (rSETPX R k p px s)"
  unfolding touches_def by blast+

lemma storeLock_touches: "touches k s (snd (storeLock R J k px l s))"
  by (simp add: storeLock_def touchesI)

lemma script_touches:
  "touches k s (snd (acquireScript R J k mode owner px now s))"
  "touches k s (snd (releaseScript R J k owner now s))"
  "touches k s (snd (renewScript R J k owner px now s))"
proof -
  show "touches k s (snd (acquireScript R J k mode owner px now s))"
    by (simp add: acquireScript_def Let_def touchesI storeLock_touches split: option.split)
  show "touches k s (snd (renewScript R J k owner px now s))"
    by (simp add: renewScript_def touchesI storeLock_touches split: option.split)
  show "touches k s (snd (releaseScript R J k owner now s))"
    by (simp add: releaseScript_def Let_def touchesI split: option.split)
qed

lemma touches_frame:
  "touches k s s' \<Longrightarrow> k' \<noteq> k \<Longrightarrow> ks_strings (view s') k' = ks_strings (view s) k' \<and> ks_ttl (view s') k' = ks_ttl (view s) k'"
  by (auto simp: touches_def writes del_key_def)

lemma acquire_grant:
  assumes ok: "locks_ok N s" and dg: "digits14 now" "digits14 (now + px div 1000)"
    and mode: "mode \<in> {''exclusive'', ''shared''}"
    and reply: "fst (acquireScript R J (lockKey r) mode owner px now s) = Some p" "p \<noteq> []"
  obtains l where "acquireScript R J (lockKey r) mode owner px now s = storeLock R J (lockKey r) px l s"
    "payload_ok (Suc N) l" "map_of (lockOwners l) owner \<noteq> None"
    "mode = ''exclusive'' \<Longrightarrow> lockMode l = ''exclusive''"
proof (cases "ks_strings (view s) (lockKey r)")
  case None
  then show thesis
    using that [OF _ payload_ok_new [OF mode dg, of N owner]]
    by (simp add: acquireScript_def reads lockOwners_def lockMode_def)
next
  case (Some q)
  obtain l where l: "lua_decode J q = Some l" "payload_ok N l" using locks_ok_at [OF ok Some] by metis
  have own: "map_of (lockOwners (stamp now px (addOwner owner os) l')) owner \<noteq> None"
    "lockMode (stamp now px os l') = lockMode l'" for l' os
    by (simp_all add: stamp_def addOwner_def lockOwners_def lockMode_def)
  have ex: "exclusive (payload_hold l) = (lockMode l = ''exclusive'')" for l by (simp add: payload_hold_def)
  let ?u = "l\<lparr>lk_mode := Some ''exclusive''\<rparr>"
  have u: "lockOwners ?u = lockOwners l" "lockMode ?u = ''exclusive''" by (simp_all add: lockOwners_def lockMode_def)
  show thesis
  proof (cases "lockMode l = ''exclusive'' \<or> mode = ''shared''")
    case True
    with reply Some l(1) have "acquireScript R J (lockKey r) mode owner px now s =
        storeLock R J (lockKey r) px (stamp now px (addOwner owner (lockOwners l)) l) s"
      "exclusive (payload_hold l) \<longrightarrow> map_of (lockOwners l) owner \<noteq> None"
      by (auto simp: acquireScript_def reads Let_def ex split: if_splits)
    then show thesis using that [OF _ payload_ok_stamp [OF l(2) dg]] own True by auto
  next
    case False
    with reply Some l(1) have *: "lockOwners l \<noteq> []" "\<forall>(k, _) \<in> set (lockOwners l). k = owner"
      by (auto simp: acquireScript_def reads Let_def split: if_splits)
    with False Some l(1) have "acquireScript R J (lockKey r) mode owner px now s =
        storeLock R J (lockKey r) px (stamp now px (addOwner owner (lockOwners ?u)) ?u) s"
      by (auto simp: acquireScript_def reads Let_def u)
    then show thesis
      using that [OF _ payload_ok_stamp [OF payload_ok_upgrade(1) [OF l(2) *(2,1)] dg]] payload_ok_upgrade(4) [OF l(2) *(2,1)]
        own u by auto
  qed
qed

text \<open>Runs of any number of clients keep the locks well formed.\<close>

lemma stampable_digits: "stampable now d \<Longrightarrow> digits14 now \<and> digits14 (now + normalizeTTL d div 1000000 div 1000)"
proof -
  have "0 < normalizeTTL d" by (simp add: normalizeTTL_def defaultTTL_def)
  then have "0 \<le> normalizeTTL d div 1000000 div 1000" by (simp add: pos_imp_zdiv_nonneg_iff)
  then show "stampable now d \<Longrightarrow> ?thesis" by (simp add: stampable_def digits14_def)
qed

lemma storeLock_zero: "px \<le> 0 \<Longrightarrow> snd (storeLock R J k px l s) = s"
  by (simp add: storeLock_def)

lemma lockCall_state: "snd (lockCall c script k s) = (if c = CallFailed then s else snd (script s))"
  by (cases c) (simp_all add: lockCall_def run_def split: option.split)

lemma lockCall_ok: "locks_ok N s \<Longrightarrow> locks_ok N (snd (script s)) \<Longrightarrow> locks_ok N (snd (lockCall c script k s))"
  by (simp add: lockCall_state)

lemma normalizeMode_cases: "normalizeMode m \<in> {''exclusive'', ''shared''}"
  by (simp add: normalizeMode_def ModeShared_def ModeExclusive_def)

lemma lock_exec_ok:
  assumes ok: "locks_ok N s" "Suc N < 10 ^ 14" and e: "event_ok e"
  shows "locks_ok (Suc N) (lock_exec R J e s)"
proof -
  have ok': "locks_ok (Suc N) s" using ok(1) by (rule locks_ok_mono) simp
  have acq: "locks_ok (Suc N) (snd (acquireScript R J (lockKey r) (normalizeMode m) o1 px now s))"
    if "digits14 now" "digits14 (now + px div 1000)" for r m o1 px now
  proof (cases "0 < px")
    case True
    then show ?thesis using acquire_impl [OF ok True that normalizeMode_cases] by (simp add: impl_def)
  next
    case False
    then have "snd (acquireScript R J (lockKey r) (normalizeMode m) o1 px now s) = s"
      by (simp add: acquireScript_def storeLock_zero Let_def split: option.split)
    with ok' show ?thesis by simp
  qed
  have ren: "locks_ok (Suc N) (snd (renewScript R J (lockKey r) o1 px now s))"
    if "digits14 now" "digits14 (now + px div 1000)" for r o1 px now
  proof (cases "0 < px")
    case True
    then show ?thesis using renew_impl [OF ok' ok(2) that True] by (simp add: impl_def)
  next
    case False
    then have "snd (renewScript R J (lockKey r) o1 px now s) = s"
      by (simp add: renewScript_def storeLock_zero split: option.split)
    with ok' show ?thesis by simp
  qed
  have rel: "locks_ok (Suc N) (snd (releaseScript R J (lockKey r) o1 now s))" if "digits14 now" for r o1 now
    using release_impl [OF ok' ok(2) that] by (simp add: impl_def)
  show ?thesis
    using e ok' acq ren rel stampable_digits
    by (cases e) (auto simp: Acquire_def Release_def Renew_def Let_def intro!: lockCall_ok)
qed

lemma lapse_ok: "lapse d (view s) (view s') \<Longrightarrow> locks_ok N s \<Longrightarrow> locks_ok N s'"
  unfolding lapse_def locks_ok_def by (smt (verit) option.case_eq_if option.distinct(1))

lemma lock_steps_ok:
  assumes "lock_steps R view J s es s'"
  shows "locks_ok N s \<Longrightarrow> N + length es < 10 ^ 14 \<Longrightarrow> \<forall>e \<in> set es. event_ok e \<Longrightarrow> locks_ok (N + length es) s'"
  using assms
proof (induction arbitrary: N)
  case (cons s e s' es s'')
  have "locks_ok (Suc N) s'"
    using cons.hyps(1)
  proof cases
    case client
    then show ?thesis using lock_exec_ok [OF cons.prems(1)] cons.prems(2,3) by simp
  next
    case (time d)
    then show ?thesis using lapse_ok [OF _ locks_ok_mono [OF cons.prems(1), of "Suc N"]] by simp
  qed
  then show ?case using cons.IH [of "Suc N"] cons.prems(2,3) by simp
qed simp

text \<open>An exclusive holder.\<close>

definition held :: "'s \<Rightarrow> string \<Rightarrow> string \<Rightarrow> string \<Rightarrow> int \<Rightarrow> bool" where
  "held s r owner p t \<longleftrightarrow>
     ks_strings (view s) (lockKey r) = Some p \<and> ks_ttl (view s) (lockKey r) = Some t \<and>
     (\<exists>l. lua_decode J p = Some l \<and> lockMode l = ''exclusive'' \<and>
          (\<forall>o1. o1 \<noteq> owner \<longrightarrow> map_of (lockOwners l) o1 = None))"

lemma held_refuses:
  assumes "held s r owner p t" "o1 \<noteq> owner"
  shows "acquireScript R J (lockKey r) mode o1 px now s = (Some [], s)"
    "releaseScript R J (lockKey r) o1 now s = (Some p, s)"
    "renewScript R J (lockKey r) o1 px now s = (Some [], s)"
  using assms by (auto simp: held_def acquireScript_def releaseScript_def renewScript_def reads Let_def)

lemma lock_exec_frame:
  assumes "held s r owner p t" "\<not> event_by r owner e"
  shows "held (lock_exec R J e s) r owner p t"
proof -
  have frame: "held s' r owner p t" if "touches (lockKey r') s s'" "r' \<noteq> r" for r' s'
    using that touches_frame [OF that(1), of "lockKey r"] assms(1) by (auto simp: held_def)
  have call: "held (snd (lockCall c script k s)) r owner p t"
    if "r' = r \<Longrightarrow> snd (script s) = s" "touches (lockKey r') s (snd (script s))" for c script k r'
    using that frame assms(1) by (cases "r' = r") (auto simp: lockCall_state)
  show ?thesis
  proof (cases e)
    case (AcquireBy r0 o1 m d now c)
    then show ?thesis
      using assms held_refuses(1) [OF assms(1)] script_touches(1)
      by (auto simp: Acquire_def Let_def intro!: call [of "TrimSpace r0"])
  next
    case (ReleaseBy r0 o1 now c)
    then show ?thesis
      using assms held_refuses(2) [OF assms(1)] script_touches(2)
      by (auto simp: Release_def Let_def intro!: call [of "TrimSpace r0"])
  next
    case (RenewBy r0 o1 d now c)
    then show ?thesis
      using assms held_refuses(3) [OF assms(1)] script_touches(3)
      by (auto simp: Renew_def Let_def intro!: call [of "TrimSpace r0"])
  qed (use assms in simp)
qed

lemma held_lapse: "held s r owner p t \<Longrightarrow> lapse d (view s) (view s') \<Longrightarrow> d < t \<Longrightarrow> held s' r owner p (t - d)"
  by (auto simp: held_def lapse_def dest!: spec [of _ "lockKey r"])

lemma elapsed_nonneg: "lock_steps R view J s es s' \<Longrightarrow> 0 \<le> elapsed es"
proof (induction rule: lock_steps.induct)
  case (cons s e s' es s'')
  then show ?case by (cases e) (auto elim!: lock_step_TickE simp: lapse_def)
qed simp

lemma held_steps:
  assumes "lock_steps R view J s es s'"
  shows "held s r owner p t \<Longrightarrow> \<forall>e \<in> set es. \<not> event_by r owner e \<Longrightarrow> elapsed es < t \<Longrightarrow> held s' r owner p (t - elapsed es)"
  using assms
proof (induction arbitrary: t)
  case (cons s e s' es s'')
  have e: "0 \<le> elapsed es" using cons.hyps(2) by (rule elapsed_nonneg)
  from cons.hyps(1) show ?case
  proof cases
    case client
    then have el: "elapsed (e # es) = elapsed es" by (cases e) auto
    have "held s' r owner p t" using client lock_exec_frame [OF cons.prems(1)] cons.prems(2) by simp
    then show ?thesis using cons.IH [of t] cons.prems el by simp
  next
    case (time d)
    then have "held s' r owner p (t - d)" using held_lapse [OF cons.prems(1)] cons.prems(3) e by simp
    then show ?thesis using cons.IH [of "t - d"] cons.prems time(1) by (simp add: diff_diff_eq)
  qed
qed simp

lemma acquire_holds:
  assumes ok: "locks_ok N s" "Suc N < 10 ^ 14" and t: "stampable now d"
    and mode: "normalizeMode mode = ''exclusive''"
    and acq: "Acquire (Some R) J CallOk now r owner mode d s = (Inr (Some v, True), s')"
  shows "\<exists>p. held s' (TrimSpace r) (TrimSpace owner) p (normalizeTTL d div 1000000)"
proof -
  let ?px = "normalizeTTL d div 1000000" and ?k = "lockKey (TrimSpace r)"
  let ?script = "acquireScript R J ?k (normalizeMode mode) (TrimSpace owner) ?px now"
  obtain p where p: "fst (?script s) = Some p" "p \<noteq> []" and s': "s' = snd (?script s)"
    using acq by (auto simp: Acquire_def Let_def lockCall_def run_def split: if_splits option.splits prod.splits)
  from stampable_digits [OF t] acquire_grant [OF ok(1) _ _ normalizeMode_cases p] obtain l
    where l: "?script s = storeLock R J ?k ?px l s" "payload_ok (Suc N) l" "map_of (lockOwners l) (TrimSpace owner) \<noteq> None"
      "lockMode l = ''exclusive''" using mode by metis
  have px: "0 < ?px" using p(1) l(1) by (auto simp: storeLock_def split: if_splits)
  obtain l' where l': "lua_decode J (lua_encode J l) = Some l'" "same_payload l l'"
    using json payload_ok_printable [OF l(2) ok(2)] unfolding json_laws_def by blast
  have only: "map_of (lockOwners l) o1 = None" if "o1 \<noteq> TrimSpace owner" for o1
    using l(2-4) that by (auto simp: payload_ok_def hold_ok_def payload_hold_def)
  have "lockMode l' = ''exclusive''" "map_of (lockOwners l') = map_of (lockOwners l)"
    using l' l(4) by (simp_all add: same_payload_def lockMode_def)
  then have "held s' (TrimSpace r) (TrimSpace owner) (lua_encode J l) ?px"
    using px l'(1) only by (simp add: held_def s' l(1) storeLock_def writes)
  then show ?thesis by blast
qed

end

lemma lock_storeI: "redis_laws R view \<Longrightarrow> json_laws J \<Longrightarrow> lock_store R view J"
  by (simp add: lock_store_def lock_store_axioms_def redis_server_def)

section \<open>A concrete encoding\<close>

definition enc_str :: "string \<Rightarrow> string" where
  "enc_str s = concat (map (\<lambda>c. [CHR ''x'', c]) s) @ ''.''"

fun dec_list :: "string \<Rightarrow> string \<Rightarrow> string list option" where
  "dec_list cur [] = (if cur = [] then Some [] else None)"
| "dec_list cur [a] = (if a = CHR ''.'' then Some [cur] else None)"
| "dec_list cur (a # c # r) =
     (if a = CHR ''.'' then map_option (\<lambda>l. cur # l) (dec_list [] (c # r)) else dec_list (cur @ [c]) r)"

fun dec_owners :: "string list \<Rightarrow> int gomap option" where
  "dec_owners [] = Some []"
| "dec_owners (k # n # r) =
     (case (Atoi n, dec_owners r) of (Some i, Some os) \<Rightarrow> Some ((k, i) # os) | _ \<Rightarrow> None)"
| "dec_owners [k] = None"

definition table_encode :: "lock_payload \<Rightarrow> string" where
  "table_encode l =
     concat (map enc_str
       ((case lk_mode l of None \<Rightarrow> ''n'' | Some m \<Rightarrow> CHR ''m'' # m) # Itoa (lk_updated_at l) # Itoa (lk_expires_at l) #
        concat (map (\<lambda>(k, n). [k, Itoa n]) (lockOwners l))))"

definition table_decode :: "string \<Rightarrow> lock_payload option" where
  "table_decode s =
     (case dec_list [] s of
        Some (m # u # e # os) \<Rightarrow>
          (case (Atoi u, Atoi e, dec_owners os) of
             (Some u', Some e', Some os') \<Rightarrow>
               Some \<lparr>lk_mode = (if m = ''n'' then None else Some (tl m)), lk_owners = Some os',
                     lk_updated_at = u', lk_expires_at = e'\<rparr>
           | _ \<Rightarrow> None)
      | _ \<Rightarrow> None)"

definition table_json :: lock_json where
  "table_json = \<lparr>lua_encode = table_encode, lua_decode = table_decode, go_decode = table_decode\<rparr>"

lemma dec_list_str: "dec_list cur (enc_str s @ rest) = map_option (\<lambda>l. (cur @ s) # l) (dec_list [] rest)"
proof (induction s arbitrary: cur)
  case Nil
  show ?case by (cases rest) (simp_all add: enc_str_def)
next
  case (Cons c s)
  then show ?case by (simp add: enc_str_def)
qed

lemma dec_list_concat: "dec_list [] (concat (map enc_str xs)) = Some xs"
  by (induction xs) (simp_all add: dec_list_str)

lemma digits14_range: "digits14 n \<Longrightarrow> int64_range n"
  unfolding digits14_def int64_range_def by simp linarith

lemma dec_owners_concat:
  "\<forall>n \<in> snd ` set os. digits14 n \<Longrightarrow> dec_owners (concat (map (\<lambda>(k, n). [k, Itoa n]) os)) = Some os"
  by (induction os) (auto simp: digits14_range)

lemma table_roundtrip:
  assumes "printable l" shows "\<exists>l'. table_decode (table_encode l) = Some l' \<and> same_payload l l'"
proof -
  have "dec_owners (concat (map (\<lambda>(k, n). [k, Itoa n]) (lockOwners l))) = Some (lockOwners l)"
    using assms by (intro dec_owners_concat) (auto simp: printable_def)
  then show ?thesis
    using assms
    by (auto simp: table_decode_def table_encode_def dec_list_concat printable_def same_payload_def digits14_range
        lockOwners_def simp del: map_map concat.simps list.map split: option.split)
qed

lemma table_json_laws: "json_laws table_json"
  using table_roundtrip by (auto simp: json_laws_def table_json_def) (simp add: table_encode_def enc_str_def)

interpretation tl: lock_store map_redis server_view table_json
  by unfold_locales (rule table_json_laws)

section \<open>Properties\<close>

lemma reachable_locks_ok:
  assumes "redis_laws R view" "json_laws J" "\<forall>r. rGET R s (lockKey r) = None"
    and "lock_steps R view J s es s'" "\<forall>e \<in> set es. event_ok e"
  shows "length es < 10 ^ 14 \<Longrightarrow> lock_store.locks_ok view J (length es) s'"
proof -
  note L = lock_storeI [OF assms(1,2)]
  have "lock_store.locks_ok view J 0 s"
    using assms(3) by (simp add: lock_store.locks_ok_def [OF L] redis_server.reads [OF redis_server.intro [OF assms(1)]])
  from lock_store.lock_steps_ok [OF L assms(4) this] assms(5)
  show "length es < 10 ^ 14 \<Longrightarrow> lock_store.locks_ok view J (length es) s'" by simp
qed

text \<open>
  Every lock in the store is well formed at all times. Starting without locks, after any
  interleaving of acquires, releases and renewals of any clients, with calls that fail or lose
  their reply and with keys that expire, every lock has an owner, every owner a positive
  count, and a lock in exclusive mode exactly one owner.
\<close>

theorem locks_well_formed:
  assumes "redis_laws R view" "json_laws J" "\<forall>r. rGET R s (lockKey r) = None"
    and "lock_steps R view J s es s'" "\<forall>e \<in> set es. event_ok e" "length es < 10 ^ 14"
  shows "hold_ok (lock_state R J s' resource)"
  using lock_store.locks_ok_hold [OF lock_storeI [OF assms(1,2)] reachable_locks_ok [OF assms(1-5)], of resource] assms(6)
  by (simp add: lock_store.lock_at_def [OF lock_storeI [OF assms(1,2)]])

definition ex_acquire :: "string \<Rightarrow> string \<Rightarrow> server \<Rightarrow> lock_result \<times> server" where
  "ex_acquire owner mode s = Acquire (Some map_redis) table_json CallOk 1000 ''db'' owner mode 0 s"

definition ex_locked :: server where
  "ex_locked = snd (ex_acquire ''a'' ''exclusive'' empty_server)"

lemma no_locks: "\<forall>r. rGET map_redis empty_server (lockKey r) = None"
  by (simp add: map_redis_def empty_server_def)

lemma ex_lock_steps:
  "lock_steps map_redis server_view table_json empty_server
     [AcquireBy ''db'' ''a'' ''exclusive'' 0 1000 CallOk, AcquireBy ''db'' ''b'' ''shared'' 0 1001 CallOk] ex_locked"
proof -
  let ?e1 = "AcquireBy ''db'' ''a'' ''exclusive'' 0 1000 CallOk" and ?e2 = "AcquireBy ''db'' ''b'' ''shared'' 0 1001 CallOk"
  have "lock_exec map_redis table_json ?e1 empty_server = ex_locked" by (simp only: ex_locked_def ex_acquire_def lock_exec.simps)
  then have 1: "lock_step map_redis server_view table_json empty_server ?e1 ex_locked"
    using lock_step.client [of ?e1 map_redis server_view table_json empty_server] by simp
  have "lock_exec map_redis table_json ?e2 ex_locked = ex_locked" by code_simp
  then have 2: "lock_step map_redis server_view table_json ex_locked ?e2 ex_locked"
    using lock_step.client [of ?e2 map_redis server_view table_json ex_locked] by simp
  show ?thesis by (rule lock_steps.cons [OF 1 lock_steps.cons [OF 2 lock_steps.nil]])
qed

theorem locks_well_formed_witness:
  "hold_ok (lock_state map_redis table_json ex_locked ''db'')"
  using locks_well_formed [OF map_redis_laws table_json_laws no_locks ex_lock_steps]
  by (simp add: stampable_def normalizeTTL_def defaultTTL_def)

text \<open>
  C34. The scripts implement the abstract lock. In every state a run reaches, \<open>Acquire\<close> changes the
  lock of its resource as the abstract acquire does (reentrant for its owner, shared
  with other readers, upgraded for the only reader, refused otherwise), \<open>Release\<close> as the
  abstract release, \<open>Renew\<close> leaves the owners alone, and none of them touches another resource.
\<close>

theorem locks_refine:
  assumes "redis_laws R view" "json_laws J" "\<forall>r. rGET R s0 (lockKey r) = None"
    and "lock_steps R view J s0 es s" "\<forall>e \<in> set es. event_ok e" "Suc (length es) < 10 ^ 14"
    and args: "TrimSpace r \<noteq> []" "TrimSpace owner \<noteq> []" and t: "stampable now d" "0 < normalizeTTL d div 1000000"
  shows "lock_state R J (snd (Acquire (Some R) J CallOk now r owner mode d s)) =
      (lock_state R J s)(TrimSpace r := acquire_spec (TrimSpace owner) (normalizeMode mode = ''exclusive'')
                                          (lock_state R J s (TrimSpace r))) \<and>
    lock_state R J (snd (Release (Some R) J CallOk now r owner s)) =
      (lock_state R J s)(TrimSpace r := release_spec (TrimSpace owner) (lock_state R J s (TrimSpace r))) \<and>
    lock_state R J (snd (Renew (Some R) J CallOk now r owner d s)) = lock_state R J s"
proof -
  note L = lock_storeI [OF assms(1,2)]
  have N: "length es < 10 ^ 14" using assms(6) by simp
  note ok = reachable_locks_ok [OF assms(1-5) N]
  note dg = lock_store.stampable_digits [OF L t(1)]
  note state = lock_store.lockCall_state [OF L]
  note at = lock_store.impl_def [OF L] lock_store.lock_at_def [OF L]
  show ?thesis
    using lock_store.acquire_impl [OF L ok assms(6) t(2) conjunct1 [OF dg] conjunct2 [OF dg] lock_store.normalizeMode_cases [OF L]]
      lock_store.release_impl [OF L ok N conjunct1 [OF dg]]
      lock_store.renew_impl [OF L ok N conjunct1 [OF dg] conjunct2 [OF dg] t(2)]
    by (simp add: Acquire_def Release_def Renew_def Let_def args state at)
qed

theorem locks_refine_witness:
  "lock_state map_redis table_json (snd (Release (Some map_redis) table_json CallOk 1002 ''db'' '' a'' ex_locked)) ''db'' =
   release_spec ''a'' (lock_state map_redis table_json ex_locked ''db'')"
proof -
  have "TrimSpace ''db'' = ''db''" "TrimSpace '' a'' = ''a''" by code_simp+
  then show ?thesis
    using locks_refine [OF map_redis_laws table_json_laws no_locks ex_lock_steps, of "''db''" "'' a''" 1002 0]
    by (simp add: stampable_def normalizeTTL_def defaultTTL_def)
qed

text \<open>
  C5. An exclusive lock excludes. Once \<open>Acquire\<close> has granted an exclusive lock, no interleaving of
  operations of other owners, and no passage of time short of the time to live, lets
  another owner in: every \<open>Acquire\<close> of another owner is refused and changes nothing, until the holder
  acts on the lock itself.
\<close>

theorem exclusive_lock_excludes:
  assumes "redis_laws R view" "json_laws J" "\<forall>r. rGET R s0 (lockKey r) = None"
    and "lock_steps R view J s0 es s" "\<forall>e \<in> set es. event_ok e" "Suc (length es) < 10 ^ 14"
    and t: "stampable now d" and mode: "normalizeMode mode = ''exclusive''"
    and acq: "Acquire (Some R) J CallOk now r owner mode d s = (Inr (Some v, True), s1)"
    and run: "lock_steps R view J s1 es' s2" "\<forall>e \<in> set es'. \<not> event_by (TrimSpace r) (TrimSpace owner) e"
      "elapsed es' < normalizeTTL d div 1000000"
    and other: "TrimSpace owner' \<noteq> TrimSpace owner" "TrimSpace owner' \<noteq> []"
  shows "Acquire (Some R) J CallOk now' r owner' mode' d' s2 = (Inr (None, False), s2)"
proof -
  note L = lock_storeI [OF assms(1,2)]
  obtain p where "lock_store.held view J s1 (TrimSpace r) (TrimSpace owner) p (normalizeTTL d div 1000000)"
    using lock_store.acquire_holds [OF L reachable_locks_ok [OF assms(1-5)] assms(6) t mode acq] assms(6) by auto
  from lock_store.held_refuses(1) [OF L lock_store.held_steps [OF L run(1) this run(2,3)] other(1)] other(2)
  show ?thesis using acq by (auto simp: Acquire_def Let_def lockCall_def run_def split: if_splits)
qed

definition ex_later :: server where
  "ex_later = ex_locked\<lparr>srv_ttl := [(lockKey ''db'', 29500)]\<rparr>"

theorem exclusive_lock_excludes_witness:
  "Acquire (Some map_redis) table_json CallOk 1001 ''db'' ''b'' ''shared'' 0 ex_later = (Inr (None, False), ex_later)"
proof -
  have ttl: "srv_ttl ex_locked = [(lockKey ''db'', 30000)]" by code_simp
  have "lapse 500 (server_view ex_locked) (server_view ex_later)"
    by (simp add: lapse_def server_view_def ex_later_def ttl)
  then have steps: "lock_steps map_redis server_view table_json ex_locked [Tick 500] ex_later"
    by (rule lock_steps.cons [OF lock_step.time lock_steps.nil])
  have "fst (ex_acquire ''a'' ''exclusive'' empty_server) =
      Inr (Some \<lparr>Resource = ''db'', Mode = ''exclusive'', Owners = [(''a'', 1)], UpdatedAt = Some 1000, ExpiresAt = Some 1030\<rparr>, True)"
    by code_simp
  then obtain v where acq: "Acquire (Some map_redis) table_json CallOk 1000 ''db'' ''a'' ''exclusive'' 0 empty_server =
      (Inr (Some v, True), ex_locked)"
    by (metis ex_acquire_def ex_locked_def prod.collapse)
  have names: "TrimSpace ''a'' = ''a''" "TrimSpace ''b'' = ''b''" "normalizeMode ''exclusive'' = ''exclusive''" by code_simp+
  have ttls: "stampable 1000 0" "normalizeTTL 0 div 1000000 = 30000"
    by (simp_all add: stampable_def normalizeTTL_def defaultTTL_def)
  show ?thesis
    by (rule exclusive_lock_excludes [OF map_redis_laws table_json_laws no_locks lock_steps.nil _ _ ttls(1) names(3) acq steps])
      (simp_all add: names ttls)
qed

end
