(* ===== verification/Circuit_Breaker.thy ===== *)
theory Circuit_Breaker
  imports Redis
begin

text \<open>
  The circuit breaker in front of the safety kernel and the retry backoff of the scheduler, from
  \<open>core/controlplane/scheduler\<close> (\<open>circuit_breaker.go\<close>, \<open>backoff.go\<close>). Replicas share a failure
  counter in Redis; each keeps a local three-state breaker that takes over when the server cannot be
  reached. Times and durations are nanoseconds. The backoff works on 64-bit words, as the code does.
\<close>

unbundle bit_operations_syntax

section \<open>The breaker\<close>

datatype circuit_state = circuitClosed | circuitOpen | circuitHalfOpen

record breaker =
  failuresKey :: string
  openDuration :: int
  failThreshold :: int
  closeAfter :: int
  halfOpenMax :: int
  localState :: circuit_state
  localFailures :: int
  localSuccesses :: int
  localOpenUntil :: int
  localHalfOpen :: int

record breaker_opts =
  FailThreshold :: int
  OpenDuration :: int
  HalfOpenMax :: int
  CloseAfter :: int

definition NewRedisCircuitBreaker :: "string \<Rightarrow> breaker_opts \<Rightarrow> breaker" where
  "NewRedisCircuitBreaker keyPrefix opts =
     \<lparr>failuresKey = keyPrefix @ '':failures'',
      openDuration = (if OpenDuration opts \<le> 0 then 30 * 1000000000 else OpenDuration opts),
      failThreshold = (if FailThreshold opts \<le> 0 then 3 else FailThreshold opts),
      closeAfter = (if CloseAfter opts \<le> 0 then 2 else CloseAfter opts),
      halfOpenMax = (if HalfOpenMax opts \<le> 0 then 3 else HalfOpenMax opts),
      localState = circuitClosed, localFailures = 0, localSuccesses = 0, localOpenUntil = 0, localHalfOpen = 0\<rparr>"

definition recordFailureLua :: "'s redis \<Rightarrow> string \<Rightarrow> int \<Rightarrow> 's \<Rightarrow> int option \<times> 's" where
  "recordFailureLua R key ttlSec s =
     (case rINCR R key s of
        None \<Rightarrow> (None, s)
      | Some (n, s1) \<Rightarrow> (Some n, if n = 1 then rEXPIRE R key ttlSec s1 else s1))"

definition localIsOpen :: "int \<Rightarrow> breaker \<Rightarrow> bool \<times> breaker" where
  "localIsOpen now cb =
     (let cb' = (if localState cb = circuitOpen \<and> localOpenUntil cb < now
                 then cb\<lparr>localState := circuitHalfOpen, localSuccesses := 0, localHalfOpen := halfOpenMax cb\<rparr>
                 else cb)
      in (localState cb' = circuitOpen, cb'))"

definition localRecordFailure :: "int \<Rightarrow> breaker \<Rightarrow> breaker" where
  "localRecordFailure now cb =
     (case localState cb of
        circuitClosed \<Rightarrow>
          if localFailures cb + 1 \<ge> failThreshold cb
          then cb\<lparr>localState := circuitOpen, localOpenUntil := now + openDuration cb, localFailures := 0\<rparr>
          else cb\<lparr>localFailures := localFailures cb + 1\<rparr>
      | circuitHalfOpen \<Rightarrow>
          cb\<lparr>localState := circuitOpen, localOpenUntil := now + openDuration cb, localFailures := 0\<rparr>
      | circuitOpen \<Rightarrow> cb)"

definition localRecordSuccess :: "breaker \<Rightarrow> breaker" where
  "localRecordSuccess cb =
     (case localState cb of
        circuitClosed \<Rightarrow> cb\<lparr>localFailures := 0\<rparr>
      | circuitHalfOpen \<Rightarrow>
          if localSuccesses cb + 1 \<ge> closeAfter cb
          then cb\<lparr>localState := circuitClosed, localFailures := 0, localSuccesses := 0, localHalfOpen := 0\<rparr>
          else cb\<lparr>localSuccesses := localSuccesses cb + 1\<rparr>
      | circuitOpen \<Rightarrow> cb\<lparr>localFailures := 0\<rparr>)"

definition IsOpen :: "'s redis option \<Rightarrow> call \<Rightarrow> int \<Rightarrow> 's \<Rightarrow> breaker \<Rightarrow> bool \<times> breaker" where
  "IsOpen rdb c now s cb =
     (case rdb of
        None \<Rightarrow> localIsOpen now cb
      | Some R \<Rightarrow>
          (case run c (\<lambda>s. (rGET R s (failuresKey cb), s)) s of
             (Some None, _) \<Rightarrow> (False, cb)
           | (Some (Some raw), _) \<Rightarrow>
               (case Atoi raw of
                  Some n \<Rightarrow> (n \<ge> failThreshold cb, cb)
                | None \<Rightarrow> localIsOpen now cb)
           | (None, _) \<Rightarrow> localIsOpen now cb))"

definition AllowRequest :: "'s redis option \<Rightarrow> call \<Rightarrow> int \<Rightarrow> 's \<Rightarrow> breaker \<Rightarrow> bool \<times> breaker" where
  "AllowRequest rdb c now s cb = (case IsOpen rdb c now s cb of (b, cb') \<Rightarrow> (\<not> b, cb'))"

text \<open>
  The time to live is \<open>openDuration.Seconds()\<close> truncated; for durations below ninety-seven days the
  conversion through \<open>float64\<close> is the integer quotient.
\<close>

definition ttlSeconds :: "breaker \<Rightarrow> int" where
  "ttlSeconds cb = (let sec = openDuration cb div 1000000000 in if sec \<le> 0 then 30 else sec)"

definition RecordFailure :: "'s redis option \<Rightarrow> call \<Rightarrow> int \<Rightarrow> breaker \<Rightarrow> 's \<Rightarrow> breaker \<times> 's" where
  "RecordFailure rdb c now cb s =
     (let cb' = localRecordFailure now cb in
      case rdb of
        None \<Rightarrow> (cb', s)
      | Some R \<Rightarrow> (cb', snd (run c (recordFailureLua R (failuresKey cb) (ttlSeconds cb)) s)))"

definition RecordSuccess :: "'s redis option \<Rightarrow> call \<Rightarrow> breaker \<Rightarrow> 's \<Rightarrow> breaker \<times> 's" where
  "RecordSuccess rdb c cb s =
     (let cb' = localRecordSuccess cb in
      case rdb of
        None \<Rightarrow> (cb', s)
      | Some R \<Rightarrow> (cb', snd (run c (\<lambda>s. ((), rDEL R (failuresKey cb) s)) s)))"

definition FailureCount :: "'s redis option \<Rightarrow> call \<Rightarrow> 's \<Rightarrow> breaker \<Rightarrow> int" where
  "FailureCount rdb c s cb =
     (case rdb of
        None \<Rightarrow> localFailures cb
      | Some R \<Rightarrow>
          (case run c (\<lambda>s. (rGET R s (failuresKey cb), s)) s of
             (Some (Some raw), _) \<Rightarrow> (case Atoi raw of Some n \<Rightarrow> n | None \<Rightarrow> 0)
           | _ \<Rightarrow> 0))"

section \<open>Backoff\<close>

definition backoffMaxShift :: int where "backoffMaxShift = 10"

definition backoffJitterMax :: "64 word" where "backoffJitterMax = 500 * 1000000"

text \<open>\<open>draw\<close> is what the random source returns for an upper bound, or nothing when it fails.\<close>

definition cryptoJitter :: "(64 word \<Rightarrow> 64 word option) \<Rightarrow> 64 word \<Rightarrow> 64 word" where
  "cryptoJitter draw m =
     (if m \<le>s 0 then 0 else case draw m of None \<Rightarrow> 0 | Some n \<Rightarrow> n)"

definition backoffDelay :: "(64 word \<Rightarrow> 64 word option) \<Rightarrow> int \<Rightarrow> 64 word \<Rightarrow> 64 word \<Rightarrow> 64 word" where
  "backoffDelay draw attempt0 base maxDelay =
     (let attempt = min (max attempt0 0) backoffMaxShift;
          delay0 = push_bit (nat attempt) base;
          delay = (if maxDelay <s delay0 \<or> delay0 \<le>s 0 then maxDelay else delay0);
          total = delay + cryptoJitter draw backoffJitterMax
      in if maxDelay <s total then maxDelay else total)"

section \<open>The local breaker\<close>

datatype breaker_op = Failed int | Succeeded | Asked int

fun breaker_exec :: "breaker_op \<Rightarrow> breaker \<Rightarrow> breaker" where
  "breaker_exec (Failed now) cb = localRecordFailure now cb"
| "breaker_exec Succeeded cb = localRecordSuccess cb"
| "breaker_exec (Asked now) cb = snd (localIsOpen now cb)"

definition breaker_ok :: "breaker \<Rightarrow> bool" where
  "breaker_ok cb \<longleftrightarrow> 0 < failThreshold cb \<and> 0 < closeAfter cb \<and> 0 < openDuration cb \<and>
     (case localState cb of
        circuitClosed \<Rightarrow> 0 \<le> localFailures cb \<and> localFailures cb < failThreshold cb
      | circuitOpen \<Rightarrow> localFailures cb = 0
      | circuitHalfOpen \<Rightarrow> localFailures cb = 0 \<and> 0 \<le> localSuccesses cb \<and> localSuccesses cb < closeAfter cb)"

lemma breaker_ok_new: "breaker_ok (NewRedisCircuitBreaker p opts)"
  by (simp add: breaker_ok_def NewRedisCircuitBreaker_def)

lemma breaker_ok_exec: "breaker_ok cb \<Longrightarrow> breaker_ok (breaker_exec op cb)"
  by (cases op; cases "localState cb")
    (auto simp: breaker_ok_def localRecordFailure_def localRecordSuccess_def localIsOpen_def Let_def)

lemma breaker_ok_fold: "breaker_ok cb \<Longrightarrow> breaker_ok (fold breaker_exec ops cb)"
  by (induction ops arbitrary: cb) (simp_all add: breaker_ok_exec)

lemma failures_open: "localState cb = circuitOpen \<Longrightarrow> fold localRecordFailure ts cb = cb"
  by (induction ts) (simp_all add: localRecordFailure_def)

lemma failures_closed:
  assumes "localState cb = circuitClosed" "localFailures cb + int (length ts) < failThreshold cb"
  shows "fold localRecordFailure ts cb = cb\<lparr>localFailures := localFailures cb + int (length ts)\<rparr>"
  using assms
proof (induction ts arbitrary: cb)
  case (Cons t ts)
  let ?cb = "cb\<lparr>localFailures := localFailures cb + 1\<rparr>"
  have "localRecordFailure t cb = ?cb" using Cons.prems by (simp add: localRecordFailure_def)
  then show ?case using Cons.IH [of ?cb] Cons.prems by (simp add: algebra_simps)
qed simp

lemma failures_trip:
  assumes "localState cb = circuitClosed" "localFailures cb = 0" "0 < failThreshold cb"
    and "failThreshold cb \<le> int (length ts)"
  shows "fold localRecordFailure ts cb =
    cb\<lparr>localState := circuitOpen, localOpenUntil := ts ! (nat (failThreshold cb) - 1) + openDuration cb, localFailures := 0\<rparr>"
proof -
  let ?n = "nat (failThreshold cb) - 1"
  have n: "?n < length ts" using assms(3,4) by linarith
  have len: "int (length (take ?n ts)) = failThreshold cb - 1" using assms(3,4) n by simp
  have "ts = take ?n ts @ ts ! ?n # drop (Suc ?n) ts" using n by (rule id_take_nth_drop)
  then have "fold localRecordFailure ts cb =
      fold localRecordFailure (drop (Suc ?n) ts) (localRecordFailure (ts ! ?n) (fold localRecordFailure (take ?n ts) cb))"
    by (metis fold_append fold_simps(2) comp_apply)
  also have "fold localRecordFailure (take ?n ts) cb = cb\<lparr>localFailures := failThreshold cb - 1\<rparr>"
    using failures_closed [of cb "take ?n ts"] assms(1,2) len by simp
  also have "localRecordFailure (ts ! ?n) (cb\<lparr>localFailures := failThreshold cb - 1\<rparr>) =
      cb\<lparr>localState := circuitOpen, localOpenUntil := ts ! ?n + openDuration cb, localFailures := 0\<rparr>"
    using assms(1) by (simp add: localRecordFailure_def)
  finally show ?thesis by (simp add: failures_open)
qed

text \<open>
  The local breaker opens exactly at the threshold. After any number of failures in a row it
  blocks precisely when at least the threshold of them have been recorded and the open duration since the
  one that reached the threshold is not over.
\<close>

theorem local_breaker_trips:
  fixes prefix :: string and opts :: breaker_opts
  defines "cb \<equiv> NewRedisCircuitBreaker prefix opts"
  shows "fst (localIsOpen now (fold localRecordFailure ts cb)) \<longleftrightarrow>
    failThreshold cb \<le> int (length ts) \<and> now \<le> ts ! (nat (failThreshold cb) - 1) + openDuration cb"
proof -
  have cb: "localState cb = circuitClosed" "localFailures cb = 0" "0 < failThreshold cb"
    by (simp_all add: cb_def NewRedisCircuitBreaker_def)
  show ?thesis
  proof (cases "failThreshold cb \<le> int (length ts)")
    case True
    then show ?thesis using failures_trip [OF cb True] by (auto simp: localIsOpen_def Let_def)
  next
    case False
    then show ?thesis using failures_closed [of cb ts] cb by (simp add: localIsOpen_def Let_def)
  qed
qed

lemma successes_close:
  assumes "localState cb = circuitHalfOpen" "closeAfter cb - localSuccesses cb \<le> int n" "localSuccesses cb < closeAfter cb"
  shows "localState ((localRecordSuccess ^^ n) cb) = circuitClosed"
  using assms
proof (induction n arbitrary: cb)
  case (Suc n)
  have closed: "localState ((localRecordSuccess ^^ m) cb') = circuitClosed" if "localState cb' = circuitClosed" for m cb'
    using that by (induction m arbitrary: cb') (simp_all add: funpow_swap1 localRecordSuccess_def)
  show ?case
  proof (cases "localSuccesses cb + 1 \<ge> closeAfter cb")
    case True
    then have "localState (localRecordSuccess cb) = circuitClosed" using Suc.prems by (simp add: localRecordSuccess_def)
    then show ?thesis using closed by (simp add: funpow_swap1)
  next
    case False
    then have "localRecordSuccess cb = cb\<lparr>localSuccesses := localSuccesses cb + 1\<rparr>"
      using Suc.prems by (simp add: localRecordSuccess_def)
    then show ?thesis using Suc.IH [of "cb\<lparr>localSuccesses := localSuccesses cb + 1\<rparr>"] Suc.prems False
      by (simp add: funpow_swap1)
  qed
qed simp

lemma closed_successes: "localState cb = circuitClosed \<Longrightarrow> localState ((localRecordSuccess ^^ n) cb) = circuitClosed"
  by (induction n) (simp_all add: localRecordSuccess_def)

text \<open>
  The local breaker always recovers. Whatever has happened to it, once its open time is over
  it lets a probe through, and as many successes as \<open>closeAfter\<close> demands close it.
\<close>

theorem local_breaker_recovers:
  fixes prefix :: string and opts :: breaker_opts and ops :: "breaker_op list"
  defines "cb \<equiv> fold breaker_exec ops (NewRedisCircuitBreaker prefix opts)"
  assumes "localOpenUntil cb < now"
  shows "\<not> fst (localIsOpen now cb) \<and>
    localState ((localRecordSuccess ^^ nat (closeAfter cb)) (snd (localIsOpen now cb))) = circuitClosed"
proof -
  have ok: "breaker_ok cb" unfolding cb_def by (intro breaker_ok_fold breaker_ok_new)
  have "localState (snd (localIsOpen now cb)) = circuitClosed \<or>
      localState (snd (localIsOpen now cb)) = circuitHalfOpen \<and> localSuccesses (snd (localIsOpen now cb)) < closeAfter cb \<and>
      0 \<le> localSuccesses (snd (localIsOpen now cb)) \<and> closeAfter (snd (localIsOpen now cb)) = closeAfter cb"
    using ok assms(2) by (cases "localState cb") (auto simp: breaker_ok_def localIsOpen_def Let_def)
  then show ?thesis
    using ok closed_successes successes_close [of "snd (localIsOpen now cb)" "nat (closeAfter cb)"]
    by (auto simp: localIsOpen_def Let_def breaker_ok_def)
qed

theorem local_breaker_recovers_witness:
  "localState ((localRecordSuccess ^^ 2) (snd (localIsOpen 31000000004
     (fold breaker_exec [Failed 1, Failed 2, Failed 3] (NewRedisCircuitBreaker ''cb'' \<lparr>FailThreshold = 3, OpenDuration = 0,
        HalfOpenMax = 0, CloseAfter = 2\<rparr>))))) = circuitClosed"
proof -
  let ?cb = "NewRedisCircuitBreaker ''cb'' \<lparr>FailThreshold = 3, OpenDuration = 0, HalfOpenMax = 0, CloseAfter = 2\<rparr>"
  have "localOpenUntil (fold breaker_exec [Failed 1, Failed 2, Failed 3] ?cb) < 31000000004"
    "nat (closeAfter (fold breaker_exec [Failed 1, Failed 2, Failed 3] ?cb)) = 2" by code_simp+
  then show ?thesis using local_breaker_recovers by metis
qed

section \<open>The shared counter\<close>

definition record_all :: "'s redis \<Rightarrow> (breaker \<times> int) list \<Rightarrow> 's \<Rightarrow> 's" where
  "record_all R calls s = fold (\<lambda>(cb, now) s. snd (RecordFailure (Some R) CallOk now cb s)) calls s"

context redis_server
begin

lemma recordFailureLua_new:
  assumes "ks_strings (view s) k = None" "0 < sec"
  shows "ks_strings (view (snd (recordFailureLua R k sec s))) = (ks_strings (view s))(k \<mapsto> Itoa 1)"
    "ks_ttl (view (snd (recordFailureLua R k sec s))) k = Some (1000 * sec)"
proof -
  obtain s1 where s1: "rINCR R k s = Some (1, s1)" "view s1 = (view s)\<lparr>ks_strings := (ks_strings (view s))(k \<mapsto> Itoa 1)\<rparr>"
    using incr_new [OF assms(1)] by metis
  then have "key_exists (view s1) k" by (simp add: key_exists_def)
  with s1 assms(2) show "ks_strings (view (snd (recordFailureLua R k sec s))) = (ks_strings (view s))(k \<mapsto> Itoa 1)"
    "ks_ttl (view (snd (recordFailureLua R k sec s))) k = Some (1000 * sec)"
    by (simp_all add: recordFailureLua_def rEXPIRE_def pexpire)
qed

lemma recordFailureLua_old:
  assumes "ks_strings (view s) k = Some (Itoa n)" "0 < n" "n < 2 ^ 63 - 1"
  shows "view (snd (recordFailureLua R k sec s)) = (view s)\<lparr>ks_strings := (ks_strings (view s))(k \<mapsto> Itoa (n + 1))\<rparr>"
proof -
  have "int64_range n" "int64_range (n + 1)" using assms(2,3) by (simp_all add: int64_range_def)
  then obtain s1 where "rINCR R k s = Some (n + 1, s1)"
    "view s1 = (view s)\<lparr>ks_strings := (ks_strings (view s))(k \<mapsto> Itoa (n + 1))\<rparr>"
    using incr_old [OF assms(1)] by metis
  then show ?thesis using assms(2) by (simp add: recordFailureLua_def)
qed

lemma record_all_more:
  assumes "ks_strings (view s) k = Some (Itoa n)" "0 < n" "n + int (length calls) < 2 ^ 63"
    and "\<forall>(cb, now) \<in> set calls. failuresKey cb = k"
  shows "ks_strings (view (record_all R calls s)) k = Some (Itoa (n + int (length calls)))"
  using assms
proof (induction calls arbitrary: s n)
  case (Cons c calls)
  obtain cb now where c: "c = (cb, now)" by fastforce
  let ?s = "snd (RecordFailure (Some R) CallOk now cb s)"
  have "ks_strings (view ?s) k = Some (Itoa (n + 1))"
    using recordFailureLua_old [of s k n "ttlSeconds cb"] Cons.prems c by (simp add: RecordFailure_def run_def Let_def)
  from Cons.IH [OF this] Cons.prems c show ?case by (simp add: record_all_def algebra_simps)
qed (simp add: record_all_def)

lemma record_all_count:
  assumes "ks_strings (view s) k = None" "int (length calls) < 2 ^ 63" "\<forall>(cb, now) \<in> set calls. failuresKey cb = k"
  shows "ks_strings (view (record_all R calls s)) k = (if calls = [] then None else Some (Itoa (int (length calls))))"
proof (cases calls)
  case (Cons c calls')
  obtain cb now where c: "c = (cb, now)" by fastforce
  let ?s = "snd (RecordFailure (Some R) CallOk now cb s)"
  have "0 < ttlSeconds cb" by (simp add: ttlSeconds_def Let_def)
  then have "ks_strings (view ?s) k = Some (Itoa 1)"
    using recordFailureLua_new(1) [of s k] assms Cons c by (simp add: RecordFailure_def run_def Let_def)
  from record_all_more [OF this] assms Cons c show ?thesis by (simp add: record_all_def algebra_simps)
qed (use assms in \<open>simp add: record_all_def\<close>)

end


definition ex_breaker :: breaker where
  "ex_breaker = NewRedisCircuitBreaker ''cb'' \<lparr>FailThreshold = 2, OpenDuration = 0, HalfOpenMax = 0, CloseAfter = 0\<rparr>"


text \<open>
  The time to live of the counter starts with the first failure, not with the one that opens the
  circuit: the circuit can close right after it has opened.
\<close>

lemma shared_breaker_short_open:
  assumes "redis_laws R view" "rGET R s k = None" "failuresKey cb = k" "failThreshold cb = 2" "openDuration cb = 30 * 1000000000"
    and s1: "s1 = record_all R [(cb, t1)] s"
    and gap: "lapse 29999 (view s1) (view s2)" and s3: "s3 = record_all R [(cb, t2)] s2"
  shows "fst (IsOpen (Some R) CallOk now s3 cb)"
    and "lapse 2 (view s3) (view s4) \<Longrightarrow> \<not> fst (IsOpen (Some R) CallOk now s4 cb)"
proof -
  note L = redis_server.intro [OF assms(1)]
  have none: "ks_strings (view s) k = None" using assms(2) by (simp add: redis_server.reads [OF L])
  have ttl: "ttlSeconds cb = 30" using assms(5) by (simp add: ttlSeconds_def)
  have 1: "ks_strings (view s1) k = Some (Itoa 1)" "ks_ttl (view s1) k = Some 30000"
    using redis_server.recordFailureLua_new [OF L none, of 30] ttl assms(3)
    by (simp_all add: s1 record_all_def RecordFailure_def run_def Let_def)
  then have 2: "ks_strings (view s2) k = Some (Itoa 1)" "ks_ttl (view s2) k = Some 1"
    using gap by (auto simp: lapse_def dest!: spec [of _ k])
  then have 3: "ks_strings (view s3) k = Some (Itoa 2)" "ks_ttl (view s3) k = Some 1"
    using redis_server.recordFailureLua_old [OF L 2(1)] ttl assms(3)
    by (simp_all add: s3 record_all_def RecordFailure_def run_def Let_def)
  then show "fst (IsOpen (Some R) CallOk now s3 cb)"
    using assms(3,4) by (simp add: IsOpen_def run_def redis_server.reads [OF L] int64_range_def)
  show "\<not> fst (IsOpen (Some R) CallOk now s4 cb)" if "lapse 2 (view s3) (view s4)"
  proof -
    have "ks_strings (view s4) k = None" using that 3 by (auto simp: lapse_def dest!: spec [of _ k])
    then show ?thesis using assms(3) by (simp add: IsOpen_def run_def redis_server.reads [OF L])
  qed
qed

section \<open>Backoff\<close>

definition in64 :: "int \<Rightarrow> bool" where
  "in64 i \<longleftrightarrow> - (2 ^ 63) \<le> i \<and> i < 2 ^ 63"

lemma sint_of_int64: "in64 i \<Longrightarrow> sint (word_of_int i :: 64 word) = i"
  by (simp add: in64_def signed_take_bit_int_eq_self sint_sbintrunc')

lemma sint_add64: "in64 (sint a + sint b) \<Longrightarrow> sint (a + b :: 64 word) = sint a + sint b"
  using sint_of_int64 [of "sint a + sint b"] by simp

lemma sint_push_bit64: "in64 (sint a * 2 ^ n) \<Longrightarrow> sint (push_bit n a :: 64 word) = sint a * 2 ^ n"
  using sint_of_int64 [of "sint a * 2 ^ n"] by (simp add: push_bit_eq_mult)

lemma sint64_range: "in64 (sint (w :: 64 word))"
  using sint_ge [of w] sint_lt [of w] by (simp add: in64_def)

definition draw_ok :: "(64 word \<Rightarrow> 64 word option) \<Rightarrow> bool" where
  "draw_ok draw \<longleftrightarrow> (\<forall>m n. draw m = Some n \<longrightarrow> 0 \<le> sint n \<and> sint n < sint m)"

lemma cryptoJitter_range:
  assumes "draw_ok draw" shows "0 \<le> sint (cryptoJitter draw backoffJitterMax) \<and> sint (cryptoJitter draw backoffJitterMax) < 500000000"
proof -
  have "sint backoffJitterMax = 500000000" by (simp add: backoffJitterMax_def)
  moreover have "draw backoffJitterMax = Some n \<Longrightarrow> 0 \<le> sint n \<and> sint n < sint backoffJitterMax" for n
    using assms unfolding draw_ok_def by blast
  ultimately show ?thesis by (auto simp: cryptoJitter_def split: option.split)
qed

lemma shift_small:
  assumes "0 < sint base" "sint base < 2 ^ 52" "n \<le> 10"
  shows "sint (push_bit n base :: 64 word) = sint base * 2 ^ n" "0 < sint base * 2 ^ n"
proof -
  have "(2 :: int) ^ n \<le> 2 ^ 10" using assms(3) by (intro power_increasing) auto
  then have "sint base * 2 ^ n \<le> 2 ^ 52 * 2 ^ 10" using assms by (intro mult_mono) auto
  moreover show pos: "0 < sint base * 2 ^ n" using assms by simp
  ultimately show "sint (push_bit n base :: 64 word) = sint base * 2 ^ n"
    by (intro sint_push_bit64) (simp add: in64_def)
qed

lemma clamp: "d = (if M < x \<or> x \<le> 0 then M else x) \<Longrightarrow> 0 \<le> j \<Longrightarrow> 0 < x \<Longrightarrow> min (d + j) M = min (x + j) (M :: int)"
  by auto

text \<open>
  C36. The backoff stays within its bounds at machine precision. For every attempt number and every base, also
  when the shift overflows, the delay is positive and at most the maximum, as long as the
  maximum leaves room for the jitter; and when the base can be shifted without overflow it
  is \<open>min (base * 2 ^ attempt + jitter) maxDelay\<close> with the exponent clamped to ten.
\<close>

theorem backoffDelay_bounds:
  assumes "draw_ok draw" "0 < sint maxDelay" "sint maxDelay < 2 ^ 63 - 500000000"
  shows "0 < sint (backoffDelay draw attempt base maxDelay) \<and>
    sint (backoffDelay draw attempt base maxDelay) \<le> sint maxDelay \<and>
    (0 < sint base \<and> sint base < 2 ^ 52 \<longrightarrow>
      sint (backoffDelay draw attempt base maxDelay) =
        min (sint base * 2 ^ nat (min (max attempt 0) 10) + sint (cryptoJitter draw backoffJitterMax)) (sint maxDelay))"
proof -
  let ?n = "nat (min (max attempt 0) 10)" and ?j = "cryptoJitter draw backoffJitterMax"
  define d where "d = (if maxDelay <s push_bit ?n base \<or> push_bit ?n base \<le>s 0 then maxDelay else push_bit ?n base)"
  define x where "x = sint (push_bit ?n base)"
  have sd: "sint d = (if sint maxDelay < x \<or> x \<le> 0 then sint maxDelay else x)"
    unfolding d_def x_def word_sless_alt word_sle_eq by simp
  then have d: "0 < sint d" "sint d \<le> sint maxDelay" using assms(2) by auto
  note j = cryptoJitter_range [OF assms(1)]
  have sum: "sint (d + ?j) = sint d + sint ?j" using d j assms(3) by (intro sint_add64) (simp add: in64_def)
  have b: "backoffDelay draw attempt base maxDelay = (if maxDelay <s d + ?j then maxDelay else d + ?j)"
    by (simp add: backoffDelay_def Let_def d_def backoffMaxShift_def)
  have eq: "sint (backoffDelay draw attempt base maxDelay) = min (sint d + sint ?j) (sint maxDelay)"
    unfolding b word_sless_alt sum by (simp add: sum)
  have formula: "min (sint d + sint ?j) (sint maxDelay) = min (sint base * 2 ^ ?n + sint ?j) (sint maxDelay)"
    if "0 < sint base" "sint base < 2 ^ 52"
  proof -
    have "?n \<le> 10" by simp
    note small = shift_small [OF that this]
    have "0 < x" unfolding x_def small(1) by (rule small(2))
    from clamp [OF sd conjunct1 [OF j] this] show ?thesis unfolding x_def small(1) .
  qed
  show ?thesis unfolding eq using d j assms(2) formula by (intro conjI impI) simp_all
qed

theorem backoffDelay_bounds_witness:
  "sint (backoffDelay (\<lambda>_. Some 7) 3 1000000000 30000000000) = 8000000007"
proof -
  have "cryptoJitter (\<lambda>m. if 7 <s m then Some 7 else None) backoffJitterMax = 7" by code_simp
  moreover have "draw_ok (\<lambda>m. if 7 <s m then Some 7 else None)" by (auto simp: draw_ok_def word_sless_alt split: if_splits)
  ultimately have "sint (backoffDelay (\<lambda>m. if 7 <s m then Some 7 else None) 3 1000000000 30000000000) = 8000000007"
    using backoffDelay_bounds [of "\<lambda>m. if 7 <s m then Some 7 else None" 30000000000 3 1000000000] by simp
  moreover have "backoffDelay (\<lambda>m. if 7 <s m then Some 7 else None) 3 1000000000 30000000000 =
      backoffDelay (\<lambda>_. Some 7) 3 1000000000 30000000000"
    by code_simp
  ultimately show ?thesis by simp
qed

end
