(* ===== verification/Go_Base64.thy ===== *)
theory Go_Base64
  imports Go_Strings
begin

text \<open>
  Unpadded Base64 of Go's \<open>encoding/base64\<close> (\<open>RawURLEncoding\<close> and \<open>RawStdEncoding\<close>), which the job
  store uses to build keys and to store digests: encoding, decoding as \<open>DecodeString\<close> does it
  (line breaks are skipped, the unused low bits of the last group are ignored), and the proof that
  decoding inverts encoding.
\<close>

section \<open>Alphabets\<close>

definition alphabet :: "string \<Rightarrow> string" where
  "alphabet last2 = ''ABCDEFGHIJKLMNOPQRSTUVWXYZabcdefghijklmnopqrstuvwxyz0123456789'' @ last2"

definition URLAlphabet :: string where "URLAlphabet = alphabet ''-_''"

definition StdAlphabet :: string where "StdAlphabet = alphabet ''+/''"

fun index_of :: "char \<Rightarrow> string \<Rightarrow> nat option" where
  "index_of c [] = None"
| "index_of c (x # xs) = (if x = c then Some 0 else map_option Suc (index_of c xs))"

section \<open>Encoding\<close>

definition byte :: "char \<Rightarrow> nat" where "byte c = of_char c"

definition sextets :: "nat \<Rightarrow> nat list" where
  "sextets n = [n div 262144, n div 4096 mod 64, n div 64 mod 64, n mod 64]"

fun b64_encode :: "string \<Rightarrow> string \<Rightarrow> string" where
  "b64_encode al (a # b # c # r) =
     map ((!) al) (sextets (byte a * 65536 + byte b * 256 + byte c)) @ b64_encode al r"
| "b64_encode al [a, b] = take 3 (map ((!) al) (sextets (byte a * 65536 + byte b * 256)))"
| "b64_encode al [a] = take 2 (map ((!) al) (sextets (byte a * 65536)))"
| "b64_encode al [] = []"

section \<open>Decoding\<close>

fun b64_groups :: "nat list \<Rightarrow> string option" where
  "b64_groups [] = Some []"
| "b64_groups [x] = None"
| "b64_groups [x, y] = Some [char_of ((x * 262144 + y * 4096) div 65536)]"
| "b64_groups [x, y, z] =
     (let n = x * 262144 + y * 4096 + z * 64 in Some [char_of (n div 65536), char_of (n div 256 mod 256)])"
| "b64_groups (x # y # z # w # r) =
     (let n = x * 262144 + y * 4096 + z * 64 + w in
      map_option (\<lambda>s. char_of (n div 65536) # char_of (n div 256 mod 256) # char_of (n mod 256) # s) (b64_groups r))"

definition b64_decode :: "string \<Rightarrow> string \<Rightarrow> string option" where
  "b64_decode al s =
     (let ds = map (\<lambda>c. index_of c al) (filter (\<lambda>c. c \<noteq> CHR 0x0A \<and> c \<noteq> CHR 0x0D) s)
      in if None \<in> set ds then None else b64_groups (map the ds))"

section \<open>Round trip\<close>

lemma byte_lt [simp]: "byte c < 256"
  by (simp add: byte_def)

lemma char_of_byte [simp]: "char_of (byte c) = c"
  by (simp add: byte_def)

lemma index_of_nth: "distinct al \<Longrightarrow> i < length al \<Longrightarrow> index_of (al ! i) al = Some i"
proof (induction al arbitrary: i)
  case (Cons x al)
  then show ?case by (cases i) auto
qed simp

lemma sextets_lt: "n < 16777216 \<Longrightarrow> \<forall>d \<in> set (sextets n). d < 64"
  by (auto simp: sextets_def)

lemma sextets_sum: "n div 262144 * 262144 + n div 4096 mod 64 * 4096 + n div 64 mod 64 * 64 + n mod 64 = (n :: nat)"
proof -
  have "n = n div 64 * 64 + n mod 64" by simp
  moreover have "n div 64 = n div 4096 * 64 + n div 64 mod 64" using div_mult_mod_eq [of "n div 64" 64] by (simp add: div_mult2_eq [symmetric])
  moreover have "n div 4096 = n div 262144 * 64 + n div 4096 mod 64"
    using div_mult_mod_eq [of "n div 4096" 64] by (simp add: div_mult2_eq [symmetric])
  ultimately show ?thesis by linarith
qed

text \<open>The encoder as a list of sextets, read back by the decoder.\<close>

fun encode_sextets :: "string \<Rightarrow> nat list" where
  "encode_sextets (a # b # c # r) = sextets (byte a * 65536 + byte b * 256 + byte c) @ encode_sextets r"
| "encode_sextets [a, b] = take 3 (sextets (byte a * 65536 + byte b * 256))"
| "encode_sextets [a] = take 2 (sextets (byte a * 65536))"
| "encode_sextets [] = []"

lemma b64_encode_sextets: "b64_encode al s = map ((!) al) (encode_sextets s)"
  by (induction al s rule: b64_encode.induct) (simp_all add: take_map)

lemma bytes_of_sum:
  assumes "a < 256" "b < 256" "c < 256"
  shows "(a * 65536 + b * 256 + c) div 65536 = (a :: nat)" "(a * 65536 + b * 256 + c) div 256 mod 256 = b"
    "(a * 65536 + b * 256 + c) mod 256 = c" "a * 65536 + b * 256 + c < 16777216"
proof -
  show "(a * 65536 + b * 256 + c) div 65536 = a" using assms by linarith
  have "(a * 65536 + b * 256 + c) div 256 = a * 256 + b" using assms by linarith
  then show "(a * 65536 + b * 256 + c) div 256 mod 256 = b" using assms by simp
  have "(a * 65536 + b * 256 + c) mod 256 = (c + 256 * (a * 256 + b)) mod 256" by (simp add: algebra_simps)
  then show "(a * 65536 + b * 256 + c) mod 256 = c" using assms by (simp only: mod_mult_self2) simp
  show "a * 65536 + b * 256 + c < 16777216" using assms by linarith
qed

lemma chars_of_sum:
  "char_of ((byte a * 65536 + byte b * 256 + byte c) div 65536) = a"
  "char_of ((byte a * 65536 + byte b * 256 + byte c) div 256) = b"
  "char_of (byte a * 65536 + byte b * 256 + byte c) = c"
proof -
  note n = bytes_of_sum [OF byte_lt [of a] byte_lt [of b] byte_lt [of c]]
  show "char_of ((byte a * 65536 + byte b * 256 + byte c) div 65536) = a" by (simp only: n char_of_byte)
  show "char_of ((byte a * 65536 + byte b * 256 + byte c) div 256) = b" by (metis n(2) char_of_byte char_of_mod_256)
  show "char_of (byte a * 65536 + byte b * 256 + byte c) = c" by (metis n(3) char_of_byte char_of_mod_256)
qed

lemma encode_sextets_lt: "d \<in> set (encode_sextets s) \<Longrightarrow> d < 64"
proof (induction s rule: encode_sextets.induct)
  case (1 a b c r)
  then show ?case using sextets_lt [OF bytes_of_sum(4) [of "byte a" "byte b" "byte c"]] by auto
next
  case (2 a b)
  then show ?case using sextets_lt [OF bytes_of_sum(4) [of "byte a" "byte b" 0]] set_take_subset by fastforce
next
  case (3 a)
  then show ?case using sextets_lt [OF bytes_of_sum(4) [of "byte a" 0 0]] set_take_subset by fastforce
qed simp

lemma groups_step:
  "b64_groups (sextets n @ r) =
     map_option (\<lambda>s. char_of (n div 65536) # char_of (n div 256) # char_of n # s) (b64_groups r)"
proof -
  have "b64_groups (x # y # z # w # r) =
      map_option (\<lambda>s. char_of (m div 65536) # char_of (m div 256) # char_of m # s) (b64_groups r)"
    if "x * 262144 + y * 4096 + z * 64 + w = m" for x y z w m
    using that by (simp only: b64_groups.simps Let_def char_of_mod_256)
  from this [OF sextets_sum [of n]] show ?thesis by (simp only: sextets_def append.simps)
qed

lemma groups_two:
  assumes "n mod 64 = 0"
  shows "b64_groups (take 3 (sextets n)) = Some [char_of (n div 65536), char_of (n div 256)]"
proof -
  have "n div 262144 * 262144 + n div 4096 mod 64 * 4096 + n div 64 mod 64 * 64 = n" using sextets_sum [of n] assms by linarith
  moreover have "take 3 (sextets n) = [n div 262144, n div 4096 mod 64, n div 64 mod 64]" by (simp add: sextets_def)
  ultimately show ?thesis by (simp only: b64_groups.simps Let_def char_of_mod_256)
qed

lemma groups_one:
  assumes "n mod 64 = 0" "n div 64 mod 64 = 0"
  shows "b64_groups (take 2 (sextets n)) = Some [char_of (n div 65536)]"
proof -
  have "n div 262144 * 262144 + n div 4096 mod 64 * 4096 = n" using sextets_sum [of n] assms by linarith
  moreover have "take 2 (sextets n) = [n div 262144, n div 4096 mod 64]" by (simp add: sextets_def)
  ultimately show ?thesis by (simp only: b64_groups.simps)
qed

lemma groups_encode: "b64_groups (encode_sextets s) = Some s"
proof (induction s rule: encode_sextets.induct)
  case (1 a b c r)
  then show ?case by (simp only: encode_sextets.simps groups_step chars_of_sum option.map)
next
  case (2 a b)
  have n: "byte a * 65536 + byte b * 256 = 64 * (byte a * 1024 + byte b * 4)" by simp
  have "(byte a * 65536 + byte b * 256) mod 64 = 0" unfolding n by (rule mod_mult_self1_is_0)
  moreover have "char_of ((byte a * 65536 + byte b * 256) div 65536) = a" "char_of ((byte a * 65536 + byte b * 256) div 256) = b"
    using chars_of_sum(1,2) [of a b "CHR 0x00"] by (simp_all add: byte_def)
  ultimately show ?case by (simp only: encode_sextets.simps groups_two)
next
  case (3 a)
  have n: "byte a * 65536 = 64 * (byte a * 1024)" "byte a * 1024 = 64 * (byte a * 16)" by simp_all
  have "(byte a * 65536) mod 64 = 0" unfolding n(1) by (rule mod_mult_self1_is_0)
  moreover have "byte a * 65536 div 64 mod 64 = 0" by simp
  moreover have "char_of (byte a * 65536 div 65536) = a" by simp
  ultimately show ?case by (simp only: encode_sextets.simps groups_one)
qed simp

definition b64_alphabet :: "string \<Rightarrow> bool" where
  "b64_alphabet al \<longleftrightarrow> distinct al \<and> length al = 64 \<and> CHR 0x0A \<notin> set al \<and> CHR 0x0D \<notin> set al"

lemma b64_alphabets [simp]: "b64_alphabet URLAlphabet" "b64_alphabet StdAlphabet"
  by code_simp+

lemma b64_roundtrip: "b64_alphabet al \<Longrightarrow> b64_decode al (b64_encode al s) = Some s"
proof -
  assume al: "b64_alphabet al"
  have lt: "d < length al" if "d \<in> set (encode_sextets s)" for d
    using encode_sextets_lt [OF that] al by (simp add: b64_alphabet_def)
  then have "filter (\<lambda>c. c \<noteq> CHR 0x0A \<and> c \<noteq> CHR 0x0D) (b64_encode al s) = b64_encode al s"
    using al nth_mem by (fastforce simp: b64_alphabet_def b64_encode_sextets intro: filter_True)
  moreover have "map (\<lambda>c. index_of c al) (b64_encode al s) = map Some (encode_sextets s)"
    using lt al by (simp add: b64_encode_sextets index_of_nth b64_alphabet_def)
  ultimately show ?thesis by (simp add: b64_decode_def Let_def groups_encode o_def image_iff)
qed

lemma b64_encode_inject: "b64_alphabet al \<Longrightarrow> b64_encode al s = b64_encode al t \<longleftrightarrow> s = t"
  by (metis b64_roundtrip option.inject)

lemma b64_encode_chars: "b64_alphabet al \<Longrightarrow> set (b64_encode al s) \<subseteq> set al"
  using encode_sextets_lt by (fastforce simp: b64_encode_sextets b64_alphabet_def)

section \<open>Evaluation\<close>

text \<open>Code equations over binary integers, so that concrete strings are encoded and decoded quickly.\<close>

definition sextets_int :: "int \<Rightarrow> nat list" where
  "sextets_int n = [nat (n div 262144), nat (n div 4096 mod 64), nat (n div 64 mod 64), nat (n mod 64)]"

lemma sextets_int: "sextets n = sextets_int (int n)"
proof -
  have "nat (int n div 262144) = n div 262144" "nat (int n div 4096 mod 64) = n div 4096 mod 64"
    "nat (int n div 64 mod 64) = n div 64 mod 64" "nat (int n mod 64) = n mod 64"
    by (simp_all add: nat_div_distrib nat_mod_distrib)
  then show ?thesis by (simp only: sextets_def sextets_int_def)
qed

lemma int_byte: "int (byte c) = of_char c"
  by (cases c) (simp add: byte_def of_char_def)

lemma b64_encode_code [code]:
  "b64_encode al (a # b # c # r) =
     map ((!) al) (sextets_int (of_char a * 65536 + of_char b * 256 + of_char c)) @ b64_encode al r"
  "b64_encode al [a, b] = take 3 (map ((!) al) (sextets_int (of_char a * 65536 + of_char b * 256)))"
  "b64_encode al [a] = take 2 (map ((!) al) (sextets_int (of_char a * 65536)))"
  "b64_encode al [] = []"
  by (simp_all only: b64_encode.simps sextets_int of_nat_add of_nat_mult of_nat_numeral int_byte)

lemma char_of_int: "char_of n = char_of (int n)"
  by (simp add: char_of_def bit_of_nat_iff)

lemma b64_groups_code [code]:
  "b64_groups [] = Some []"
  "b64_groups [x] = None"
  "b64_groups [x, y] = Some [char_of ((int x * 262144 + int y * 4096) div 65536)]"
  "b64_groups [x, y, z] =
     (let n = int x * 262144 + int y * 4096 + int z * 64 in Some [char_of (n div 65536), char_of (n div 256 mod 256)])"
  "b64_groups (x # y # z # w # r) =
     (let n = int x * 262144 + int y * 4096 + int z * 64 + int w in
      map_option (\<lambda>s. char_of (n div 65536) # char_of (n div 256 mod 256) # char_of (n mod 256) # s) (b64_groups r))"
  by (simp_all only: b64_groups.simps char_of_int Let_def of_nat_add of_nat_mult of_nat_numeral of_nat_div of_nat_mod)

end
