(* ===== verification/Job_States.thy ===== *)
theory Job_States
  imports Go_Strings
begin

text \<open>
  The lifecycle of a job: the states of \<open>core/model/job.go\<close>, the transition table of
  \<open>core/infra/store/job_store.go\<close>, and what the table allows. A state is a string, as in the code.
\<close>

section \<open>States\<close>

definition JobStatePending :: string where "JobStatePending = ''PENDING''"
definition JobStateApproval :: string where "JobStateApproval = ''APPROVAL_REQUIRED''"
definition JobStateScheduled :: string where "JobStateScheduled = ''SCHEDULED''"
definition JobStateDispatched :: string where "JobStateDispatched = ''DISPATCHED''"
definition JobStateRunning :: string where "JobStateRunning = ''RUNNING''"
definition JobStateRetrying :: string where "JobStateRetrying = ''RETRYING''"
definition JobStateSucceeded :: string where "JobStateSucceeded = ''SUCCEEDED''"
definition JobStateFailed :: string where "JobStateFailed = ''FAILED''"
definition JobStateCancelled :: string where "JobStateCancelled = ''CANCELLED''"
definition JobStateTimeout :: string where "JobStateTimeout = ''TIMEOUT''"
definition JobStateDenied :: string where "JobStateDenied = ''DENIED''"
definition JobStateQuarantined :: string where "JobStateQuarantined = ''OUTPUT_QUARANTINED''"

lemmas job_state_defs = JobStatePending_def JobStateApproval_def JobStateScheduled_def JobStateDispatched_def
  JobStateRunning_def JobStateRetrying_def JobStateSucceeded_def JobStateFailed_def JobStateCancelled_def
  JobStateTimeout_def JobStateDenied_def JobStateQuarantined_def

definition terminalStates :: "string list" where
  "terminalStates = [JobStateSucceeded, JobStateFailed, JobStateCancelled, JobStateTimeout, JobStateDenied, JobStateQuarantined]"

definition allowedTransitions :: "string list gomap" where
  "allowedTransitions =
     [([], [JobStatePending, JobStateApproval, JobStateScheduled, JobStateDispatched, JobStateRunning, JobStateFailed,
            JobStateCancelled]),
      (JobStatePending, [JobStateApproval, JobStateScheduled, JobStateDispatched, JobStateRunning, JobStateDenied,
            JobStateFailed, JobStateTimeout, JobStateSucceeded, JobStateCancelled, JobStateRetrying]),
      (JobStateApproval, [JobStatePending, JobStateScheduled, JobStateDispatched, JobStateRunning, JobStateDenied,
            JobStateFailed, JobStateTimeout, JobStateSucceeded, JobStateCancelled]),
      (JobStateScheduled, [JobStateScheduled, JobStateDispatched, JobStateRunning, JobStateDenied, JobStateFailed,
            JobStateTimeout, JobStateSucceeded, JobStateCancelled, JobStateQuarantined, JobStateRetrying]),
      (JobStateDispatched, [JobStateScheduled, JobStateRunning, JobStateSucceeded, JobStateFailed, JobStateCancelled,
            JobStateTimeout, JobStateQuarantined, JobStateRetrying]),
      (JobStateRunning, [JobStateRunning, JobStateSucceeded, JobStateFailed, JobStateCancelled, JobStateTimeout,
            JobStateQuarantined, JobStateRetrying]),
      (JobStateRetrying, [JobStateScheduled, JobStateDispatched, JobStateRunning, JobStateRetrying, JobStateSucceeded,
            JobStateFailed, JobStateCancelled, JobStateTimeout]),
      (JobStateSucceeded, [JobStateQuarantined]),
      (JobStateFailed, []), (JobStateCancelled, []), (JobStateTimeout, []), (JobStateDenied, []),
      (JobStateQuarantined, [])]"

definition containsJobState :: "string list \<Rightarrow> string \<Rightarrow> bool" where
  "containsJobState states target = (target \<in> set states)"

definition isAllowedTransition :: "string \<Rightarrow> string \<Rightarrow> bool" where
  "isAllowedTransition from to =
     (case map_of allowedTransitions from of None \<Rightarrow> False | Some targets \<Rightarrow> to \<in> set targets)"

definition isActiveState :: "string \<Rightarrow> bool" where
  "isActiveState state = (state \<noteq> [] \<and> state \<notin> set terminalStates)"

definition projectedJobStates :: "string list" where
  "projectedJobStates =
     [JobStatePending, JobStateApproval, JobStateScheduled, JobStateDispatched, JobStateRunning, JobStateRetrying,
      JobStateSucceeded, JobStateFailed, JobStateCancelled, JobStateTimeout, JobStateDenied, JobStateQuarantined]"

section \<open>What the table allows\<close>

lemma allowed_target_known: "isAllowedTransition from to \<Longrightarrow> to \<in> set projectedJobStates"
proof -
  have "\<forall>(a, bs) \<in> set allowedTransitions. set bs \<subseteq> set projectedJobStates" by code_simp
  then show "isAllowedTransition from to \<Longrightarrow> to \<in> set projectedJobStates"
    by (force simp: isAllowedTransition_def dest: map_of_SomeD split: option.splits)
qed

lemma allowed_source_known: "isAllowedTransition from to \<Longrightarrow> from = [] \<or> from \<in> set projectedJobStates"
proof -
  have "\<forall>a \<in> fst ` set allowedTransitions. a = [] \<or> a \<in> set projectedJobStates" by code_simp
  then show "isAllowedTransition from to \<Longrightarrow> from = [] \<or> from \<in> set projectedJobStates"
    by (force simp: isAllowedTransition_def dest: map_of_SomeD split: option.splits)
qed

lemma known_not_empty: "[] \<notin> set projectedJobStates"
  by code_simp

lemma terminal_known: "set terminalStates \<subseteq> set projectedJobStates"
  by code_simp

lemma distinct_known: "distinct projectedJobStates"
  by code_simp

lemma terminal_final:
  "from \<in> set terminalStates \<Longrightarrow> isAllowedTransition from to \<longleftrightarrow> from = JobStateSucceeded \<and> to = JobStateQuarantined"
proof -
  have "\<forall>f \<in> set terminalStates. map_of allowedTransitions f = Some (if f = JobStateSucceeded then [JobStateQuarantined] else [])"
    by code_simp
  then show "from \<in> set terminalStates \<Longrightarrow> isAllowedTransition from to \<longleftrightarrow> from = JobStateSucceeded \<and> to = JobStateQuarantined"
    by (auto simp: isAllowedTransition_def)
qed

lemma active_not_stuck:
  "state \<in> set projectedJobStates \<Longrightarrow> isActiveState state \<Longrightarrow>
   isAllowedTransition state JobStateCancelled \<and> isAllowedTransition state JobStateSucceeded \<and> isAllowedTransition state JobStateFailed"
proof -
  have "\<forall>s \<in> set projectedJobStates. isActiveState s \<longrightarrow>
      isAllowedTransition s JobStateCancelled \<and> isAllowedTransition s JobStateSucceeded \<and> isAllowedTransition s JobStateFailed"
    by code_simp
  then show "state \<in> set projectedJobStates \<Longrightarrow> isActiveState state \<Longrightarrow>
   isAllowedTransition state JobStateCancelled \<and> isAllowedTransition state JobStateSucceeded \<and> isAllowedTransition state JobStateFailed"
    by blast
qed

text \<open>A lifecycle is a walk through the table.\<close>

fun lifecycle :: "string \<Rightarrow> string list \<Rightarrow> bool" where
  "lifecycle s [] = True"
| "lifecycle s (t # ts) = (isAllowedTransition s t \<and> lifecycle t ts)"

lemma lifecycle_snoc: "lifecycle s (ts @ [t]) \<longleftrightarrow> lifecycle s ts \<and> isAllowedTransition (last (s # ts)) t"
  by (induction ts arbitrary: s) auto

lemma lifecycle_terminal:
  "lifecycle s ts \<Longrightarrow> s \<in> set terminalStates \<Longrightarrow> ts = [] \<or> s = JobStateSucceeded \<and> ts = [JobStateQuarantined]"
proof (cases ts)
  case (Cons t ts')
  assume s: "lifecycle s ts" "s \<in> set terminalStates"
  have q: "JobStateQuarantined \<in> set terminalStates" "JobStateQuarantined \<noteq> JobStateSucceeded" by code_simp+
  have "s = JobStateSucceeded" "t = JobStateQuarantined" using s Cons terminal_final by auto
  moreover have "ts' = []" using s Cons q calculation terminal_final by (cases ts') auto
  ultimately show ?thesis using Cons by simp
qed simp

end
