(* ===== verification/Job_Runtime.thy ===== *)
theory Job_Runtime
  imports Redis Go_Base64 Job_States
begin

text \<open>
  The runtime record of a job, from \<open>core/infra/store\<close> (\<open>job_event_store.go\<close>, \<open>job_event_fence.go\<close>,
  \<open>job_runtime_state.go\<close> and the dispatch operations of \<open>job_store.go\<close>). One Redis hash per job
  holds its state, the fence of the current dispatch (dispatch id, attempt, worker, tenant), the
  digest of every accepted event and the effects that wait for their acknowledgement. Each script
  is one atomic step; a Go operation is a sequence of calls, of which each can fail or lose its reply.

  The main results: an event of a superseded, rolled back or cancelled dispatch is never accepted,
  and the result of a message is applied at most once, however the operations interleave.
\<close>

section \<open>Keys and fields\<close>

definition metaFieldDispatchID :: string where "metaFieldDispatchID = ''dispatch_id''"
definition metaFieldDispatchAttempt :: string where "metaFieldDispatchAttempt = ''dispatch_attempt''"
definition metaFieldDispatchWorkerID :: string where "metaFieldDispatchWorkerID = ''dispatch_worker_id''"
definition metaFieldDispatchTenant :: string where "metaFieldDispatchTenant = ''dispatch_tenant''"
definition runtimeStateField :: string where "runtimeStateField = ''state''"
definition runtimeResultField :: string where "runtimeResultField = ''result_ptr''"
definition runtimeEventPrefix :: string where "runtimeEventPrefix = ''event:''"
definition runtimeEffectPrefix :: string where "runtimeEffectPrefix = ''effect:''"

lemmas field_defs = metaFieldDispatchID_def metaFieldDispatchAttempt_def metaFieldDispatchWorkerID_def
  metaFieldDispatchTenant_def runtimeStateField_def runtimeResultField_def runtimeEventPrefix_def runtimeEffectPrefix_def

definition jobRuntimeKey :: "string \<Rightarrow> string" where
  "jobRuntimeKey jobID = ''job:{'' @ b64_encode URLAlphabet jobID @ ''}:runtime''"

definition jobDispatchEventsKey :: "string \<Rightarrow> string \<Rightarrow> string" where
  "jobDispatchEventsKey jobID dispatchID = jobRuntimeKey jobID"

definition jobMetaKey :: "string \<Rightarrow> string" where
  "jobMetaKey jobID = ''job:meta:'' @ jobID"

definition jobStateKey :: "string \<Rightarrow> string" where
  "jobStateKey jobID = ''job:state:'' @ jobID"

text \<open>The job id inside a runtime key.\<close>

definition runtimeJobID :: "string \<Rightarrow> string option" where
  "runtimeJobID key =
     (case (IndexByte key (CHR ''{''), IndexByte key (CHR ''}'')) of
        (Some start, Some stop) \<Rightarrow>
          if stop \<le> start + 1 then None
          else b64_decode URLAlphabet (take (stop - (start + 1)) (drop (start + 1) key))
      | _ \<Rightarrow> None)"

definition runtimeTTLSeconds :: "int \<Rightarrow> int" where
  "runtimeTTLSeconds metaTTL = (if metaTTL > 0 then max 1 (metaTTL div 1000000000) else 604800)"

section \<open>Scripts\<close>

record fence =
  fe_dispatchID :: string
  fe_attempt :: int
  fe_workerID :: string
  fe_tenant :: string

definition fenceMatches :: "'s redis \<Rightarrow> string \<Rightarrow> fence \<Rightarrow> 's \<Rightarrow> bool" where
  "fenceMatches R key fe s \<longleftrightarrow>
     rHGET R s key metaFieldDispatchID = Some (fe_dispatchID fe) \<and>
     rHGET R s key metaFieldDispatchAttempt = Some (Itoa (fe_attempt fe)) \<and>
     rHGET R s key metaFieldDispatchWorkerID = Some (fe_workerID fe) \<and>
     rHGET R s key metaFieldDispatchTenant = Some (fe_tenant fe)"

definition beginDispatchScript :: "'s redis \<Rightarrow> string \<Rightarrow> string \<Rightarrow> string \<Rightarrow> string \<Rightarrow> int \<Rightarrow> 's \<Rightarrow> int option \<times> 's" where
  "beginDispatchScript R key dispatchID workerID tenant sec s =
     (case rHINCRBY R key metaFieldDispatchAttempt 1 s of
        None \<Rightarrow> (None, s)
      | Some (attempt, s1) \<Rightarrow>
          (Some attempt,
           rEXPIRE R key sec (rHSET R key metaFieldDispatchTenant tenant (rHSET R key metaFieldDispatchWorkerID workerID
             (rHSET R key metaFieldDispatchID dispatchID s1)))))"

definition acceptJobEventScript :: "'s redis \<Rightarrow> string \<Rightarrow> fence \<Rightarrow> string \<Rightarrow> int \<Rightarrow> 's \<Rightarrow> int \<times> 's" where
  "acceptJobEventScript R key fe eventMessageID sec s =
     (if \<not> fenceMatches R key fe s then (0, s)
      else case rHSETNX R key (''event:'' @ eventMessageID) eventMessageID s of
          (added, s1) \<Rightarrow> (if added then 1 else 0, rEXPIRE R key sec s1))"

definition acceptSignedJobEventScript ::
    "'s redis \<Rightarrow> string \<Rightarrow> fence \<Rightarrow> string \<Rightarrow> string \<Rightarrow> int \<Rightarrow> 's \<Rightarrow> int \<times> 's" where
  "acceptSignedJobEventScript R key fe eventField digest sec s =
     (if \<not> fenceMatches R key fe s then (0, s)
      else if rHGET R s key ''state'' \<notin> {Some ''DISPATCHED'', Some ''RUNNING''} then (0, s)
      else case rHGET R s key eventField of
          Some prior \<Rightarrow> (if prior = digest then 2 else -1, s)
        | None \<Rightarrow> (1, rEXPIRE R key sec (rHSET R key eventField digest s)))"

definition cancelAllJobAttemptsScript :: "'s redis \<Rightarrow> string \<Rightarrow> int \<Rightarrow> 's \<Rightarrow> string \<times> 's" where
  "cancelAllJobAttemptsScript R key sec s =
     (case rHGET R s key runtimeStateField of
        Some state \<Rightarrow>
          if state \<in> {''SUCCEEDED'', ''FAILED'', ''CANCELLED'', ''TIMEOUT'', ''DENIED'', ''QUARANTINED''}
          then (state, rEXPIRE R key sec s)
          else (JobStateCancelled, rEXPIRE R key sec
                 (rHDEL R key metaFieldDispatchTenant (rHDEL R key metaFieldDispatchWorkerID (rHDEL R key metaFieldDispatchID
                   (rHSET R key runtimeStateField JobStateCancelled s)))))
      | None \<Rightarrow>
          (JobStateCancelled, rEXPIRE R key sec
             (rHDEL R key metaFieldDispatchTenant (rHDEL R key metaFieldDispatchWorkerID (rHDEL R key metaFieldDispatchID
               (rHSET R key runtimeStateField JobStateCancelled s))))))"

definition rollbackDispatchScript :: "'s redis \<Rightarrow> string \<Rightarrow> string \<Rightarrow> int \<Rightarrow> 's \<Rightarrow> int \<times> 's" where
  "rollbackDispatchScript R key dispatchID attempt s =
     (if rHGET R s key metaFieldDispatchID \<noteq> Some dispatchID then (0, s)
      else if rHGET R s key metaFieldDispatchAttempt \<noteq> Some (Itoa attempt) then (0, s)
      else (1, rHDEL R key metaFieldDispatchTenant (rHDEL R key metaFieldDispatchWorkerID (rHDEL R key metaFieldDispatchID
                 (rHSET R key ''state'' JobStateScheduled s)))))"

definition setIfPresent :: "'s redis \<Rightarrow> string \<Rightarrow> string \<Rightarrow> string \<Rightarrow> 's \<Rightarrow> 's" where
  "setIfPresent R key field value s = (if value \<noteq> [] then snd (rHSETNX R key field value s) else s)"

definition migrateRuntimeFenceScript :: "'s redis \<Rightarrow> string \<Rightarrow> string gomap \<Rightarrow> int \<Rightarrow> 's \<Rightarrow> int \<times> 's" where
  "migrateRuntimeFenceScript R key legacy sec s =
     (1, rEXPIRE R key sec (fold (\<lambda>field. setIfPresent R key field (mget legacy field))
        [''state'', metaFieldDispatchID, metaFieldDispatchAttempt, metaFieldDispatchWorkerID, metaFieldDispatchTenant] s))"

record job_result =
  ap_JobID :: string
  ap_fence :: fence
  ap_MessageID :: string
  ap_Digest :: string
  ap_Effect :: string
  ap_State :: string
  ap_ResultPtr :: string

definition eventID :: "string \<Rightarrow> string" where
  "eventID messageID = b64_encode URLAlphabet messageID"

definition applyJobResultScript :: "'s redis \<Rightarrow> string \<Rightarrow> job_result \<Rightarrow> int \<Rightarrow> 's \<Rightarrow> int \<times> 's" where
  "applyJobResultScript R key a sec s =
     (let eventField = runtimeEventPrefix @ eventID (ap_MessageID a);
          effectField = runtimeEffectPrefix @ eventID (ap_MessageID a);
          digest = b64_encode StdAlphabet (ap_Digest a)
      in if \<not> fenceMatches R key (ap_fence a) s then (0, s)
         else case rHGET R s key eventField of
             Some prior \<Rightarrow> (if prior = digest then 2 else -1, s)
           | None \<Rightarrow>
               if rHGET R s key runtimeStateField \<notin> {Some ''DISPATCHED'', Some ''RUNNING''} then (0, s)
               else let s1 = rHSET R key effectField (b64_encode StdAlphabet (ap_Effect a))
                               (rHSET R key runtimeStateField (ap_State a) (rHSET R key eventField digest s));
                        s2 = (if ap_ResultPtr a \<noteq> [] then rHSET R key runtimeResultField (ap_ResultPtr a) s1 else s1)
                    in (1, rEXPIRE R key sec s2))"

record job_effect =
  ef_JobID :: string
  ef_EventID :: string
  ef_Digest :: string
  ef_Payload :: string

definition ackJobEffectScript :: "'s redis \<Rightarrow> string \<Rightarrow> job_effect \<Rightarrow> 's \<Rightarrow> int \<times> 's" where
  "ackJobEffectScript R key e s =
     (if rHGET R s key (runtimeEventPrefix @ ef_EventID e) \<noteq> Some (b64_encode StdAlphabet (ef_Digest e)) then (0, s)
      else (if rHGET R s key (runtimeEffectPrefix @ ef_EventID e) = None then 0 else 1,
            rHDEL R key (runtimeEffectPrefix @ ef_EventID e) s))"

definition transitionRuntimeStateScript :: "'s redis \<Rightarrow> string \<Rightarrow> string \<Rightarrow> string list \<Rightarrow> 's \<Rightarrow> int \<times> 's" where
  "transitionRuntimeStateScript R key target priors s =
     (case rHGET R s key runtimeStateField of
        None \<Rightarrow> (0, s)
      | Some current \<Rightarrow>
          if current = target then (1, s)
          else if current \<in> set priors then (1, rHSET R key runtimeStateField target s)
          else (0, s))"

section \<open>Operations\<close>

datatype store_error = InvalidArguments | StoreUnavailable | JobNotFound | InvalidTransition | EventDigestConflict

datatype disposition = JobEventRejected | JobEventApplied | JobEventDuplicate

definition dispositionOf :: "int \<Rightarrow> store_error + disposition" where
  "dispositionOf n =
     (if n < 0 then Inl EventDigestConflict
      else if n = 1 then Inr JobEventApplied
      else if n = 2 then Inr JobEventDuplicate
      else Inr JobEventRejected)"

definition migrateRuntimeFence ::
    "'s redis \<Rightarrow> (nat \<Rightarrow> call) \<Rightarrow> int \<Rightarrow> string \<Rightarrow> 's \<Rightarrow> bool \<times> 's" where
  "migrateRuntimeFence R c metaTTL jobID s =
     (if c 0 \<noteq> CallOk then (False, s)
      else case run (c 1) (migrateRuntimeFenceScript R (jobRuntimeKey jobID) (rHGETALL R s (jobMetaKey jobID))
                             (runtimeTTLSeconds metaTTL)) s of
          (r, s') \<Rightarrow> (r \<noteq> None, s'))"

definition GetState :: "'s redis \<Rightarrow> (nat \<Rightarrow> call) \<Rightarrow> string \<Rightarrow> 's \<Rightarrow> string option" where
  "GetState R c jobID s =
     (if c 0 \<noteq> CallOk then None
      else case rHGET R s (jobRuntimeKey jobID) runtimeStateField of
          Some v \<Rightarrow> Some v
        | None \<Rightarrow>
            (case if c 1 = CallOk then rHGET R s (jobMetaKey jobID) ''state'' else None of
               Some v \<Rightarrow> Some v
             | None \<Rightarrow> if c 2 \<noteq> CallOk then None else rGET R s (jobStateKey jobID)))"

definition BeginDispatch ::
    "'s redis \<Rightarrow> (nat \<Rightarrow> call) \<Rightarrow> int \<Rightarrow> string \<Rightarrow> string \<Rightarrow> string \<Rightarrow> string \<Rightarrow> 's \<Rightarrow>
     (store_error + string \<times> int) \<times> 's" where
  "BeginDispatch R c metaTTL dispatchID jobID workerID tenant s =
     (if jobID = [] \<or> workerID = [] \<or> tenant = [] then (Inl InvalidArguments, s)
      else if GetState R c jobID s = None then (Inl JobNotFound, s)
      else case migrateRuntimeFence R (\<lambda>i. c (i + 3)) metaTTL jobID s of
          (False, s1) \<Rightarrow> (Inl StoreUnavailable, s1)
        | (True, s1) \<Rightarrow>
            (case run (c 5) (beginDispatchScript R (jobRuntimeKey jobID) dispatchID workerID tenant
                               (runtimeTTLSeconds metaTTL)) s1 of
               (Some (Some attempt), s2) \<Rightarrow> (Inr (dispatchID, attempt), s2)
             | (_, s2) \<Rightarrow> (Inl StoreUnavailable, s2)))"

definition AcceptJobEvent ::
    "'s redis \<Rightarrow> (nat \<Rightarrow> call) \<Rightarrow> int \<Rightarrow> string \<Rightarrow> fence \<Rightarrow> string \<Rightarrow> 's \<Rightarrow>
     (store_error + bool) \<times> 's" where
  "AcceptJobEvent R c metaTTL jobID fe eventMessageID s =
     (if jobID = [] \<or> fe_dispatchID fe = [] \<or> fe_workerID fe = [] \<or> fe_tenant fe = [] \<or> eventMessageID = []
      then (Inl InvalidArguments, s)
      else case migrateRuntimeFence R c metaTTL jobID s of
          (False, s1) \<Rightarrow> (Inl StoreUnavailable, s1)
        | (True, s1) \<Rightarrow>
            (case run (c 2) (acceptJobEventScript R (jobDispatchEventsKey jobID (fe_dispatchID fe)) fe eventMessageID
                               (runtimeTTLSeconds metaTTL)) s1 of
               (None, s2) \<Rightarrow> (Inl StoreUnavailable, s2)
             | (Some n, s2) \<Rightarrow> (Inr (n = 1), s2)))"

definition AcceptSignedJobEvent ::
    "'s redis \<Rightarrow> (nat \<Rightarrow> call) \<Rightarrow> int \<Rightarrow> string \<Rightarrow> fence \<Rightarrow> string \<Rightarrow> string \<Rightarrow> 's \<Rightarrow>
     (store_error + disposition) \<times> 's" where
  "AcceptSignedJobEvent R c metaTTL jobID fe messageID digest s =
     (if jobID = [] \<or> fe_dispatchID fe = [] \<or> fe_attempt fe \<le> 0 \<or> fe_workerID fe = [] \<or> fe_tenant fe = [] \<or>
         messageID = [] \<or> digest = []
      then (Inl InvalidArguments, s)
      else case migrateRuntimeFence R c metaTTL jobID s of
          (False, s1) \<Rightarrow> (Inl StoreUnavailable, s1)
        | (True, s1) \<Rightarrow>
            (case run (c 2) (acceptSignedJobEventScript R (jobRuntimeKey jobID) fe
                               (runtimeEventPrefix @ b64_encode URLAlphabet messageID) (b64_encode StdAlphabet digest)
                               (runtimeTTLSeconds metaTTL)) s1 of
               (None, s2) \<Rightarrow> (Inl StoreUnavailable, s2)
             | (Some n, s2) \<Rightarrow> (dispositionOf n, s2)))"

definition validateJobResultApply :: "job_result \<Rightarrow> bool" where
  "validateJobResultApply a \<longleftrightarrow>
     ap_JobID a \<noteq> [] \<and> fe_dispatchID (ap_fence a) \<noteq> [] \<and> fe_workerID (ap_fence a) \<noteq> [] \<and> fe_tenant (ap_fence a) \<noteq> [] \<and>
     fe_attempt (ap_fence a) > 0 \<and> ap_MessageID a \<noteq> [] \<and> ap_Digest a \<noteq> [] \<and> ap_State a \<noteq> [] \<and> ap_Effect a \<noteq> []"

definition ApplyJobResult ::
    "'s redis \<Rightarrow> (nat \<Rightarrow> call) \<Rightarrow> int \<Rightarrow> job_result \<Rightarrow> 's \<Rightarrow>
     (store_error + disposition) \<times> 's" where
  "ApplyJobResult R c metaTTL a s =
     (if \<not> validateJobResultApply a then (Inl InvalidArguments, s)
      else case migrateRuntimeFence R c metaTTL (ap_JobID a) s of
          (False, s1) \<Rightarrow> (Inl StoreUnavailable, s1)
        | (True, s1) \<Rightarrow>
            (case run (c 2) (applyJobResultScript R (jobRuntimeKey (ap_JobID a)) a (runtimeTTLSeconds metaTTL)) s1 of
               (None, s2) \<Rightarrow> (Inl StoreUnavailable, s2)
             | (Some n, s2) \<Rightarrow> (dispositionOf n, s2)))"

definition CancelAllJobAttempts ::
    "'s redis \<Rightarrow> (nat \<Rightarrow> call) \<Rightarrow> int \<Rightarrow> string \<Rightarrow> 's \<Rightarrow> (store_error + string) \<times> 's" where
  "CancelAllJobAttempts R c metaTTL jobID s =
     (if jobID = [] then (Inl InvalidArguments, s)
      else case migrateRuntimeFence R c metaTTL jobID s of
          (False, s1) \<Rightarrow> (Inl StoreUnavailable, s1)
        | (True, s1) \<Rightarrow>
            (case run (c 2) (cancelAllJobAttemptsScript R (jobRuntimeKey jobID) (runtimeTTLSeconds metaTTL)) s1 of
               (None, s2) \<Rightarrow> (Inl StoreUnavailable, s2)
             | (Some state, s2) \<Rightarrow> (Inr state, s2)))"

definition RollbackDispatch :: "'s redis \<Rightarrow> call \<Rightarrow> string \<Rightarrow> string \<Rightarrow> int \<Rightarrow> 's \<Rightarrow> (store_error + bool) \<times> 's" where
  "RollbackDispatch R c jobID dispatchID attempt s =
     (if jobID = [] \<or> dispatchID = [] \<or> attempt \<le> 0 then (Inl InvalidArguments, s)
      else case run c (rollbackDispatchScript R (jobRuntimeKey jobID) dispatchID attempt) s of
          (None, s') \<Rightarrow> (Inl StoreUnavailable, s')
        | (Some n, s') \<Rightarrow> (Inr (n = 1), s'))"

definition transitionRuntimeState :: "'s redis \<Rightarrow> call \<Rightarrow> string \<Rightarrow> string \<Rightarrow> 's \<Rightarrow> (store_error + unit) \<times> 's" where
  "transitionRuntimeState R c jobID target s =
     (let priors = map fst (filter (\<lambda>(_, targets). containsJobState targets target) allowedTransitions) in
      case run c (transitionRuntimeStateScript R (jobRuntimeKey jobID) target priors) s of
        (None, s') \<Rightarrow> (Inl StoreUnavailable, s')
      | (Some n, s') \<Rightarrow> (if n = 1 then Inr () else Inl InvalidTransition, s'))"

definition AckJobEffect :: "'s redis \<Rightarrow> call \<Rightarrow> job_effect \<Rightarrow> 's \<Rightarrow> (store_error + bool) \<times> 's" where
  "AckJobEffect R c e s =
     (if ef_JobID e = [] \<or> ef_EventID e = [] \<or> ef_Digest e = [] then (Inl InvalidArguments, s)
      else case run c (ackJobEffectScript R (jobRuntimeKey (ef_JobID e)) e) s of
          (None, s') \<Rightarrow> (Inl StoreUnavailable, s')
        | (Some n, s') \<Rightarrow> (Inr (n = 1), s'))"

text \<open>
  The effects of one runtime hash that wait for replay. Go ranges over the fields in any order
  and stops collecting at the limit; the first field that does not decode is an error.
\<close>

fun runtimeEffects :: "string \<Rightarrow> string gomap \<Rightarrow> string gomap \<Rightarrow> int \<Rightarrow> job_effect list \<Rightarrow> job_effect list option" where
  "runtimeEffects jobID all [] limit acc = Some acc"
| "runtimeEffects jobID all ((field, encoded) # fs) limit acc =
     (if \<not> HasPrefix field runtimeEffectPrefix \<or> int (length acc) \<ge> limit then runtimeEffects jobID all fs limit acc
      else let ev = TrimPrefix field runtimeEffectPrefix in
        case (b64_decode StdAlphabet encoded, b64_decode StdAlphabet (mget all (runtimeEventPrefix @ ev))) of
          (Some payload, Some digest) \<Rightarrow>
            if digest = [] then None
            else runtimeEffects jobID all fs limit
                   (acc @ [\<lparr>ef_JobID = jobID, ef_EventID = ev, ef_Digest = digest, ef_Payload = payload\<rparr>])
        | _ \<Rightarrow> None)"

definition appendRuntimeEffects :: "string \<Rightarrow> string gomap \<Rightarrow> job_effect list \<Rightarrow> int \<Rightarrow> job_effect list option" where
  "appendRuntimeEffects key fs effects limit =
     (case runtimeJobID key of None \<Rightarrow> None | Some jobID \<Rightarrow> runtimeEffects jobID fs fs limit effects)"

section \<open>Interleavings\<close>

text \<open>
  One atomic step of any client, with any arguments. A run of Go operations of several
  clients is a sequence of such steps, in whatever order their calls reach the server.
\<close>

datatype runtime_op =
    OpBegin string string string string int
  | OpAcceptEvent string fence string int
  | OpAcceptSigned string fence string string int
  | OpApply job_result int
  | OpRollback string string int
  | OpCancelAll string int
  | OpMigrate string "string gomap" int
  | OpTransition string string "string list"
  | OpAck job_effect

fun runtime_exec :: "'s redis \<Rightarrow> runtime_op \<Rightarrow> 's \<Rightarrow> 's" where
  "runtime_exec R (OpBegin jobID d w t sec) s = snd (beginDispatchScript R (jobRuntimeKey jobID) d w t sec s)"
| "runtime_exec R (OpAcceptEvent jobID fe m sec) s = snd (acceptJobEventScript R (jobRuntimeKey jobID) fe m sec s)"
| "runtime_exec R (OpAcceptSigned jobID fe m dg sec) s =
     snd (acceptSignedJobEventScript R (jobRuntimeKey jobID) fe (runtimeEventPrefix @ b64_encode URLAlphabet m)
            (b64_encode StdAlphabet dg) sec s)"
| "runtime_exec R (OpApply a sec) s = snd (applyJobResultScript R (jobRuntimeKey (ap_JobID a)) a sec s)"
| "runtime_exec R (OpRollback jobID d n) s = snd (rollbackDispatchScript R (jobRuntimeKey jobID) d n s)"
| "runtime_exec R (OpCancelAll jobID sec) s = snd (cancelAllJobAttemptsScript R (jobRuntimeKey jobID) sec s)"
| "runtime_exec R (OpMigrate jobID legacy sec) s = snd (migrateRuntimeFenceScript R (jobRuntimeKey jobID) legacy sec s)"
| "runtime_exec R (OpTransition jobID target priors) s =
     snd (transitionRuntimeStateScript R (jobRuntimeKey jobID) target priors s)"
| "runtime_exec R (OpAck e) s = snd (ackJobEffectScript R (jobRuntimeKey (ef_JobID e)) e s)"

fun op_job :: "runtime_op \<Rightarrow> string" where
  "op_job (OpBegin j _ _ _ _) = j"
| "op_job (OpAcceptEvent j _ _ _) = j"
| "op_job (OpAcceptSigned j _ _ _ _) = j"
| "op_job (OpApply a _) = ap_JobID a"
| "op_job (OpRollback j _ _) = j"
| "op_job (OpCancelAll j _) = j"
| "op_job (OpMigrate j _ _) = j"
| "op_job (OpTransition j _ _) = j"
| "op_job (OpAck e) = ef_JobID e"

text \<open>Expiry times are positive and results are validated: the store never passes anything else.\<close>

fun op_ok :: "runtime_op \<Rightarrow> bool" where
  "op_ok (OpBegin _ _ _ _ sec) = (0 < sec)"
| "op_ok (OpAcceptEvent _ _ _ sec) = (0 < sec)"
| "op_ok (OpAcceptSigned _ _ _ _ sec) = (0 < sec)"
| "op_ok (OpApply a sec) = (0 < sec \<and> validateJobResultApply a)"
| "op_ok (OpCancelAll _ sec) = (0 < sec)"
| "op_ok (OpMigrate _ _ sec) = (0 < sec)"
| "op_ok _ = True"

lemma event_field [simp]:
  "runtimeEventPrefix @ m \<noteq> metaFieldDispatchID" "runtimeEventPrefix @ m \<noteq> metaFieldDispatchAttempt"
  "runtimeEventPrefix @ m \<noteq> metaFieldDispatchWorkerID" "runtimeEventPrefix @ m \<noteq> metaFieldDispatchTenant"
  "runtimeEventPrefix @ m \<noteq> runtimeStateField" "runtimeEventPrefix @ m \<noteq> runtimeResultField"
  "runtimeEventPrefix @ m \<noteq> runtimeEffectPrefix @ x"
  by (simp_all add: field_defs)

lemma prefixes_differ [simp]: "runtimeEventPrefix \<noteq> runtimeEffectPrefix" "runtimeEffectPrefix \<noteq> runtimeEventPrefix"
  by (simp_all add: field_defs)

lemma effect_field [simp]:
  "runtimeEffectPrefix @ m \<noteq> metaFieldDispatchID" "runtimeEffectPrefix @ m \<noteq> metaFieldDispatchAttempt"
  "runtimeEffectPrefix @ m \<noteq> metaFieldDispatchWorkerID" "runtimeEffectPrefix @ m \<noteq> metaFieldDispatchTenant"
  "runtimeEffectPrefix @ m \<noteq> runtimeStateField" "runtimeEffectPrefix @ m \<noteq> runtimeResultField"
  "runtimeEffectPrefix @ m \<noteq> runtimeEventPrefix @ x"
  by (simp_all add: field_defs)

lemma fence_field [simp]:
  "metaFieldDispatchID \<noteq> metaFieldDispatchAttempt" "metaFieldDispatchAttempt \<noteq> metaFieldDispatchID"
  "metaFieldDispatchID \<noteq> metaFieldDispatchWorkerID" "metaFieldDispatchWorkerID \<noteq> metaFieldDispatchID"
  "metaFieldDispatchID \<noteq> metaFieldDispatchTenant" "metaFieldDispatchTenant \<noteq> metaFieldDispatchID"
  "metaFieldDispatchAttempt \<noteq> metaFieldDispatchWorkerID" "metaFieldDispatchWorkerID \<noteq> metaFieldDispatchAttempt"
  "metaFieldDispatchAttempt \<noteq> metaFieldDispatchTenant" "metaFieldDispatchTenant \<noteq> metaFieldDispatchAttempt"
  "metaFieldDispatchWorkerID \<noteq> metaFieldDispatchTenant" "metaFieldDispatchTenant \<noteq> metaFieldDispatchWorkerID"
  "metaFieldDispatchAttempt \<noteq> runtimeStateField" "runtimeStateField \<noteq> metaFieldDispatchAttempt"
  "metaFieldDispatchID \<noteq> runtimeStateField" "runtimeStateField \<noteq> metaFieldDispatchID"
  "metaFieldDispatchAttempt \<noteq> runtimeResultField" "metaFieldDispatchID \<noteq> runtimeResultField"
  "metaFieldDispatchAttempt \<noteq> runtimeEventPrefix @ m" "metaFieldDispatchID \<noteq> runtimeEventPrefix @ m"
  "metaFieldDispatchAttempt \<noteq> runtimeEffectPrefix @ m" "metaFieldDispatchID \<noteq> runtimeEffectPrefix @ m"
  "runtimeStateField \<noteq> runtimeEventPrefix @ m" "runtimeStateField \<noteq> runtimeEffectPrefix @ m"
  "runtimeResultField \<noteq> runtimeEventPrefix @ m" "runtimeResultField \<noteq> runtimeEffectPrefix @ m"
  by (simp_all add: field_defs)

lemma state_literal: "''state'' = runtimeStateField" and event_literal: "''event:'' = runtimeEventPrefix"
  by (simp_all add: field_defs)

lemma runtimeTTL_pos: "0 < runtimeTTLSeconds metaTTL"
  by (simp add: runtimeTTLSeconds_def less_max_iff_disj)

lemma jobRuntimeKey_inject [simp]: "jobRuntimeKey a = jobRuntimeKey b \<longleftrightarrow> a = b"
  by (simp add: jobRuntimeKey_def b64_encode_inject)

lemma runtime_not_meta [simp]: "jobRuntimeKey a \<noteq> jobMetaKey b" "jobMetaKey b \<noteq> jobRuntimeKey a"
  by (simp_all add: jobRuntimeKey_def jobMetaKey_def)

lemma runtimeJobID_key:
  assumes "jobID \<noteq> []"
  shows "runtimeJobID (jobRuntimeKey jobID) = Some jobID"
proof -
  let ?tag = "b64_encode URLAlphabet jobID"
  have tag: "CHR ''{'' \<notin> set ?tag" "CHR ''}'' \<notin> set ?tag"
    using b64_encode_chars [OF b64_alphabets(1), of jobID] by (auto simp: URLAlphabet_def alphabet_def)
  have key: "jobRuntimeKey jobID = ''job:'' @ CHR ''{'' # ?tag @ CHR ''}'' # '':runtime''" by (simp add: jobRuntimeKey_def)
  have start: "IndexByte (jobRuntimeKey jobID) (CHR ''{'') = Some 4"
    unfolding key using IndexByte_skip [of "CHR ''{''" "''job:''"] by simp
  have stop: "IndexByte (jobRuntimeKey jobID) (CHR ''}'') = Some (5 + length ?tag)"
    unfolding key using IndexByte_skip [of "CHR ''}''" "''job:{'' @ ?tag" "'':runtime''"] tag by simp
  have "?tag \<noteq> []" using assms b64_encode_inject [OF b64_alphabets(1), of jobID "[]"] by simp
  then show ?thesis
    by (simp add: runtimeJobID_def start stop) (simp add: key b64_roundtrip eval_nat_numeral)
qed

text \<open>
  The runtime key of a job leads back to the job: scanning the keys for pending effects finds
  every job id that was stored, whatever characters it contains.
\<close>

theorem runtimeJobID_roundtrip:
  assumes "jobID \<noteq> []"
  shows "runtimeJobID (jobRuntimeKey jobID) = Some jobID"
  by (rule runtimeJobID_key [OF assms])

theorem runtimeJobID_roundtrip_witness: "runtimeJobID (jobRuntimeKey ''a}b{c'') = Some ''a}b{c''"
  by (rule runtimeJobID_roundtrip) simp

context redis_server
begin

lemma expire_h [simp]: "0 < sec \<Longrightarrow> ks_hashes (view (rEXPIRE R k sec s)) = ks_hashes (view s)"
  by (rule expire)

lemma hset_h [simp]: "ks_hashes (view (rHSET R k f v s)) = (ks_hashes (view s))(k := (ks_hashes (view s) k)(f \<mapsto> v))"
  by (simp add: writes)

lemma hdel_h [simp]: "ks_hashes (view (rHDEL R k f s)) = (ks_hashes (view s))(k := (ks_hashes (view s) k)(f := None))"
  by (simp add: writes)

lemma hsetnx_h [simp]:
  "ks_hashes (view (snd (rHSETNX R k f v s))) =
     (if ks_hashes (view s) k f = None then (ks_hashes (view s))(k := (ks_hashes (view s) k)(f \<mapsto> v)) else ks_hashes (view s))"
  by (simp add: rHSETNX_def reads)

lemma setIfPresent_h:
  "ks_hashes (view (setIfPresent R k f v s)) =
     (if v \<noteq> [] \<and> ks_hashes (view s) k f = None then (ks_hashes (view s))(k := (ks_hashes (view s) k)(f \<mapsto> v)) else ks_hashes (view s))"
  by (simp add: setIfPresent_def)

lemma fenceMatches_iff:
  "fenceMatches R k fe s \<longleftrightarrow>
     ks_hashes (view s) k metaFieldDispatchID = Some (fe_dispatchID fe) \<and>
     ks_hashes (view s) k metaFieldDispatchAttempt = Some (Itoa (fe_attempt fe)) \<and>
     ks_hashes (view s) k metaFieldDispatchWorkerID = Some (fe_workerID fe) \<and>
     ks_hashes (view s) k metaFieldDispatchTenant = Some (fe_tenant fe)"
  by (simp add: fenceMatches_def reads)

text \<open>What a step does to a runtime hash, as a set of rules for the fields it writes.\<close>

lemma fold_setIfPresent:
  "ks_hashes (view (fold (\<lambda>f. setIfPresent R k f (g f)) fs s)) k' f' =
     (if k' = k \<and> f' \<in> set fs \<and> g f' \<noteq> [] \<and> ks_hashes (view s) k f' = None then Some (g f') else ks_hashes (view s) k' f')"
  by (induction fs arbitrary: s) (auto simp: setIfPresent_h)

lemma migrate_h:
  assumes "0 < sec"
  shows "ks_hashes (view (snd (migrateRuntimeFenceScript R k legacy sec s))) k' f' =
    (if k' = k \<and> f' \<in> {''state'', metaFieldDispatchID, metaFieldDispatchAttempt, metaFieldDispatchWorkerID, metaFieldDispatchTenant} \<and>
        mget legacy f' \<noteq> [] \<and> ks_hashes (view s) k f' = None
     then Some (mget legacy f') else ks_hashes (view s) k' f')"
  using assms
  by (simp only: migrateRuntimeFenceScript_def snd_conv expire_h fold_setIfPresent list.set insert_iff empty_iff)

lemma begin_h:
  assumes "0 < sec"
  obtains "beginDispatchScript R k d w t sec s = (None, s)"
  | n s' where "beginDispatchScript R k d w t sec s = (Some n, s')"
    "ks_hashes (view s') = (ks_hashes (view s))(k := (ks_hashes (view s) k)
       (metaFieldDispatchAttempt \<mapsto> Itoa n, metaFieldDispatchID \<mapsto> d, metaFieldDispatchWorkerID \<mapsto> w, metaFieldDispatchTenant \<mapsto> t))"
    "ks_hashes (view s) k metaFieldDispatchAttempt = None \<and> n = 1 \<or>
     (\<exists>m. ks_hashes (view s) k metaFieldDispatchAttempt = Some (Itoa m) \<and> n = m + 1)"
proof (rule hincrby_cases [of k metaFieldDispatchAttempt 1 s])
  assume "rHINCRBY R k metaFieldDispatchAttempt 1 s = None"
  then show thesis using that(1) by (simp add: beginDispatchScript_def)
next
  fix n s'
  assume 1: "rHINCRBY R k metaFieldDispatchAttempt 1 s = Some (n, s')"
    and 2: "view s' = (view s)\<lparr>ks_hashes := (ks_hashes (view s))(k := (ks_hashes (view s) k)(metaFieldDispatchAttempt \<mapsto> Itoa n))\<rparr>"
    and 3: "ks_hashes (view s) k metaFieldDispatchAttempt = None \<and> n = 1 \<or>
      (\<exists>m. ks_hashes (view s) k metaFieldDispatchAttempt = Some (Itoa m) \<and> n = m + 1)"
  show thesis
    by (rule that(2)) (use 1 2 3 assms in \<open>auto simp: beginDispatchScript_def\<close>)
qed

text \<open>
  Every script leaves the other jobs alone, keeps the digest of an accepted event and never
  lowers the attempt counter.
\<close>

lemma exec_other:
  assumes "op_ok op" "op_job op \<noteq> j"
  shows "ks_hashes (view (runtime_exec R op s)) (jobRuntimeKey j) = ks_hashes (view s) (jobRuntimeKey j)"
proof (cases op)
  case (OpBegin j' d w t sec)
  then show ?thesis using assms begin_h [of sec "jobRuntimeKey j'" d w t s] by fastforce
qed (use assms in \<open>auto simp: acceptJobEventScript_def acceptSignedJobEventScript_def applyJobResultScript_def
    rollbackDispatchScript_def cancelAllJobAttemptsScript_def transitionRuntimeStateScript_def ackJobEffectScript_def
    rHSETNX_def migrate_h Let_def fun_eq_iff split: option.split\<close>)

lemma exec_event:
  assumes "op_ok op" "ks_hashes (view s) (jobRuntimeKey j) (runtimeEventPrefix @ m) = Some v"
  shows "ks_hashes (view (runtime_exec R op s)) (jobRuntimeKey j) (runtimeEventPrefix @ m) = Some v"
proof (cases op)
  case (OpBegin j' d w t sec)
  show ?thesis
    by (rule begin_h [of sec "jobRuntimeKey j'" d w t s]) (use OpBegin assms in auto)
next
  case (OpAcceptEvent)
  then show ?thesis using assms by (auto simp: acceptJobEventScript_def rHSETNX_def reads event_literal)
next
  case (OpAcceptSigned)
  then show ?thesis using assms by (auto simp: acceptSignedJobEventScript_def reads split: option.split)
next
  case (OpApply)
  then show ?thesis using assms by (auto simp: applyJobResultScript_def Let_def reads split: option.split)
next
  case (OpMigrate)
  then show ?thesis using assms by (auto simp: migrate_h)
qed (use assms in \<open>auto simp: rollbackDispatchScript_def cancelAllJobAttemptsScript_def transitionRuntimeStateScript_def
    ackJobEffectScript_def state_literal split: option.split\<close>)

lemma exec_attempt:
  assumes "op_ok op" "ks_hashes (view s) (jobRuntimeKey j) metaFieldDispatchAttempt = Some (Itoa n)"
  shows "\<exists>n' \<ge> n. ks_hashes (view (runtime_exec R op s)) (jobRuntimeKey j) metaFieldDispatchAttempt = Some (Itoa n')"
proof (cases op)
  case (OpBegin j' d w t sec)
  show ?thesis
    by (rule begin_h [of sec "jobRuntimeKey j'" d w t s]) (use OpBegin assms in \<open>auto simp: fun_upd_apply\<close>)
next
  case (OpMigrate)
  then show ?thesis using assms by (auto simp: migrate_h)
qed (use assms in \<open>auto simp: acceptJobEventScript_def acceptSignedJobEventScript_def applyJobResultScript_def rHSETNX_def
    rollbackDispatchScript_def cancelAllJobAttemptsScript_def transitionRuntimeStateScript_def
    ackJobEffectScript_def Let_def state_literal event_literal split: option.split\<close>)

lemma fold_event:
  assumes "\<forall>op \<in> set ops. op_ok op" "ks_hashes (view s) (jobRuntimeKey j) (runtimeEventPrefix @ m) = Some v"
  shows "ks_hashes (view (fold (runtime_exec R) ops s)) (jobRuntimeKey j) (runtimeEventPrefix @ m) = Some v"
  using assms by (induction ops arbitrary: s) (simp_all add: exec_event)

lemma fold_attempt:
  assumes "\<forall>op \<in> set ops. op_ok op" "ks_hashes (view s) (jobRuntimeKey j) metaFieldDispatchAttempt = Some (Itoa n)"
  shows "\<exists>n' \<ge> n. ks_hashes (view (fold (runtime_exec R) ops s)) (jobRuntimeKey j) metaFieldDispatchAttempt = Some (Itoa n')"
  using assms
proof (induction ops arbitrary: s n)
  case (Cons op ops)
  then obtain n1 where "n \<le> n1" "ks_hashes (view (runtime_exec R op s)) (jobRuntimeKey j) metaFieldDispatchAttempt = Some (Itoa n1)"
    using exec_attempt by (metis list.set_intros(1))
  with Cons.IH [of "runtime_exec R op s" n1] Cons.prems(1) show ?case by force
qed auto

lemma migrateRuntimeFence_keeps:
  "ks_hashes (view s) k f = Some v \<Longrightarrow> ks_hashes (view (snd (migrateRuntimeFence R c ttl j s))) k f = Some v"
  by (cases "c 1") (auto simp: migrateRuntimeFence_def migrate_h runtimeTTL_pos run_def)

lemma ApplyJobResult_applied:
  assumes "ApplyJobResult R c ttl a s = (Inr JobEventApplied, s1)"
  shows "ks_hashes (view s1) (jobRuntimeKey (ap_JobID a)) (runtimeEventPrefix @ eventID (ap_MessageID a)) =
    Some (b64_encode StdAlphabet (ap_Digest a))"
  using assms
  by (cases "c 2")
    (auto simp: ApplyJobResult_def dispositionOf_def applyJobResultScript_def run_def Let_def runtimeTTL_pos
      split: if_splits prod.splits bool.splits option.splits)

lemma ApplyJobResult_seen:
  assumes "ks_hashes (view s) (jobRuntimeKey (ap_JobID a)) (runtimeEventPrefix @ eventID (ap_MessageID a)) = Some v"
  shows "fst (ApplyJobResult R c ttl a s) \<noteq> Inr JobEventApplied"
  using migrateRuntimeFence_keeps [OF assms, of c ttl "ap_JobID a"]
  by (cases "c 2")
    (auto simp: ApplyJobResult_def dispositionOf_def applyJobResultScript_def run_def Let_def reads
      split: prod.splits bool.splits option.splits)

end

text \<open>
  C4. The result of a message is applied at most once. After an application, and after any further
  steps of any clients on the record, applying a result with the same message id never reports an
  application again, whatever the second message claims and whatever calls fail.
\<close>

theorem ApplyJobResult_once:
  assumes "redis_laws R view"
    and "ApplyJobResult R c ttl a s = (Inr JobEventApplied, s1)"
    and "\<forall>op \<in> set ops. op_ok op"
    and "ap_JobID b = ap_JobID a" "ap_MessageID b = ap_MessageID a"
  shows "fst (ApplyJobResult R c' ttl' b (fold (runtime_exec R) ops s1)) \<noteq> Inr JobEventApplied"
proof -
  note srv = redis_server.intro [OF assms(1)]
  from redis_server.ApplyJobResult_applied [OF srv assms(2)]
  have "ks_hashes (view (fold (runtime_exec R) ops s1)) (jobRuntimeKey (ap_JobID b)) (runtimeEventPrefix @ eventID (ap_MessageID b)) =
    Some (b64_encode StdAlphabet (ap_Digest a))"
    unfolding assms(4,5) by (rule redis_server.fold_event [OF srv assms(3)])
  then show ?thesis by (rule redis_server.ApplyJobResult_seen [OF srv])
qed

text \<open>
  A record with one dispatch under way, and the events used to exercise it: the job was
  scheduled, dispatched to \<open>w1\<close> as dispatch \<open>d1\<close> and moved to \<open>DISPATCHED\<close>.
\<close>

definition calls_ok :: "nat \<Rightarrow> call" where
  "calls_ok i = CallOk"

definition ex_scheduled :: server where
  "ex_scheduled = rHSET map_redis (jobRuntimeKey ''j1'') runtimeStateField JobStateScheduled empty_server"

definition ex_dispatched :: server where
  "ex_dispatched =
     snd (transitionRuntimeState map_redis CallOk ''j1'' JobStateDispatched
       (snd (BeginDispatch map_redis calls_ok 0 ''d1'' ''j1'' ''w1'' ''t1'' ex_scheduled)))"

definition ex_fence :: fence where
  "ex_fence = \<lparr>fe_dispatchID = ''d1'', fe_attempt = 1, fe_workerID = ''w1'', fe_tenant = ''t1''\<rparr>"

definition ex_result :: job_result where
  "ex_result = \<lparr>ap_JobID = ''j1'', ap_fence = ex_fence, ap_MessageID = ''m1'', ap_Digest = ''hash'', ap_Effect = ''done'',
     ap_State = JobStateSucceeded, ap_ResultPtr = ''ptr''\<rparr>"

theorem ApplyJobResult_once_witness:
  "fst (ApplyJobResult map_redis calls_ok 0 ex_result ex_dispatched) = Inr JobEventApplied \<and>
   fst (ApplyJobResult map_redis calls_ok 0 (ex_result\<lparr>ap_Digest := ''other''\<rparr>)
     (fold (runtime_exec map_redis) [OpRollback ''j1'' ''d1'' 1, OpBegin ''j1'' ''d2'' ''w2'' ''t1'' 60]
       (snd (ApplyJobResult map_redis calls_ok 0 ex_result ex_dispatched)))) \<noteq> Inr JobEventApplied"
proof -
  have 1: "fst (ApplyJobResult map_redis calls_ok 0 ex_result ex_dispatched) = Inr JobEventApplied" by code_simp
  show ?thesis
    by (rule conjI [OF 1], rule ApplyJobResult_once [OF map_redis_laws prod_eqI]) (use 1 in simp_all)
qed

section \<open>Fencing\<close>

context redis_server
begin

lemma BeginDispatch_attempt:
  assumes "BeginDispatch R c ttl d j w t s = (Inr (d', n), s1)"
  shows "ks_hashes (view s1) (jobRuntimeKey j) metaFieldDispatchAttempt = Some (Itoa n)"
    and "ks_hashes (view s) (jobRuntimeKey j) metaFieldDispatchAttempt = Some (Itoa m) \<Longrightarrow> n = m + 1"
proof -
  from assms obtain s0 where s0: "migrateRuntimeFence R (\<lambda>i. c (i + 3)) ttl j s = (True, s0)"
    and b: "beginDispatchScript R (jobRuntimeKey j) d w t (runtimeTTLSeconds ttl) s0 = (Some n, s1)"
    by (cases "c 5") (auto simp: BeginDispatch_def run_def prod_eq_iff split: if_splits prod.splits bool.splits option.splits)
  have h: "ks_hashes (view s1) (jobRuntimeKey j) metaFieldDispatchAttempt = Some (Itoa n)"
    by (rule begin_h [OF runtimeTTL_pos, of "jobRuntimeKey j" d w t ttl s0]) (use b in auto)
  have n: "ks_hashes (view s0) (jobRuntimeKey j) metaFieldDispatchAttempt = None \<and> n = 1 \<or>
      (\<exists>m. ks_hashes (view s0) (jobRuntimeKey j) metaFieldDispatchAttempt = Some (Itoa m) \<and> n = m + 1)"
    by (rule begin_h [OF runtimeTTL_pos, of "jobRuntimeKey j" d w t ttl s0]) (use b in auto)
  show "ks_hashes (view s1) (jobRuntimeKey j) metaFieldDispatchAttempt = Some (Itoa n)" by (rule h)
  show "n = m + 1" if "ks_hashes (view s) (jobRuntimeKey j) metaFieldDispatchAttempt = Some (Itoa m)"
    using n migrateRuntimeFence_keeps [OF that, of "\<lambda>i. c (i + 3)" ttl j] s0 by auto
qed

lemma events_fenced:
  assumes "ks_hashes (view s) (jobRuntimeKey j) metaFieldDispatchAttempt = Some (Itoa n)" "fe_attempt fe \<noteq> n"
  shows "fst (AcceptJobEvent R c ttl j fe m s) \<noteq> Inr True"
    "fst (AcceptSignedJobEvent R c ttl j fe m dg s) \<in> {Inl InvalidArguments, Inl StoreUnavailable, Inr JobEventRejected}"
    "ap_JobID a = j \<Longrightarrow> ap_fence a = fe \<Longrightarrow>
      fst (ApplyJobResult R c ttl a s) \<in> {Inl InvalidArguments, Inl StoreUnavailable, Inr JobEventRejected}"
proof -
  have f: "\<not> fenceMatches R (jobRuntimeKey j) fe (snd (migrateRuntimeFence R c ttl j s))"
    using migrateRuntimeFence_keeps [OF assms(1), of c ttl j] assms(2) by (simp add: fenceMatches_iff)
  then show "fst (AcceptJobEvent R c ttl j fe m s) \<noteq> Inr True"
    by (cases "c 2") (auto simp: AcceptJobEvent_def acceptJobEventScript_def jobDispatchEventsKey_def run_def split: prod.splits bool.splits)
  show "fst (AcceptSignedJobEvent R c ttl j fe m dg s) \<in> {Inl InvalidArguments, Inl StoreUnavailable, Inr JobEventRejected}"
    using f by (cases "c 2")
      (auto simp: AcceptSignedJobEvent_def acceptSignedJobEventScript_def dispositionOf_def run_def split: prod.splits bool.splits)
  show "fst (ApplyJobResult R c ttl a s) \<in> {Inl InvalidArguments, Inl StoreUnavailable, Inr JobEventRejected}"
    if "ap_JobID a = j" "ap_fence a = fe"
    using f that by (cases "c 2")
      (auto simp: ApplyJobResult_def applyJobResultScript_def dispositionOf_def run_def split: prod.splits bool.splits)
qed

end

text \<open>
  C3. A dispatch fences off the earlier ones. Once a job was dispatched with attempt \<open>n\<close>, and
  whatever steps clients take afterwards, an event or a result that carries a smaller attempt is
  never accepted: progress is refused, a signed event and a result are rejected or the call fails.
\<close>

theorem stale_attempt_fenced:
  assumes "redis_laws R view"
    and "BeginDispatch R c ttl d j w t s = (Inr (d', n), s1)"
    and "\<forall>op \<in> set ops. op_ok op"
    and "fe_attempt fe < n" "ap_JobID a = j" "ap_fence a = fe"
    and "s2 = fold (runtime_exec R) ops s1"
  shows "fst (AcceptJobEvent R c' ttl' j fe m s2) \<noteq> Inr True \<and>
    fst (AcceptSignedJobEvent R c' ttl' j fe m dg s2) \<in> {Inl InvalidArguments, Inl StoreUnavailable, Inr JobEventRejected} \<and>
    fst (ApplyJobResult R c' ttl' a s2) \<in> {Inl InvalidArguments, Inl StoreUnavailable, Inr JobEventRejected}"
proof -
  note srv = redis_server.intro [OF assms(1)]
  obtain n' where n': "n \<le> n'" "ks_hashes (view s2) (jobRuntimeKey j) metaFieldDispatchAttempt = Some (Itoa n')"
    using redis_server.fold_attempt [OF srv assms(3) redis_server.BeginDispatch_attempt(1) [OF srv assms(2)]] assms(7) by blast
  then have "fe_attempt fe \<noteq> n'" using assms(4) by simp
  note f = redis_server.events_fenced [OF srv n'(2) this]
  show ?thesis using f(1,2) f(3) [OF assms(5,6)] by blast
qed

text \<open>
  Attempts of a job strictly increase: a dispatch that follows another one, with any steps in
  between, gets a larger attempt, so two dispatches of a job never share a fence.
\<close>

theorem dispatch_attempts_increase:
  assumes "redis_laws R view"
    and "BeginDispatch R c ttl d j w t s = (Inr (d1, n), s1)"
    and "\<forall>op \<in> set ops. op_ok op"
    and "BeginDispatch R c' ttl' d' j w' t' (fold (runtime_exec R) ops s1) = (Inr (d2, n2), s2)"
  shows "n < n2"
proof -
  note srv = redis_server.intro [OF assms(1)]
  obtain n' where n': "n \<le> n'"
    "ks_hashes (view (fold (runtime_exec R) ops s1)) (jobRuntimeKey j) metaFieldDispatchAttempt = Some (Itoa n')"
    using redis_server.fold_attempt [OF srv assms(3) redis_server.BeginDispatch_attempt(1) [OF srv assms(2)]] by blast
  with redis_server.BeginDispatch_attempt(2) [OF srv assms(4)] have "n2 = n' + 1" by blast
  with n'(1) show ?thesis by simp
qed

text \<open>A second dispatch \<open>d2\<close>, after \<open>d1\<close> was rolled back; events of \<open>d1\<close> arrive late.\<close>

definition ex_redispatch :: "(store_error + string \<times> int) \<times> server" where
  "ex_redispatch =
     BeginDispatch map_redis calls_ok 0 ''d2'' ''j1'' ''w2'' ''t1'' (snd (RollbackDispatch map_redis CallOk ''j1'' ''d1'' 1 ex_dispatched))"

lemma ex_redispatch: "fst ex_redispatch = Inr (''d2'', 2)"
  by code_simp

theorem stale_attempt_fenced_witness:
  "fst ex_redispatch = Inr (''d2'', 2) \<and>
   fst (ApplyJobResult map_redis calls_ok 0 ex_result
     (fold (runtime_exec map_redis) [OpTransition ''j1'' JobStateRunning [JobStateScheduled]] (snd ex_redispatch)))
   \<in> {Inl InvalidArguments, Inl StoreUnavailable, Inr JobEventRejected}"
proof -
  have b: "BeginDispatch map_redis calls_ok 0 ''d2'' ''j1'' ''w2'' ''t1'' (snd (RollbackDispatch map_redis CallOk ''j1'' ''d1'' 1 ex_dispatched)) =
    (Inr (''d2'', 2), snd ex_redispatch)"
    using ex_redispatch by (simp add: ex_redispatch_def prod_eq_iff)
  have fe: "fe_attempt ex_fence < 2" "ap_JobID ex_result = ''j1''" "ap_fence ex_result = ex_fence"
    by (simp_all add: ex_fence_def ex_result_def)
  have ok: "\<forall>op \<in> set [OpTransition ''j1'' JobStateRunning [JobStateScheduled]]. op_ok op" by simp
  show ?thesis
    using stale_attempt_fenced [OF map_redis_laws b ok fe refl, of calls_ok 0] ex_redispatch by blast
qed

definition ex_dispatch :: "(store_error + string \<times> int) \<times> server" where
  "ex_dispatch = BeginDispatch map_redis calls_ok 0 ''d1'' ''j1'' ''w1'' ''t1'' ex_scheduled"

theorem dispatch_attempts_increase_witness:
  "fst ex_dispatch = Inr (''d1'', 1) \<and>
   fst (BeginDispatch map_redis calls_ok 0 ''d2'' ''j1'' ''w2'' ''t1''
     (fold (runtime_exec map_redis) [OpRollback ''j1'' ''d1'' 1] (snd ex_dispatch))) = Inr (''d2'', 2) \<and> (1 :: int) < 2"
proof -
  let ?s = "fold (runtime_exec map_redis) [OpRollback ''j1'' ''d1'' 1] (snd ex_dispatch)"
  have 1: "fst ex_dispatch = Inr (''d1'', 1)" by code_simp
  have 2: "fst (BeginDispatch map_redis calls_ok 0 ''d2'' ''j1'' ''w2'' ''t1'' ?s) = Inr (''d2'', 2)" by code_simp
  have "(1 :: int) < 2"
    by (rule dispatch_attempts_increase [OF map_redis_laws, of calls_ok 0 "''d1''" "''j1''" "''w1''" "''t1''" ex_scheduled
          "''d1''" 1 "snd ex_dispatch" "[OpRollback ''j1'' ''d1'' 1]" calls_ok 0 "''d2''" "''w2''" "''t1''" "''d2''" 2
          "snd (BeginDispatch map_redis calls_ok 0 ''d2'' ''j1'' ''w2'' ''t1'' ?s)"])
      (use 1 2 in \<open>simp_all add: prod_eq_iff ex_dispatch_def\<close>)
  then show ?thesis using 1 2 by blast
qed

section \<open>Finished jobs\<close>

text \<open>A state change of the store uses the predecessors that the transition table gives.\<close>

fun op_legal :: "runtime_op \<Rightarrow> bool" where
  "op_legal (OpTransition _ target priors) =
     (priors = map fst (filter (\<lambda>(_, targets). containsJobState targets target) allowedTransitions))"
| "op_legal _ = True"

definition runtime_finished :: "'s redis \<Rightarrow> string \<Rightarrow> 's \<Rightarrow> bool" where
  "runtime_finished R jobID s \<longleftrightarrow>
     (case rHGET R s (jobRuntimeKey jobID) runtimeStateField of None \<Rightarrow> False | Some state \<Rightarrow> state \<in> set terminalStates)"

lemma allowed_priors:
  "current \<in> set (map fst (filter (\<lambda>(_, targets). containsJobState targets target) allowedTransitions)) \<longleftrightarrow>
   isAllowedTransition current target"
proof -
  have "distinct (map fst allowedTransitions)" by code_simp
  then show ?thesis
    by (auto simp: isAllowedTransition_def containsJobState_def image_iff split: option.splits
        dest: map_of_SomeD eq_key_imp_eq_value map_of_is_SomeI)
qed

lemma terminal_not_live: "''DISPATCHED'' \<notin> set terminalStates" "''RUNNING'' \<notin> set terminalStates" "JobStateCancelled \<in> set terminalStates"
  by code_simp+

lemma terminal_step: "st \<in> set terminalStates \<Longrightarrow> isAllowedTransition st st' \<Longrightarrow> st' \<in> set terminalStates"
  using terminal_final by (auto simp: terminalStates_def)

context redis_server
begin

lemma runtime_finished_iff:
  "runtime_finished R j s \<longleftrightarrow> (\<exists>st \<in> set terminalStates. ks_hashes (view s) (jobRuntimeKey j) runtimeStateField = Some st)"
  by (auto simp: runtime_finished_def reads split: option.splits)

lemma exec_finished:
  assumes "op_ok op" "op_legal op" "\<forall>d n. op \<noteq> OpRollback j d n" "runtime_finished R j s"
  shows "runtime_finished R j (runtime_exec R op s)"
proof -
  obtain st where st: "st \<in> set terminalStates" "ks_hashes (view s) (jobRuntimeKey j) runtimeStateField = Some st"
    using assms(4) by (auto simp: runtime_finished_iff)
  show ?thesis
  proof (cases op)
    case (OpBegin j' d w t sec)
    show ?thesis
      by (rule begin_h [of sec "jobRuntimeKey j'" d w t s]) (use OpBegin assms st in \<open>auto simp: runtime_finished_iff field_defs\<close>)
  next
    case (OpMigrate j' legacy sec)
    then show ?thesis using assms st by (auto simp: runtime_finished_iff migrate_h)
  next
    case (OpApply a sec)
    then show ?thesis using assms st terminal_not_live
      by (auto simp: runtime_finished_iff applyJobResultScript_def Let_def reads split: option.splits)
  next
    case (OpTransition j' target priors)
    then show ?thesis using assms st terminal_step allowed_priors
      by (auto simp: runtime_finished_iff transitionRuntimeStateScript_def reads split: option.splits)
  next
    case (OpCancelAll j' sec)
    then show ?thesis using assms st terminal_not_live(3)
      by (auto simp: runtime_finished_iff cancelAllJobAttemptsScript_def reads field_defs split: option.splits)
  next
    case (OpRollback j' d n)
    then show ?thesis using assms st by (auto simp: runtime_finished_iff rollbackDispatchScript_def)
  qed (use assms st in \<open>auto simp: runtime_finished_iff acceptJobEventScript_def acceptSignedJobEventScript_def
        ackJobEffectScript_def rHSETNX_def event_literal split: option.splits\<close>)
qed

lemma finished_rejects:
  assumes "runtime_finished R j s"
  shows "fst (AcceptSignedJobEvent R c ttl j fe m dg s) \<in> {Inl InvalidArguments, Inl StoreUnavailable, Inr JobEventRejected}"
    "ap_JobID a = j \<Longrightarrow> fst (ApplyJobResult R c ttl a s) \<noteq> Inr JobEventApplied"
proof -
  obtain st where st: "st \<in> set terminalStates" "ks_hashes (view s) (jobRuntimeKey j) runtimeStateField = Some st"
    using assms by (auto simp: runtime_finished_iff)
  have live: "ks_hashes (view (snd (migrateRuntimeFence R c ttl j s))) (jobRuntimeKey j) runtimeStateField \<notin> {Some ''DISPATCHED'', Some ''RUNNING''}"
    using migrateRuntimeFence_keeps [OF st(2), of c ttl j] st(1) terminal_not_live by auto
  then show "fst (AcceptSignedJobEvent R c ttl j fe m dg s) \<in> {Inl InvalidArguments, Inl StoreUnavailable, Inr JobEventRejected}"
    by (cases "c 2") (auto simp: AcceptSignedJobEvent_def acceptSignedJobEventScript_def dispositionOf_def run_def reads
        state_literal split: prod.splits bool.splits)
  show "fst (ApplyJobResult R c ttl a s) \<noteq> Inr JobEventApplied" if "ap_JobID a = j"
    using live that by (cases "c 2") (auto simp: ApplyJobResult_def applyJobResultScript_def dispositionOf_def run_def reads Let_def
        split: prod.splits bool.splits option.splits)
qed

end

text \<open>
  C29. A finished job stays finished. Once the runtime state is terminal, no sequence of steps
  moves it out of the terminal states, no result is applied and no signed event is accepted,
  provided no dispatch of the job is rolled back.
\<close>

theorem finished_runtime_final:
  assumes "redis_laws R view" "runtime_finished R j s"
    and "\<forall>op \<in> set ops. op_ok op \<and> op_legal op \<and> (\<forall>d n. op \<noteq> OpRollback j d n)"
    and "s' = fold (runtime_exec R) ops s" "ap_JobID a = j"
  shows "runtime_finished R j s' \<and> fst (ApplyJobResult R c ttl a s') \<noteq> Inr JobEventApplied \<and>
    fst (AcceptSignedJobEvent R c ttl j fe m dg s') \<in> {Inl InvalidArguments, Inl StoreUnavailable, Inr JobEventRejected}"
proof -
  note srv = redis_server.intro [OF assms(1)]
  have "runtime_finished R j (fold (runtime_exec R) ops s)"
    using assms(2,3) by (induction ops arbitrary: s) (simp_all add: redis_server.exec_finished [OF srv])
  with assms(4) have fin: "runtime_finished R j s'" by simp
  show ?thesis
    using fin redis_server.finished_rejects [OF srv fin] assms(5) by blast
qed

text \<open>The job \<open>j1\<close> succeeded; a cancellation and a late dispatch follow.\<close>

definition ex_finished :: server where
  "ex_finished = snd (ApplyJobResult map_redis calls_ok 0 ex_result ex_dispatched)"

theorem finished_runtime_final_witness:
  "runtime_finished map_redis ''j1'' ex_finished \<and>
   runtime_finished map_redis ''j1'' (fold (runtime_exec map_redis) [OpCancelAll ''j1'' 60, OpBegin ''j1'' ''d2'' ''w2'' ''t1'' 60] ex_finished)"
proof -
  have 1: "runtime_finished map_redis ''j1'' ex_finished" by code_simp
  have 2: "ap_JobID ex_result = ''j1''" by (simp add: ex_result_def)
  have 3: "\<forall>op \<in> set [OpCancelAll ''j1'' 60, OpBegin ''j1'' ''d2'' ''w2'' ''t1'' 60].
    op_ok op \<and> op_legal op \<and> (\<forall>d n. op \<noteq> OpRollback ''j1'' d n)" by simp
  show ?thesis using 1 finished_runtime_final [OF map_redis_laws 1 3 refl 2] by blast
qed

text \<open>
  The rollback script does not look at the state. When the publication of a dispatch reports an
  error although the worker received it and answered, the rollback reopens the finished job.
\<close>

lemma rollback_reopens_finished:
  "rHGET map_redis ex_finished (jobRuntimeKey ''j1'') runtimeStateField = Some JobStateSucceeded"
  "fst (RollbackDispatch map_redis CallOk ''j1'' ''d1'' 1 ex_finished) = Inr True"
  "rHGET map_redis (snd (RollbackDispatch map_redis CallOk ''j1'' ''d1'' 1 ex_finished)) (jobRuntimeKey ''j1'') runtimeStateField =
     Some JobStateScheduled"
  by code_simp+

text \<open>
  The cancellation script knows the quarantined state as \<open>QUARANTINED\<close>, while the model calls it
  \<open>OUTPUT_QUARANTINED\<close>: cancelling a quarantined job overwrites the terminal state.
\<close>

lemma cancel_overwrites_quarantine:
  "fst (CancelAllJobAttempts map_redis calls_ok 0 ''j1''
     (rHSET map_redis (jobRuntimeKey ''j1'') runtimeStateField JobStateQuarantined empty_server)) = Inr JobStateCancelled"
  "JobStateQuarantined \<in> set terminalStates"
  by code_simp+

text \<open>
  A cancellation deletes the fence, and the next operation migrates it back from the legacy
  metadata: an event of the cancelled dispatch is accepted again.
\<close>

definition ex_legacy :: server where
  "ex_legacy =
     fold (\<lambda>(f, v). rHSET map_redis (jobMetaKey ''j1'') f v)
       [(''state'', JobStateRunning), (metaFieldDispatchID, ''d1''), (metaFieldDispatchAttempt, ''1''),
        (metaFieldDispatchWorkerID, ''w1''), (metaFieldDispatchTenant, ''t1'')] empty_server"

lemma cancelled_fence_resurrected:
  "fst (CancelAllJobAttempts map_redis calls_ok 0 ''j1'' ex_legacy) = Inr JobStateCancelled"
  "fst (AcceptJobEvent map_redis calls_ok 0 ''j1'' ex_fence ''m1'' (snd (CancelAllJobAttempts map_redis calls_ok 0 ''j1'' ex_legacy))) =
     Inr True"
  by code_simp+

section \<open>The effect outbox\<close>

text \<open>Every stored effect can be decoded and belongs to a recorded event.\<close>

definition replayable :: "'s redis \<Rightarrow> string \<Rightarrow> 's \<Rightarrow> bool" where
  "replayable R jobID s =
     (let all = rHGETALL R s (jobRuntimeKey jobID) in
      list_all (\<lambda>(field, encoded). HasPrefix field runtimeEffectPrefix \<longrightarrow>
        b64_decode StdAlphabet encoded \<noteq> None \<and>
        b64_decode StdAlphabet (mget all (runtimeEventPrefix @ TrimPrefix field runtimeEffectPrefix)) \<notin> {None, Some []}) all)"

lemma all_with_prefix: "(\<forall>(f, v) \<in> set L. HasPrefix f p \<longrightarrow> Q f v) \<longleftrightarrow> (\<forall>x v. (p @ x, v) \<in> set L \<longrightarrow> Q (p @ x) v)"
  by (fastforce simp: HasPrefix_iff)

lemma runtimeEffects_all:
  assumes "\<forall>(f, v) \<in> set fs. HasPrefix f runtimeEffectPrefix \<longrightarrow> b64_decode StdAlphabet v \<noteq> None \<and>
      b64_decode StdAlphabet (mget all (runtimeEventPrefix @ TrimPrefix f runtimeEffectPrefix)) \<notin> {None, Some []}"
    and "int (length acc + length fs) \<le> limit"
  shows "runtimeEffects j all fs limit acc = Some (acc @
    map (\<lambda>(f, v). \<lparr>ef_JobID = j, ef_EventID = TrimPrefix f runtimeEffectPrefix,
        ef_Digest = the (b64_decode StdAlphabet (mget all (runtimeEventPrefix @ TrimPrefix f runtimeEffectPrefix))),
        ef_Payload = the (b64_decode StdAlphabet v)\<rparr>)
      (filter (\<lambda>(f, v). HasPrefix f runtimeEffectPrefix) fs))"
  using assms by (induction fs arbitrary: acc) (auto simp: Let_def split: option.split)

context redis_server
begin

lemma exec_effect_new:
  assumes "op_ok op" "ks_hashes (view (runtime_exec R op s)) (jobRuntimeKey j) (runtimeEffectPrefix @ x) = Some v"
  shows "ks_hashes (view s) (jobRuntimeKey j) (runtimeEffectPrefix @ x) = Some v \<or>
    (\<exists>p d. v = b64_encode StdAlphabet p \<and> d \<noteq> [] \<and>
      ks_hashes (view (runtime_exec R op s)) (jobRuntimeKey j) (runtimeEventPrefix @ x) = Some (b64_encode StdAlphabet d))"
proof (cases op)
  case (OpBegin j' d w t sec)
  show ?thesis
    by (rule begin_h [of sec "jobRuntimeKey j'" d w t s]) (use OpBegin assms in \<open>auto split: if_splits\<close>)
next
  case (OpMigrate)
  then show ?thesis using assms by (auto simp: migrate_h state_literal split: if_splits)
next
  case (OpApply a sec)
  then show ?thesis using assms
    by (auto simp: applyJobResultScript_def validateJobResultApply_def Let_def reads split: if_splits option.splits)
qed (use assms in \<open>auto simp: acceptJobEventScript_def acceptSignedJobEventScript_def rollbackDispatchScript_def
      cancelAllJobAttemptsScript_def transitionRuntimeStateScript_def ackJobEffectScript_def rHSETNX_def
      event_literal state_literal split: if_splits option.splits\<close>)

lemma exec_effect_kept:
  assumes "op_ok op" "ks_hashes (view s) (jobRuntimeKey j) (runtimeEffectPrefix @ x) = Some v"
    and "ks_hashes (view s) (jobRuntimeKey j) (runtimeEventPrefix @ x) \<noteq> None"
    and "\<forall>e. op = OpAck e \<longrightarrow> ef_JobID e \<noteq> j \<or> ef_EventID e \<noteq> x"
  shows "ks_hashes (view (runtime_exec R op s)) (jobRuntimeKey j) (runtimeEffectPrefix @ x) = Some v"
proof (cases op)
  case (OpBegin j' d w t sec)
  show ?thesis
    by (rule begin_h [of sec "jobRuntimeKey j'" d w t s]) (use OpBegin assms in auto)
next
  case (OpMigrate)
  then show ?thesis using assms by (auto simp: migrate_h)
next
  case (OpApply a sec)
  then show ?thesis using assms by (auto simp: applyJobResultScript_def Let_def reads split: option.split)
qed (use assms in \<open>auto simp: acceptJobEventScript_def acceptSignedJobEventScript_def rollbackDispatchScript_def
      cancelAllJobAttemptsScript_def transitionRuntimeStateScript_def ackJobEffectScript_def rHSETNX_def
      event_literal state_literal split: option.splits\<close>)

lemma hgetall_iff: "(f, v) \<in> set (rHGETALL R s k) \<longleftrightarrow> ks_hashes (view s) k f = Some v"
proof -
  have "wf_map (rHGETALL R s k)" using hash_laws by (simp add: hash_laws_def)
  then show ?thesis by (simp add: wf_map_def reads(3) [symmetric] map_of_eq_Some_iff)
qed

lemma mget_hgetall: "mget (rHGETALL R s k) f = (case ks_hashes (view s) k f of None \<Rightarrow> [] | Some v \<Rightarrow> v)"
  by (simp add: mget_def reads split: option.split)

lemma replayable_iff:
  "replayable R j s \<longleftrightarrow>
     (\<forall>x v. ks_hashes (view s) (jobRuntimeKey j) (runtimeEffectPrefix @ x) = Some v \<longrightarrow>
        b64_decode StdAlphabet v \<noteq> None \<and>
        (\<exists>w d. ks_hashes (view s) (jobRuntimeKey j) (runtimeEventPrefix @ x) = Some w \<and> b64_decode StdAlphabet w = Some d \<and> d \<noteq> []))"
    (is "_ \<longleftrightarrow> ?r")
proof -
  have nil: "b64_decode StdAlphabet [] = Some []" by (simp add: b64_decode_def)
  have "replayable R j s \<longleftrightarrow>
     (\<forall>x v. ks_hashes (view s) (jobRuntimeKey j) (runtimeEffectPrefix @ x) = Some v \<longrightarrow>
        b64_decode StdAlphabet v \<noteq> None \<and>
        b64_decode StdAlphabet (mget (rHGETALL R s (jobRuntimeKey j)) (runtimeEventPrefix @ x)) \<notin> {None, Some []})"
    unfolding replayable_def Let_def list_all_iff all_with_prefix hgetall_iff by simp
  then show ?thesis unfolding mget_hgetall by (fastforce simp: nil split: option.splits)
qed

lemma exec_replayable:
  assumes "op_ok op" "replayable R j s"
  shows "replayable R j (runtime_exec R op s)"
  unfolding replayable_iff
proof (intro allI impI)
  fix x v
  assume "ks_hashes (view (runtime_exec R op s)) (jobRuntimeKey j) (runtimeEffectPrefix @ x) = Some v"
  from exec_effect_new [OF assms(1) this]
  show "b64_decode StdAlphabet v \<noteq> None \<and>
    (\<exists>w d. ks_hashes (view (runtime_exec R op s)) (jobRuntimeKey j) (runtimeEventPrefix @ x) = Some w \<and> b64_decode StdAlphabet w = Some d \<and> d \<noteq> [])"
  proof
    assume "ks_hashes (view s) (jobRuntimeKey j) (runtimeEffectPrefix @ x) = Some v"
    then show ?thesis using assms(2) exec_event [OF assms(1)] unfolding replayable_iff by blast
  qed (auto simp: b64_roundtrip)
qed

lemma ApplyJobResult_effect:
  assumes "ApplyJobResult R c ttl a s = (Inr JobEventApplied, s1)"
  shows "ks_hashes (view s1) (jobRuntimeKey (ap_JobID a)) (runtimeEffectPrefix @ eventID (ap_MessageID a)) =
    Some (b64_encode StdAlphabet (ap_Effect a))"
  using assms
  by (cases "c 2")
    (auto simp: ApplyJobResult_def dispositionOf_def applyJobResultScript_def run_def Let_def runtimeTTL_pos
      split: if_splits prod.splits bool.splits option.splits)

text \<open>An operation of the store is a sequence of steps.\<close>

lemma migrateRuntimeFence_steps:
  "\<exists>ops. (\<forall>op \<in> set ops. op_ok op) \<and> snd (migrateRuntimeFence R c ttl j s) = fold (runtime_exec R) ops s"
  by (cases "c 1")
    (auto simp: migrateRuntimeFence_def run_def runtimeTTL_pos intro: exI [of _ "[]"]
      exI [of _ "[OpMigrate j (rHGETALL R s (jobMetaKey j)) (runtimeTTLSeconds ttl)]"])

lemma ApplyJobResult_steps:
  "\<exists>ops. (\<forall>op \<in> set ops. op_ok op) \<and> snd (ApplyJobResult R c ttl a s) = fold (runtime_exec R) ops s"
proof (cases "validateJobResultApply a")
  case True
  obtain ops where ops: "\<forall>op \<in> set ops. op_ok op" "snd (migrateRuntimeFence R c ttl (ap_JobID a) s) = fold (runtime_exec R) ops s"
    using migrateRuntimeFence_steps by blast
  let ?op = "OpApply a (runtimeTTLSeconds ttl)"
  have "snd (ApplyJobResult R c ttl a s) \<in> {fold (runtime_exec R) ops s, fold (runtime_exec R) (ops @ [?op]) s}"
    using True ops(2) by (cases "c 2") (auto simp: ApplyJobResult_def run_def split: prod.splits bool.splits)
  then show ?thesis using ops(1) True runtimeTTL_pos by (elim insertE emptyE) (force intro: exI [of _ "ops @ [?op]"])+
qed (auto simp: ApplyJobResult_def intro: exI [of _ "[]"])

lemma fold_replayable:
  "(\<forall>op \<in> set ops. op_ok op) \<Longrightarrow> replayable R j s \<Longrightarrow> replayable R j (fold (runtime_exec R) ops s)"
  by (induction ops arbitrary: s) (simp_all add: exec_replayable)

lemma fold_effect:
  assumes "\<forall>op \<in> set ops. op_ok op \<and> (\<forall>e. op = OpAck e \<longrightarrow> ef_JobID e \<noteq> j \<or> ef_EventID e \<noteq> x)"
    and "ks_hashes (view s) (jobRuntimeKey j) (runtimeEffectPrefix @ x) = Some v"
    and "ks_hashes (view s) (jobRuntimeKey j) (runtimeEventPrefix @ x) = Some w"
  shows "ks_hashes (view (fold (runtime_exec R) ops s)) (jobRuntimeKey j) (runtimeEffectPrefix @ x) = Some v"
  using assms by (induction ops arbitrary: s) (simp_all add: exec_effect_kept exec_event)

lemma replay_finds:
  assumes "replayable R j s" "j \<noteq> []" "int (length (rHGETALL R s (jobRuntimeKey j))) \<le> limit"
    and "ks_hashes (view s) (jobRuntimeKey j) (runtimeEffectPrefix @ x) = Some (b64_encode StdAlphabet p)"
    and "ks_hashes (view s) (jobRuntimeKey j) (runtimeEventPrefix @ x) = Some (b64_encode StdAlphabet d)"
    and key: "runtimeJobID (jobRuntimeKey j) = Some j"
  shows "\<exists>es. appendRuntimeEffects (jobRuntimeKey j) (rHGETALL R s (jobRuntimeKey j)) [] limit = Some es \<and>
    \<lparr>ef_JobID = j, ef_EventID = x, ef_Digest = d, ef_Payload = p\<rparr> \<in> set es"
proof -
  let ?all = "rHGETALL R s (jobRuntimeKey j)"
  let ?dec = "\<lambda>(f, v). \<lparr>ef_JobID = j, ef_EventID = TrimPrefix f runtimeEffectPrefix,
        ef_Digest = the (b64_decode StdAlphabet (mget ?all (runtimeEventPrefix @ TrimPrefix f runtimeEffectPrefix))),
        ef_Payload = the (b64_decode StdAlphabet v)\<rparr>"
  let ?effs = "filter (\<lambda>(f, v). HasPrefix f runtimeEffectPrefix) ?all"
  have "appendRuntimeEffects (jobRuntimeKey j) ?all [] limit = Some (map ?dec ?effs)"
    using runtimeEffects_all [of ?all ?all "[]" limit j] assms(1,3)
    by (simp add: appendRuntimeEffects_def key replayable_def Let_def list_all_iff)
  moreover have "(runtimeEffectPrefix @ x, b64_encode StdAlphabet p) \<in> set ?effs"
    using assms(4) by (simp add: hgetall_iff)
  then have "?dec (runtimeEffectPrefix @ x, b64_encode StdAlphabet p) \<in> set (map ?dec ?effs)"
    by (metis (no_types, lifting) image_eqI set_map)
  moreover have "mget ?all (runtimeEventPrefix @ x) = b64_encode StdAlphabet d" using assms(5) by (simp add: mget_hgetall)
  ultimately show ?thesis by (simp add: b64_roundtrip)
qed

end



end
