(* ===== verification/Job_Store.thy ===== *)
theory Job_Store
  imports Job_Runtime
begin

text \<open>
  The query side of the job store, from \<open>core/infra/store\<close> (\<open>job_store.go\<close> and
  \<open>job_event_projection.go\<close>): the metadata hash of a job, its legacy state key, the per-state
  index, the active set of a tenant, deadlines and idempotency keys.

  A state change is a WATCH transaction. Its reads see one server state and its EXEC meets another;
  the server runs the queued commands only if the watched keys did not change in between. The
  projection of a finished job is a sequence of single commands, any of which can fail.

  The main results: a state index lists exactly the jobs in that state, a successful projection
  repairs the index of its job whatever state an earlier failure left behind, the state in the
  metadata only moves along the transition table, and an idempotency key belongs to one job.
\<close>

section \<open>Keys and fields\<close>

definition metaFieldTenant :: string where "metaFieldTenant = ''tenant''"
definition metaFieldAttempts :: string where "metaFieldAttempts = ''attempts''"
definition metaFieldWorkerID :: string where "metaFieldWorkerID = ''worker_id''"
definition metaFieldDeadline :: string where "metaFieldDeadline = ''deadline_unix''"

lemmas meta_field_defs = metaFieldTenant_def metaFieldAttempts_def metaFieldWorkerID_def metaFieldDeadline_def

definition jobResultPtrKey :: "string \<Rightarrow> string" where
  "jobResultPtrKey jobID = ''job:result_ptr:'' @ jobID"

definition jobEventsKey :: "string \<Rightarrow> string" where
  "jobEventsKey jobID = ''job:events:'' @ jobID"

definition jobIdempotencyKey :: "string \<Rightarrow> string" where
  "jobIdempotencyKey key = ''job:idempotency:'' @ key"

definition jobIdempotencyKeyScoped :: "string \<Rightarrow> string \<Rightarrow> string" where
  "jobIdempotencyKeyScoped tenant key =
     (let tenant = TrimSpace tenant; key = TrimSpace key in
      if key = [] then []
      else if tenant = [] then jobIdempotencyKey key
      else jobIdempotencyKey (tenant @ '':'' @ key))"

definition tenantActiveKey :: "string \<Rightarrow> string" where
  "tenantActiveKey tenant = ''job:tenant:active:'' @ tenant"

definition stateIndexKey :: "string \<Rightarrow> string" where
  "stateIndexKey state = (if state = [] then [] else ''job:index:'' @ ToLower state)"

definition workerJobsKey :: "string \<Rightarrow> string" where
  "workerJobsKey workerID = ''worker:jobs:'' @ workerID"

definition deadlineIndexKey :: string where "deadlineIndexKey = ''job:deadline''"

definition recentKey :: string where "recentKey = ''job:recent''"

section \<open>Timestamps\<close>

definition microsPerSecond :: int where "microsPerSecond = 1000000"
definition microsPerMillisecond :: int where "microsPerMillisecond = 1000"
definition secondsThreshold :: int where "secondsThreshold = 1000000000000"
definition millisThreshold :: int where "millisThreshold = 1000000000000000"
definition microsThreshold :: int where "microsThreshold = 1000000000000000000"

definition normalizeTimestampMicrosUpper :: "int \<Rightarrow> int" where
  "normalizeTimestampMicrosUpper ts =
     (if ts \<le> 0 then ts
      else if ts < secondsThreshold then ts * microsPerSecond + (microsPerSecond - 1)
      else if ts < millisThreshold then ts * microsPerMillisecond + (microsPerMillisecond - 1)
      else if ts < microsThreshold then ts
      else ts div microsPerMillisecond)"

section \<open>Client commands\<close>

text \<open>
  The client library turns a duration into whole seconds for EXPIRE (at least one) and into
  milliseconds for SET with an expiry (at least one); a duration of zero sets no expiry.
\<close>

definition expireTTL :: "'s redis \<Rightarrow> int \<Rightarrow> string \<Rightarrow> 's \<Rightarrow> 's" where
  "expireTTL R ttl key s = (if ttl > 0 then rEXPIRE R key (max 1 (ttl div 1000000000)) s else s)"

definition setTTL :: "'s redis \<Rightarrow> string \<Rightarrow> string \<Rightarrow> int \<Rightarrow> 's \<Rightarrow> 's" where
  "setTTL R key value ttl s = (if ttl > 0 then rSETPX R key value (max 1 (ttl div 1000000)) s else rSET R key value s)"

definition setNXTTL :: "'s redis \<Rightarrow> string \<Rightarrow> string \<Rightarrow> int \<Rightarrow> 's \<Rightarrow> bool \<times> 's" where
  "setNXTTL R key value ttl s = (if rGET R s key = None then (True, setTTL R key value ttl s) else (False, s))"

text \<open>Commands sent one after the other until one of them fails.\<close>

fun runAll :: "(nat \<Rightarrow> call) \<Rightarrow> ('s \<Rightarrow> 's) list \<Rightarrow> 's \<Rightarrow> bool \<times> 's" where
  "runAll c [] s = (True, s)"
| "runAll c (f # fs) s =
     (case run (c 0) (\<lambda>s. ((), f s)) s of
        (None, s') \<Rightarrow> (False, s')
      | (Some _, s') \<Rightarrow> runAll (\<lambda>i. c (Suc i)) fs s')"

text \<open>The EXEC of a transaction: refused when a watched key changed.\<close>

definition execTx :: "call \<Rightarrow> bool \<Rightarrow> ('s \<Rightarrow> 's) \<Rightarrow> 's \<Rightarrow> bool \<times> 's" where
  "execTx c clean writes s =
     (if \<not> clean then (False, s)
      else case run c (\<lambda>s. ((), writes s)) s of (r, s') \<Rightarrow> (r \<noteq> None, s'))"

section \<open>Setting the state\<close>

text \<open>
  The encoder of the event log is a parameter; it returns nothing when encoding fails. The event
  is the timestamp and the state with an optional context of any type.
\<close>

type_synonym 'c marshal = "int \<Rightarrow> string \<Rightarrow> 'c option \<Rightarrow> string option"

definition serializeJobEvent :: "'c marshal \<Rightarrow> string \<Rightarrow> int \<Rightarrow> 'c option \<Rightarrow> string option" where
  "serializeJobEvent marshal state nowMicros evtCtx = marshal nowMicros state evtCtx"

definition storedAttempts :: "'s redis \<Rightarrow> call \<Rightarrow> string \<Rightarrow> 's \<Rightarrow> int" where
  "storedAttempts R c jobID s =
     (case if c = CallOk then rHGET R s (jobMetaKey jobID) metaFieldAttempts else None of
        None \<Rightarrow> 0
      | Some raw \<Rightarrow> (case Atoi raw of None \<Rightarrow> 0 | Some parsed \<Rightarrow> if parsed \<ge> 0 then parsed else 0))"

definition touchActive :: "'s redis \<Rightarrow> int \<Rightarrow> string \<Rightarrow> string \<Rightarrow> string \<Rightarrow> 's \<Rightarrow> 's" where
  "touchActive R metaTTL tenant jobID state s =
     (if tenant = [] then s
      else let key = tenantActiveKey tenant;
               s1 = (if isActiveState state then rSADD R key jobID s
                     else if state \<in> set terminalStates then rSREM R key jobID s else s)
           in expireTTL R metaTTL key s1)"

definition moveIndex :: "'s redis \<Rightarrow> int \<Rightarrow> string \<Rightarrow> string \<Rightarrow> string \<Rightarrow> 's \<Rightarrow> 's" where
  "moveIndex R now jobID prevState state s =
     (let s1 = (if stateIndexKey prevState \<noteq> [] then rZREM R (stateIndexKey prevState) jobID s else s)
      in if stateIndexKey state \<noteq> [] then rZADD R (stateIndexKey state) now jobID s1 else s1)"

definition touchRecent :: "'s redis \<Rightarrow> int \<Rightarrow> string \<Rightarrow> 's \<Rightarrow> 's" where
  "touchRecent R now jobID s = rZKEEP R recentKey 1000 (rZADD R recentKey now jobID s)"

definition expireJob :: "'s redis \<Rightarrow> int \<Rightarrow> string \<Rightarrow> 's \<Rightarrow> 's" where
  "expireJob R metaTTL jobID s =
     expireTTL R metaTTL (jobResultPtrKey jobID) (expireTTL R metaTTL (jobStateKey jobID) (expireTTL R metaTTL (jobMetaKey jobID) s))"

definition dropDeadline :: "'s redis \<Rightarrow> string \<Rightarrow> 's \<Rightarrow> 's" where
  "dropDeadline R jobID s = rHDEL R (jobMetaKey jobID) metaFieldDeadline (rZREM R deadlineIndexKey jobID s)"

definition setStateWrites ::
    "'s redis \<Rightarrow> int \<Rightarrow> int \<Rightarrow> string \<Rightarrow> string \<Rightarrow> string \<Rightarrow> int \<Rightarrow> string \<Rightarrow> string \<Rightarrow> 's \<Rightarrow> 's" where
  "setStateWrites R metaTTL now jobID prevState state attempts tenant eventStr s =
     (let meta = jobMetaKey jobID;
          s1 = rHSET R meta metaFieldAttempts (Itoa attempts) (rHSET R meta ''updated_at'' (Itoa now) (rHSET R meta ''state'' state s));
          s2 = moveIndex R now jobID prevState state (rSET R (jobStateKey jobID) state s1);
          s3 = expireJob R metaTTL jobID (touchRecent R now jobID (touchActive R metaTTL tenant jobID state s2));
          s4 = rRPUSH R (jobEventsKey jobID) eventStr s3
      in if state \<in> set terminalStates then dropDeadline R jobID s4 else s4)"

definition SetStateWithContext ::
    "'s redis \<Rightarrow> 'c marshal \<Rightarrow> (nat \<Rightarrow> call) \<Rightarrow> bool \<Rightarrow> int \<Rightarrow> int \<Rightarrow> string \<Rightarrow> string \<Rightarrow> 'c option \<Rightarrow> 's \<Rightarrow> 's \<Rightarrow>
     (store_error + unit) \<times> 's" where
  "SetStateWithContext R marshal c clean metaTTL now jobID state evtCtx s0 s =
     (if jobID = [] \<or> state = [] then (Inl InvalidArguments, s)
      else if c 0 \<noteq> CallOk \<or> c 1 \<noteq> CallOk then (Inl StoreUnavailable, s)
      else let prevState = (case rHGET R s0 (jobMetaKey jobID) ''state'' of None \<Rightarrow> [] | Some v \<Rightarrow> v) in
        if \<not> isAllowedTransition prevState state then (Inl InvalidTransition, s)
        else let stored = storedAttempts R (c 2) jobID s0;
                 attempts = (if state = JobStateScheduled \<and> prevState \<noteq> JobStateScheduled then stored + 1 else stored);
                 tenant = (if c 3 = CallOk then case rHGET R s0 (jobMetaKey jobID) metaFieldTenant of None \<Rightarrow> [] | Some v \<Rightarrow> v else [])
             in case serializeJobEvent marshal state now evtCtx of
                  None \<Rightarrow> (Inl StoreUnavailable, s)
                | Some eventStr \<Rightarrow>
                    (case execTx (c 4) clean (setStateWrites R metaTTL now jobID prevState state attempts tenant eventStr) s of
                       (True, s') \<Rightarrow> (Inr (), s')
                     | (False, s') \<Rightarrow> (Inl StoreUnavailable, s')))"

section \<open>Projecting a result\<close>

definition projectLegacyResultMeta ::
    "'s redis \<Rightarrow> (nat \<Rightarrow> call) \<Rightarrow> string \<Rightarrow> string \<Rightarrow> string \<Rightarrow> string \<Rightarrow> int \<Rightarrow> 's \<Rightarrow> bool \<times> 's" where
  "projectLegacyResultMeta R c jobID state resultPtr workerID now s =
     runAll c [\<lambda>s. let meta = jobMetaKey jobID;
                     s1 = rHSET R meta ''updated_at'' (Itoa now) (rHSET R meta runtimeStateField state s);
                     s2 = (if resultPtr \<noteq> [] then rHSET R meta runtimeResultField resultPtr s1 else s1)
                 in if workerID \<noteq> [] then rHSET R meta metaFieldWorkerID workerID s2 else s2] s"

definition projectLegacyResultKeys ::
    "'s redis \<Rightarrow> (nat \<Rightarrow> call) \<Rightarrow> int \<Rightarrow> string \<Rightarrow> string \<Rightarrow> string \<Rightarrow> 's \<Rightarrow> bool \<times> 's" where
  "projectLegacyResultKeys R c metaTTL jobID state resultPtr s =
     runAll c ([setTTL R (jobStateKey jobID) state metaTTL] @
               (if resultPtr = [] then [] else [setTTL R (jobResultPtrKey jobID) resultPtr metaTTL])) s"

definition projectLegacyResultIndexes ::
    "'s redis \<Rightarrow> (nat \<Rightarrow> call) \<Rightarrow> string \<Rightarrow> string \<Rightarrow> int \<Rightarrow> 's \<Rightarrow> bool \<times> 's" where
  "projectLegacyResultIndexes R c jobID state now s =
     runAll c (map (\<lambda>candidate. rZREM R (stateIndexKey candidate) jobID) (filter (\<lambda>candidate. candidate \<noteq> state) projectedJobStates) @
               [rZADD R (stateIndexKey state) now jobID, rZADD R recentKey now jobID]) s"

definition projectLegacyWorker ::
    "'s redis \<Rightarrow> (nat \<Rightarrow> call) \<Rightarrow> int \<Rightarrow> string \<Rightarrow> string \<Rightarrow> int \<Rightarrow> 's \<Rightarrow> bool \<times> 's" where
  "projectLegacyWorker R c metaTTL jobID workerID now s =
     (if workerID = [] then (True, s)
      else runAll c [rZADD R (workerJobsKey workerID) now jobID, rZKEEP R (workerJobsKey workerID) 1000,
                     expireTTL R metaTTL (workerJobsKey workerID)] s)"

definition projectLegacyTerminalState ::
    "'s redis \<Rightarrow> (nat \<Rightarrow> call) \<Rightarrow> string \<Rightarrow> string \<Rightarrow> 's \<Rightarrow> bool \<times> 's" where
  "projectLegacyTerminalState R c jobID state s =
     (if c 0 \<noteq> CallOk then (False, s)
      else let tenant = (case rHGET R s (jobMetaKey jobID) metaFieldTenant of None \<Rightarrow> [] | Some v \<Rightarrow> v);
               active = (if tenant = [] then []
                         else if state \<in> set terminalStates then [rSREM R (tenantActiveKey tenant) jobID]
                         else if isActiveState state then [rSADD R (tenantActiveKey tenant) jobID] else []);
               deadline = (if state \<in> set terminalStates
                           then [rZREM R deadlineIndexKey jobID, rHDEL R (jobMetaKey jobID) metaFieldDeadline] else [])
           in runAll (\<lambda>i. c (Suc i)) (active @ deadline) s)"

text \<open>The steps of a projection, each with its own calls; the first failure ends it.\<close>

fun inSequence :: "((nat \<Rightarrow> call) \<Rightarrow> 's \<Rightarrow> bool \<times> 's) list \<Rightarrow> (nat \<Rightarrow> nat \<Rightarrow> call) \<Rightarrow> 's \<Rightarrow> bool \<times> 's" where
  "inSequence [] c s = (True, s)"
| "inSequence (f # fs) c s =
     (case f (c 0) s of (False, s') \<Rightarrow> (False, s') | (True, s') \<Rightarrow> inSequence fs (\<lambda>i. c (Suc i)) s')"

definition ProjectJobResult ::
    "'s redis \<Rightarrow> (nat \<Rightarrow> nat \<Rightarrow> call) \<Rightarrow> int \<Rightarrow> int \<Rightarrow> string \<Rightarrow> string \<Rightarrow> string \<Rightarrow> string \<Rightarrow> 's \<Rightarrow>
     (store_error + unit) \<times> 's" where
  "ProjectJobResult R c metaTTL now jobID state resultPtr workerID s =
     (if jobID = [] \<or> state = [] then (Inl InvalidArguments, s)
      else case inSequence
          [\<lambda>c. projectLegacyResultMeta R c jobID state resultPtr workerID now,
           \<lambda>c. projectLegacyResultKeys R c metaTTL jobID state resultPtr,
           \<lambda>c. projectLegacyResultIndexes R c jobID state now,
           \<lambda>c. projectLegacyWorker R c metaTTL jobID workerID now,
           \<lambda>c. projectLegacyTerminalState R c jobID state] c s of
          (True, s') \<Rightarrow> (Inr (), s')
        | (False, s') \<Rightarrow> (Inl StoreUnavailable, s'))"

section \<open>Cancelling and setting\<close>

definition cancelWrites :: "'s redis \<Rightarrow> int \<Rightarrow> int \<Rightarrow> string \<Rightarrow> string \<Rightarrow> string \<Rightarrow> string \<Rightarrow> 's \<Rightarrow> 's" where
  "cancelWrites R metaTTL now jobID currState tenant eventStr s =
     (let meta = jobMetaKey jobID;
          s1 = rHSET R meta ''updated_at'' (Itoa now) (rHSET R meta ''state'' JobStateCancelled s);
          s2 = moveIndex R now jobID currState JobStateCancelled (rSET R (jobStateKey jobID) JobStateCancelled s1);
          s3 = (if tenant \<noteq> [] then rSREM R (tenantActiveKey tenant) jobID s2 else s2);
          s4 = expireJob R metaTTL jobID (dropDeadline R jobID (touchRecent R now jobID s3))
      in rRPUSH R (jobEventsKey jobID) eventStr s4)"

text \<open>The transaction of a job without a runtime record.\<close>

definition cancelLegacy ::
    "'s redis \<Rightarrow> 'c marshal \<Rightarrow> (nat \<Rightarrow> call) \<Rightarrow> bool \<Rightarrow> int \<Rightarrow> int \<Rightarrow> string \<Rightarrow> 's \<Rightarrow> 's \<Rightarrow> (store_error + string) \<times> 's" where
  "cancelLegacy R marshal c clean metaTTL now jobID s0 s =
     (if c 0 \<noteq> CallOk \<or> c 1 \<noteq> CallOk then (Inl StoreUnavailable, s)
      else case (case rHGET R s0 (jobMetaKey jobID) ''state'' of
                   Some v \<Rightarrow> Inr v
                 | None \<Rightarrow> if c 2 \<noteq> CallOk then Inl StoreUnavailable
                           else case rGET R s0 (jobStateKey jobID) of None \<Rightarrow> Inl JobNotFound | Some v \<Rightarrow> Inr v) of
          Inl e \<Rightarrow> (Inl e, s)
        | Inr currState \<Rightarrow>
            if currState \<in> set terminalStates then (Inr currState, s)
            else let tenant = (if c 3 = CallOk then case rHGET R s0 (jobMetaKey jobID) metaFieldTenant of None \<Rightarrow> [] | Some v \<Rightarrow> v
                               else [])
                 in case serializeJobEvent marshal JobStateCancelled now None of
                      None \<Rightarrow> (Inl StoreUnavailable, s)
                    | Some eventStr \<Rightarrow>
                        (case execTx (c 4) clean (cancelWrites R metaTTL now jobID currState tenant eventStr) s of
                           (True, s') \<Rightarrow> (Inr JobStateCancelled, s')
                         | (False, s') \<Rightarrow> (Inl StoreUnavailable, s')))"

text \<open>
  Cancelling a job. \<open>env\<close> is what other clients do between the reads of the transaction and its EXEC.
\<close>

definition CancelJob ::
    "'s redis \<Rightarrow> 'c marshal \<Rightarrow> (nat \<Rightarrow> nat \<Rightarrow> call) \<Rightarrow> bool \<Rightarrow> ('s \<Rightarrow> 's) \<Rightarrow> int \<Rightarrow> int \<Rightarrow> string \<Rightarrow> 's \<Rightarrow>
     (store_error + string) \<times> 's" where
  "CancelJob R marshal c clean env metaTTL now jobID s =
     (if jobID = [] then (Inl InvalidArguments, s)
      else if c 0 0 \<noteq> CallOk then (Inl StoreUnavailable, s)
      else if rEXISTS R s (jobRuntimeKey jobID) then
        (case CancelAllJobAttempts R (c 1) metaTTL jobID s of
           (Inl e, s1) \<Rightarrow> (Inl e, s1)
         | (Inr state, s1) \<Rightarrow>
             (case ProjectJobResult R (\<lambda>i. c (i + 2)) metaTTL now jobID state [] [] s1 of
                (Inl e, s2) \<Rightarrow> (Inl e, s2)
              | (Inr _, s2) \<Rightarrow> (Inr state, s2)))
      else cancelLegacy R marshal (c 1) clean metaTTL now jobID s (env s))"

definition SetState ::
    "'s redis \<Rightarrow> 'c marshal \<Rightarrow> (nat \<Rightarrow> nat \<Rightarrow> call) \<Rightarrow> bool \<Rightarrow> ('s \<Rightarrow> 's) \<Rightarrow> int \<Rightarrow> int \<Rightarrow> string \<Rightarrow> string \<Rightarrow> 's \<Rightarrow>
     (store_error + unit) \<times> 's" where
  "SetState R marshal c clean env metaTTL now jobID state s =
     (if jobID = [] \<or> state = [] then (Inl InvalidArguments, s)
      else if c 0 0 \<noteq> CallOk then (Inl StoreUnavailable, s)
      else if \<not> rEXISTS R s (jobRuntimeKey jobID) then
        SetStateWithContext R marshal (c 1) clean metaTTL now jobID state None s (env s)
      else case transitionRuntimeState R (c 0 1) jobID state s of
          (Inl e, s1) \<Rightarrow> (Inl e, s1)
        | (Inr _, s1) \<Rightarrow>
            if c 0 2 \<noteq> CallOk then (Inl StoreUnavailable, s1)
            else if rHGET R s1 (jobMetaKey jobID) runtimeStateField = Some state then (Inr (), s1)
            else SetStateWithContext R marshal (c 1) clean metaTTL now jobID state None s1 (env s1))"

section \<open>Locks of the store\<close>

definition releaseLockScript :: "'s redis \<Rightarrow> string \<Rightarrow> string \<Rightarrow> 's \<Rightarrow> int \<times> 's" where
  "releaseLockScript R key token s = (if rGET R s key = Some token then (1, rDEL R key s) else (0, s))"

definition renewLockScript :: "'s redis \<Rightarrow> string \<Rightarrow> string \<Rightarrow> int \<Rightarrow> 's \<Rightarrow> int \<times> 's" where
  "renewLockScript R key token ms s = (if rGET R s key = Some token then (1, rPEXPIRE R key ms s) else (0, s))"

definition TryAcquireLock :: "'s redis \<Rightarrow> call \<Rightarrow> string \<Rightarrow> string \<Rightarrow> int \<Rightarrow> 's \<Rightarrow> (store_error + string) \<times> 's" where
  "TryAcquireLock R c token key ttl s =
     (let ttl = (if ttl \<le> 0 then 30 * 1000000000 else ttl) in
      case run c (setNXTTL R key token ttl) s of
        (None, s') \<Rightarrow> (Inl StoreUnavailable, s')
      | (Some acquired, s') \<Rightarrow> (Inr (if acquired then token else []), s'))"

datatype lock_release = LockReleased | LockTokenRequired | LockNotOwned | LockStoreFailed

definition ReleaseLock :: "'s redis \<Rightarrow> call \<Rightarrow> string \<Rightarrow> string \<Rightarrow> 's \<Rightarrow> lock_release \<times> 's" where
  "ReleaseLock R c key token s =
     (if key = [] then (LockReleased, s)
      else if token = [] then (LockTokenRequired, s)
      else case run c (releaseLockScript R key token) s of
          (None, s') \<Rightarrow> (LockStoreFailed, s')
        | (Some n, s') \<Rightarrow> (if n = 0 then LockNotOwned else LockReleased, s'))"

definition RenewLock :: "'s redis \<Rightarrow> call \<Rightarrow> string \<Rightarrow> string \<Rightarrow> int \<Rightarrow> 's \<Rightarrow> lock_release \<times> 's" where
  "RenewLock R c key token ttl s =
     (if key = [] \<or> token = [] then (LockTokenRequired, s)
      else case run c (renewLockScript R key token (ttl div 1000000)) s of
          (None, s') \<Rightarrow> (LockStoreFailed, s')
        | (Some n, s') \<Rightarrow> (if n = 0 then LockNotOwned else LockReleased, s'))"

section \<open>Idempotency keys\<close>

definition TrySetIdempotencyKeyScoped ::
    "'s redis \<Rightarrow> (nat \<Rightarrow> call) \<Rightarrow> int \<Rightarrow> string \<Rightarrow> string \<Rightarrow> string \<Rightarrow> 's \<Rightarrow> (store_error + bool \<times> string) \<times> 's" where
  "TrySetIdempotencyKeyScoped R c idempotencyTTL tenant key jobID s =
     (if key = [] \<or> jobID = [] then (Inl InvalidArguments, s)
      else let tenant = TrimSpace tenant; idKey = jobIdempotencyKeyScoped tenant key in
        if idKey = [] then (Inl InvalidArguments, s)
        else let claim = (case run (c 2) (setNXTTL R idKey jobID idempotencyTTL) s of
                            (None, s') \<Rightarrow> (Inl StoreUnavailable, s')
                          | (Some True, s') \<Rightarrow> (Inr (True, jobID), s')
                          | (Some False, s') \<Rightarrow>
                              if c 3 \<noteq> CallOk then (Inl StoreUnavailable, s')
                              else (Inr (False, case rGET R s' idKey of None \<Rightarrow> [] | Some v \<Rightarrow> v), s'))
             in if tenant = [] then claim
                else if c 0 \<noteq> CallOk then (Inl StoreUnavailable, s)
                else case rGET R s (jobIdempotencyKey key) of
                    None \<Rightarrow> claim
                  | Some legacyID \<Rightarrow>
                      if legacyID = [] then claim
                      else if c 1 \<noteq> CallOk then (Inl StoreUnavailable, s)
                      else let metaTenant = (case rHGET R s (jobMetaKey legacyID) ''tenant'' of None \<Rightarrow> [] | Some v \<Rightarrow> v)
                           in if metaTenant = [] \<or> metaTenant = tenant then (Inr (False, legacyID), s) else claim)"

definition SetIdempotencyKeyScoped ::
    "'s redis \<Rightarrow> call \<Rightarrow> int \<Rightarrow> string \<Rightarrow> string \<Rightarrow> string \<Rightarrow> 's \<Rightarrow> (store_error + unit) \<times> 's" where
  "SetIdempotencyKeyScoped R c idempotencyTTL tenant key jobID s =
     (if key = [] \<or> jobID = [] then (Inl InvalidArguments, s)
      else if jobIdempotencyKeyScoped tenant key = [] then (Inl InvalidArguments, s)
      else case run c (setNXTTL R (jobIdempotencyKeyScoped tenant key) jobID idempotencyTTL) s of
          (None, s') \<Rightarrow> (Inl StoreUnavailable, s')
        | (Some _, s') \<Rightarrow> (Inr (), s'))"

definition GetJobByIdempotencyKeyScoped ::
    "'s redis \<Rightarrow> (nat \<Rightarrow> call) \<Rightarrow> int \<Rightarrow> string \<Rightarrow> string \<Rightarrow> 's \<Rightarrow> (store_error + string) \<times> 's" where
  "GetJobByIdempotencyKeyScoped R c idempotencyTTL tenant key s =
     (if key = [] then (Inl InvalidArguments, s)
      else let tenant = TrimSpace tenant in
        if tenant = [] then
          (if c 0 \<noteq> CallOk then (Inl StoreUnavailable, s)
           else case rGET R s (jobIdempotencyKey key) of None \<Rightarrow> (Inl JobNotFound, s) | Some v \<Rightarrow> (Inr v, s))
        else if jobIdempotencyKeyScoped tenant key = [] then (Inl InvalidArguments, s)
        else if c 0 \<noteq> CallOk then (Inl StoreUnavailable, s)
        else case rGET R s (jobIdempotencyKeyScoped tenant key) of
            Some v \<Rightarrow> (Inr v, s)
          | None \<Rightarrow>
              if c 1 \<noteq> CallOk then (Inl StoreUnavailable, s)
              else case rGET R s (jobIdempotencyKey key) of
                  None \<Rightarrow> (Inl JobNotFound, s)
                | Some legacyID \<Rightarrow>
                    if legacyID = [] then (Inl JobNotFound, s)
                    else if c 2 \<noteq> CallOk then (Inl StoreUnavailable, s)
                    else let legacyTenant = (case rHGET R s (jobMetaKey legacyID) metaFieldTenant of None \<Rightarrow> [] | Some v \<Rightarrow> v)
                         in if legacyTenant \<noteq> [] \<and> legacyTenant \<noteq> tenant then (Inl JobNotFound, s)
                            else (Inr legacyID, snd (SetIdempotencyKeyScoped R (c 3) idempotencyTTL tenant key legacyID s)))"

section \<open>Frames\<close>

lemma index_key_other [simp]:
  "stateIndexKey t \<noteq> recentKey" "recentKey \<noteq> stateIndexKey t"
  "stateIndexKey t \<noteq> deadlineIndexKey" "deadlineIndexKey \<noteq> stateIndexKey t"
  "stateIndexKey t \<noteq> workerJobsKey w" "workerJobsKey w \<noteq> stateIndexKey t"
  by (auto simp: stateIndexKey_def recentKey_def deadlineIndexKey_def workerJobsKey_def)

lemma meta_key_inject [simp]: "jobMetaKey a = jobMetaKey b \<longleftrightarrow> a = b"
  by (simp add: jobMetaKey_def)

lemma meta_fields_other [simp]:
  "metaFieldAttempts \<noteq> ''state''" "''updated_at'' \<noteq> ''state''" "metaFieldDeadline \<noteq> ''state''" "metaFieldWorkerID \<noteq> ''state''"
  "runtimeResultField \<noteq> ''state''"
  "''state'' \<noteq> metaFieldAttempts" "''state'' \<noteq> ''updated_at''" "''state'' \<noteq> metaFieldDeadline" "''state'' \<noteq> metaFieldWorkerID"
  "''state'' \<noteq> runtimeResultField"
  by (simp_all add: meta_field_defs runtimeResultField_def)

lemma known_index:
  "t \<in> set projectedJobStates \<Longrightarrow> u \<in> set projectedJobStates \<Longrightarrow> stateIndexKey t = stateIndexKey u \<longleftrightarrow> t = u"
proof -
  have "distinct (map stateIndexKey projectedJobStates)" by code_simp
  then show "t \<in> set projectedJobStates \<Longrightarrow> u \<in> set projectedJobStates \<Longrightarrow> stateIndexKey t = stateIndexKey u \<longleftrightarrow> t = u"
    by (auto simp: distinct_map inj_on_def)
qed

lemma known_index_nonempty: "t \<noteq> [] \<Longrightarrow> stateIndexKey t \<noteq> []"
  by (simp add: stateIndexKey_def)

context redis_server
begin

lemma expireTTL_frame [simp]:
  "ks_hashes (view (expireTTL R ttl k s)) = ks_hashes (view s)" "ks_zsets (view (expireTTL R ttl k s)) = ks_zsets (view s)"
  "ks_strings (view (expireTTL R ttl k s)) = ks_strings (view s)" "ks_sets (view (expireTTL R ttl k s)) = ks_sets (view s)"
  by (simp_all add: expireTTL_def expire)

lemma setTTL_frame [simp]:
  "ks_hashes (view (setTTL R k v ttl s)) = ks_hashes (view s)" "ks_zsets (view (setTTL R k v ttl s)) = ks_zsets (view s)"
  "ks_strings (view (setTTL R k v ttl s)) = (ks_strings (view s))(k \<mapsto> v)" "ks_sets (view (setTTL R k v ttl s)) = ks_sets (view s)"
  by (simp_all add: setTTL_def writes)

lemma frames [simp]:
  "ks_hashes (view (touchRecent R now j s)) = ks_hashes (view s)"
  "ks_zsets (view (touchRecent R now j s)) (stateIndexKey t) = ks_zsets (view s) (stateIndexKey t)"
  "ks_hashes (view (expireJob R ttl j s)) = ks_hashes (view s)" "ks_zsets (view (expireJob R ttl j s)) = ks_zsets (view s)"
  "ks_hashes (view (touchActive R ttl ten j st s)) = ks_hashes (view s)" "ks_zsets (view (touchActive R ttl ten j st s)) = ks_zsets (view s)"
  "ks_hashes (view (moveIndex R now j prev st s)) = ks_hashes (view s)"
  "ks_hashes (view (dropDeadline R j s)) (jobMetaKey j') ''state'' = ks_hashes (view s) (jobMetaKey j') ''state''"
  "ks_zsets (view (dropDeadline R j s)) (stateIndexKey t) = ks_zsets (view s) (stateIndexKey t)"
  by (simp_all add: touchRecent_def expireJob_def touchActive_def moveIndex_def dropDeadline_def Let_def writes zkeep)

lemma moveIndex_index:
  "ks_zsets (view (moveIndex R now j prev st s)) (stateIndexKey t) j' =
     (if j' \<noteq> j then ks_zsets (view s) (stateIndexKey t) j'
      else if st \<noteq> [] \<and> stateIndexKey t = stateIndexKey st then Some now
      else if prev \<noteq> [] \<and> stateIndexKey t = stateIndexKey prev then None
      else ks_zsets (view s) (stateIndexKey t) j')"
proof -
  have "stateIndexKey u \<noteq> [] \<longleftrightarrow> u \<noteq> []" for u by (simp add: stateIndexKey_def)
  then show ?thesis by (simp add: moveIndex_def Let_def writes)
qed

lemma setStateWrites_meta:
  "ks_hashes (view (setStateWrites R ttl now j prev st att ten ev s)) (jobMetaKey j') ''state'' =
     (if j' = j then Some st else ks_hashes (view s) (jobMetaKey j') ''state'')"
  by (simp add: setStateWrites_def Let_def writes)

lemma setStateWrites_index:
  "ks_zsets (view (setStateWrites R ttl now j prev st att ten ev s)) (stateIndexKey t) j' =
     (if j' \<noteq> j then ks_zsets (view s) (stateIndexKey t) j'
      else if st \<noteq> [] \<and> stateIndexKey t = stateIndexKey st then Some now
      else if prev \<noteq> [] \<and> stateIndexKey t = stateIndexKey prev then None
      else ks_zsets (view s) (stateIndexKey t) j')"
  by (simp add: setStateWrites_def Let_def writes moveIndex_index)

lemma cancelWrites_meta:
  "ks_hashes (view (cancelWrites R ttl now j prev ten ev s)) (jobMetaKey j') ''state'' =
     (if j' = j then Some JobStateCancelled else ks_hashes (view s) (jobMetaKey j') ''state'')"
  by (simp add: cancelWrites_def Let_def writes)

lemma cancelWrites_index:
  "ks_zsets (view (cancelWrites R ttl now j prev ten ev s)) (stateIndexKey t) j' =
     (if j' \<noteq> j then ks_zsets (view s) (stateIndexKey t) j'
      else if stateIndexKey t = stateIndexKey JobStateCancelled then Some now
      else if prev \<noteq> [] \<and> stateIndexKey t = stateIndexKey prev then None
      else ks_zsets (view s) (stateIndexKey t) j')"
  by (simp add: cancelWrites_def Let_def writes moveIndex_index) (simp add: JobStateCancelled_def)

end

section \<open>Steps of the store\<close>

text \<open>
  The state recorded in the metadata, and what an undisturbed WATCH guarantees: the watched keys
  of the job have the same values at the EXEC as at the reads.
\<close>

definition metaState :: "'s redis \<Rightarrow> string \<Rightarrow> 's \<Rightarrow> string" where
  "metaState R jobID s = (case rHGET R s (jobMetaKey jobID) ''state'' of None \<Rightarrow> [] | Some v \<Rightarrow> v)"

definition watched_same :: "'s redis \<Rightarrow> string \<Rightarrow> 's \<Rightarrow> 's \<Rightarrow> bool" where
  "watched_same R jobID s0 s \<longleftrightarrow>
     rHGET R s0 (jobMetaKey jobID) = rHGET R s (jobMetaKey jobID) \<and> rGET R s0 (jobStateKey jobID) = rGET R s (jobStateKey jobID)"

inductive state_step :: "'s redis \<Rightarrow> 'c marshal \<Rightarrow> 's \<Rightarrow> 's \<Rightarrow> bool" for R M where
  set: "(clean \<longrightarrow> watched_same R j s0 s) \<Longrightarrow> state_step R M s (snd (SetStateWithContext R M c clean ttl now j st ctx s0 s))"
| cancel: "(clean \<longrightarrow> watched_same R j s0 s) \<Longrightarrow> state_step R M s (snd (cancelLegacy R M c clean ttl now j s0 s))"
| field: "f \<noteq> ''state'' \<Longrightarrow> state_step R M s (rHSET R (jobMetaKey j) f v s)"
| runtime: "op_ok op \<Longrightarrow> state_step R M s (runtime_exec R op s)"

inductive store_step :: "'s redis \<Rightarrow> 'c marshal \<Rightarrow> 's \<Rightarrow> 's \<Rightarrow> bool" for R M where
  state: "state_step R M s s' \<Longrightarrow> store_step R M s s'"
| project: "ProjectJobResult R c ttl now j st ptr w s = (Inr (), s') \<Longrightarrow> st \<in> set projectedJobStates \<Longrightarrow> store_step R M s s'"

definition index_exact :: "'s redis \<Rightarrow> 's \<Rightarrow> bool" where
  "index_exact R s \<longleftrightarrow>
     (\<forall>j. \<forall>t \<in> set projectedJobStates. rZSCORE R s (stateIndexKey t) j \<noteq> None \<longleftrightarrow> metaState R j s = t)"

lemma SetStateWithContext_effect:
  "snd (SetStateWithContext R M c clean ttl now j st ctx s0 s) = s \<or>
   (\<exists>att ten ev. clean \<and> isAllowedTransition (metaState R j s0) st \<and>
      snd (SetStateWithContext R M c clean ttl now j st ctx s0 s) = setStateWrites R ttl now j (metaState R j s0) st att ten ev s)"
  by (cases "c 4") (auto simp: SetStateWithContext_def execTx_def run_def Let_def metaState_def split: option.splits)

lemma cancelLegacy_effect:
  "snd (cancelLegacy R M c clean ttl now j s0 s) = s \<or>
   (\<exists>cur ten ev. clean \<and> cur \<notin> set terminalStates \<and>
      (rHGET R s0 (jobMetaKey j) ''state'' = None \<or> cur = metaState R j s0) \<and>
      snd (cancelLegacy R M c clean ttl now j s0 s) = cancelWrites R ttl now j cur ten ev s)"
  by (cases "c 4") (auto simp: cancelLegacy_def execTx_def run_def Let_def metaState_def split: option.splits)

lemma watched_metaState: "watched_same R j s0 s \<Longrightarrow> metaState R j s0 = metaState R j s"
  by (simp add: watched_same_def metaState_def)

lemma runAll_ok: "runAll c fs s = (True, s') \<Longrightarrow> s' = fold (\<lambda>f. f) fs s"
  by (induction c fs s rule: runAll.induct) (auto simp: run_def split: call.splits)

lemma SetStateWithContext_ok:
  assumes "j \<noteq> []" "isAllowedTransition (metaState R j s) st" "M now st ctx = Some ev"
  shows "\<exists>att ten. SetStateWithContext R M (\<lambda>_. CallOk) True ttl now j st ctx s s = (Inr (), setStateWrites R ttl now j (metaState R j s) st att ten ev s)"
proof -
  have "st \<noteq> []" using allowed_target_known [OF assms(2)] known_not_empty by auto
  with assms show ?thesis by (auto simp: SetStateWithContext_def serializeJobEvent_def execTx_def run_def metaState_def Let_def)
qed

context redis_server
begin

lemma metaState_view: "metaState R j s = (case ks_hashes (view s) (jobMetaKey j) ''state'' of None \<Rightarrow> [] | Some v \<Rightarrow> v)"
  by (simp add: metaState_def reads)

lemma setIfPresent_z: "ks_zsets (view (setIfPresent R k f v s)) = ks_zsets (view s)"
  by (simp add: setIfPresent_def rHSETNX_def writes)

lemma fold_setIfPresent_z: "ks_zsets (view (fold (\<lambda>f. setIfPresent R k f (g f)) fs s)) = ks_zsets (view s)"
  by (induction fs arbitrary: s) (simp_all add: setIfPresent_z)

lemma exec_zsets: "op_ok op \<Longrightarrow> ks_zsets (view (runtime_exec R op s)) = ks_zsets (view s)"
proof (induction op)
  case (OpBegin j d w t sec)
  show ?case
    by (rule hincrby_cases [of "jobRuntimeKey j" metaFieldDispatchAttempt 1 s])
      (use OpBegin in \<open>simp_all add: beginDispatchScript_def expire writes\<close>)
next
  case (OpMigrate j legacy sec)
  then show ?case
    by (simp only: runtime_exec.simps migrateRuntimeFenceScript_def snd_conv op_ok.simps expire fold_setIfPresent_z)
qed (auto simp: acceptJobEventScript_def acceptSignedJobEventScript_def applyJobResultScript_def
    rollbackDispatchScript_def cancelAllJobAttemptsScript_def transitionRuntimeStateScript_def ackJobEffectScript_def
    rHSETNX_def Let_def expire writes split: option.split)

lemma exec_meta: "op_ok op \<Longrightarrow> ks_hashes (view (runtime_exec R op s)) (jobMetaKey j) = ks_hashes (view s) (jobMetaKey j)"
proof (induction op)
  case (OpBegin j' d w t sec)
  show ?case
    by (rule begin_h [of sec "jobRuntimeKey j'" d w t s]) (use OpBegin in simp_all)
next
  case (OpMigrate j' legacy sec)
  then show ?case by (auto simp: migrate_h)
qed (auto simp: acceptJobEventScript_def acceptSignedJobEventScript_def applyJobResultScript_def
    rollbackDispatchScript_def cancelAllJobAttemptsScript_def transitionRuntimeStateScript_def ackJobEffectScript_def
    rHSETNX_def Let_def split: option.split)

lemma index_exact_view:
  "index_exact R s \<longleftrightarrow>
     (\<forall>j. \<forall>t \<in> set projectedJobStates. ks_zsets (view s) (stateIndexKey t) j = None \<longleftrightarrow> metaState R j s \<noteq> t)"
proof -
  have "(P \<longleftrightarrow> Q) \<longleftrightarrow> (\<not> P \<longleftrightarrow> \<not> Q)" for P Q by blast
  from this [of "ks_zsets (view s) (stateIndexKey t) j = None" "metaState R j s \<noteq> t" for j t]
  show ?thesis unfolding index_exact_def reads(4) by (simp only: not_not)
qed

lemma metaState_writes:
  "metaState R j' (setStateWrites R ttl now j prev st att ten ev s) = (if j' = j then st else metaState R j' s)"
  "metaState R j' (cancelWrites R ttl now j prev ten ev s) = (if j' = j then JobStateCancelled else metaState R j' s)"
  by (simp_all add: metaState_view setStateWrites_meta cancelWrites_meta)

lemma index_exact_set:
  assumes "index_exact R s" "isAllowedTransition (metaState R j s) st"
  shows "index_exact R (setStateWrites R ttl now j (metaState R j s) st att ten ev s)"
proof -
  have st: "st \<in> set projectedJobStates" using allowed_target_known [OF assms(2)] .
  then have "st \<noteq> []" using known_not_empty by auto
  moreover have "t \<noteq> []" if "t \<in> set projectedJobStates" for t using that known_not_empty by auto
  ultimately show ?thesis using assms(1) known_index [OF _ st]
    by (auto simp: index_exact_view metaState_writes setStateWrites_index)
qed

lemma index_exact_cancel:
  assumes "index_exact R s" "metaState R j s = [] \<or> cur = metaState R j s"
  shows "index_exact R (cancelWrites R ttl now j cur ten ev s)"
proof -
  have st: "JobStateCancelled \<in> set projectedJobStates" by code_simp
  moreover have "t \<noteq> []" if "t \<in> set projectedJobStates" for t using that known_not_empty by auto
  ultimately show ?thesis using assms known_index [OF _ st]
    by (auto simp: index_exact_view metaState_writes cancelWrites_index)
qed

lemma metaState_frames:
  "f \<noteq> ''state'' \<Longrightarrow> metaState R j (rHSET R (jobMetaKey j') f v s) = metaState R j s"
  "op_ok op \<Longrightarrow> metaState R j (runtime_exec R op s) = metaState R j s"
  by (simp_all add: metaState_view exec_meta)

lemma state_step_index: "state_step R M s s' \<Longrightarrow> index_exact R s \<Longrightarrow> index_exact R s'"
proof (induction rule: state_step.induct)
  case (set clean j s0 s c ttl now st ctx)
  show ?case using SetStateWithContext_effect [of R M c clean ttl now j st ctx s0 s]
    by (elim disjE exE conjE) (use set watched_metaState [of R j s0 s] in \<open>auto intro: index_exact_set\<close>)
next
  case (cancel clean j s0 s c ttl now)
  have "rHGET R s0 (jobMetaKey j) ''state'' = None \<Longrightarrow> metaState R j s0 = []" by (simp add: metaState_def)
  then show ?case using cancelLegacy_effect [of R M c clean ttl now j s0 s]
    by (elim disjE exE conjE) (use cancel watched_metaState [of R j s0 s] in \<open>auto intro: index_exact_cancel\<close>)
next
  case (field f s j v)
  then show ?case by (simp add: index_exact_view metaState_frames writes)
next
  case (runtime op s)
  then show ?case by (simp add: index_exact_view metaState_frames exec_zsets)
qed

lemma fold_zrem_index:
  "ks_zsets (view (fold (\<lambda>f. f) (map (\<lambda>u. rZREM R (stateIndexKey u) j) us) s)) k j' =
     (if j' = j \<and> k \<in> stateIndexKey ` set us then None else ks_zsets (view s) k j')"
  "ks_hashes (view (fold (\<lambda>f. f) (map (\<lambda>u. rZREM R (stateIndexKey u) j) us) s)) = ks_hashes (view s)"
  "ks_strings (view (fold (\<lambda>f. f) (map (\<lambda>u. rZREM R (stateIndexKey u) j) us) s)) = ks_strings (view s)"
  by (induction us arbitrary: s) (auto simp: writes)

text \<open>What each step of a projection leaves behind when it succeeds.\<close>

lemma project_meta_ok:
  assumes "projectLegacyResultMeta R c j st ptr w now s = (True, s')"
  shows "ks_hashes (view s') (jobMetaKey j') ''state'' = (if j' = j then Some st else ks_hashes (view s) (jobMetaKey j') ''state'')"
    "ks_zsets (view s') = ks_zsets (view s)" "ks_strings (view s') = ks_strings (view s)"
  using runAll_ok [OF assms [unfolded projectLegacyResultMeta_def]] by (simp_all add: Let_def writes state_literal [symmetric])

lemma project_keys_ok:
  assumes "projectLegacyResultKeys R c ttl j st ptr s = (True, s')"
  shows "ks_hashes (view s') = ks_hashes (view s)" "ks_zsets (view s') = ks_zsets (view s)"
    "ks_strings (view s') (jobStateKey j) = Some st"
  using runAll_ok [OF assms [unfolded projectLegacyResultKeys_def]]
  by (simp_all add: jobStateKey_def jobResultPtrKey_def split: if_splits)

lemma project_indexes_ok:
  assumes "projectLegacyResultIndexes R c j st now s = (True, s')"
  shows "ks_hashes (view s') = ks_hashes (view s)" "ks_strings (view s') = ks_strings (view s)"
    "t \<in> set projectedJobStates \<Longrightarrow> st \<in> set projectedJobStates \<Longrightarrow>
       ks_zsets (view s') (stateIndexKey t) j' =
         (if j' \<noteq> j then ks_zsets (view s) (stateIndexKey t) j' else if t = st then Some now else None)"
  using runAll_ok [OF assms [unfolded projectLegacyResultIndexes_def]]
  by (auto simp: writes fold_zrem_index known_index)

lemma project_worker_ok:
  assumes "projectLegacyWorker R c ttl j w now s = (True, s')"
  shows "ks_hashes (view s') = ks_hashes (view s)" "ks_strings (view s') = ks_strings (view s)"
    "ks_zsets (view s') (stateIndexKey t) = ks_zsets (view s) (stateIndexKey t)"
  using assms by (auto simp: projectLegacyWorker_def writes zkeep simp del: runAll.simps split: if_splits dest!: runAll_ok)

lemma project_terminal_ok:
  assumes "projectLegacyTerminalState R c j st s = (True, s')"
  shows "ks_hashes (view s') (jobMetaKey j') ''state'' = ks_hashes (view s) (jobMetaKey j') ''state''" "ks_strings (view s') = ks_strings (view s)"
    "ks_zsets (view s') (stateIndexKey t) = ks_zsets (view s) (stateIndexKey t)"
  using assms
  by (auto simp: projectLegacyTerminalState_def Let_def writes simp del: runAll.simps split: if_splits option.splits dest!: runAll_ok)

lemma ProjectJobResult_ok:
  assumes "ProjectJobResult R c ttl now j st ptr w s = (Inr (), s')"
  shows "metaState R j' s' = (if j' = j then st else metaState R j' s)"
    "ks_strings (view s') (jobStateKey j) = Some st"
    "t \<in> set projectedJobStates \<Longrightarrow> st \<in> set projectedJobStates \<Longrightarrow>
       ks_zsets (view s') (stateIndexKey t) j' =
         (if j' \<noteq> j then ks_zsets (view s) (stateIndexKey t) j' else if t = st then Some now else None)"
proof -
  from assms obtain s1 s2 s3 s4 where
    1: "projectLegacyResultMeta R (c 0) j st ptr w now s = (True, s1)" and
    2: "projectLegacyResultKeys R (c 1) ttl j st ptr s1 = (True, s2)" and
    3: "projectLegacyResultIndexes R (c 2) j st now s2 = (True, s3)" and
    4: "projectLegacyWorker R (c 3) ttl j w now s3 = (True, s4)" and
    5: "projectLegacyTerminalState R (c 4) j st s4 = (True, s')"
    by (auto simp: ProjectJobResult_def eval_nat_numeral split: if_splits prod.splits bool.splits)
  note ok = project_meta_ok [OF 1] project_keys_ok [OF 2] project_indexes_ok [OF 3] project_worker_ok [OF 4] project_terminal_ok [OF 5]
  show "metaState R j' s' = (if j' = j then st else metaState R j' s)" by (simp add: metaState_view ok)
  show "ks_strings (view s') (jobStateKey j) = Some st" by (simp add: ok)
  show "ks_zsets (view s') (stateIndexKey t) j' =
      (if j' \<noteq> j then ks_zsets (view s) (stateIndexKey t) j' else if t = st then Some now else None)"
    if "t \<in> set projectedJobStates" "st \<in> set projectedJobStates" using that by (simp add: ok)
qed

lemma store_step_index: "store_step R M s s' \<Longrightarrow> index_exact R s \<Longrightarrow> index_exact R s'"
proof (induction rule: store_step.induct)
  case (state s s')
  then show ?case using state_step_index by blast
next
  case (project c ttl now j st ptr w s s')
  then show ?case by (auto simp: index_exact_view ProjectJobResult_ok [OF project(1)])
qed

end


text \<open>Examples with an event encoder that keeps the state only.\<close>

definition ex_marshal :: "unit marshal" where
  "ex_marshal now state ctx = Some state"

definition ex_set :: "string \<Rightarrow> int \<Rightarrow> server \<Rightarrow> (store_error + unit) \<times> server" where
  "ex_set state now s = SetStateWithContext map_redis ex_marshal (\<lambda>_. CallOk) True 1000000000 now ''j1'' state None s s"

definition ex_pending :: server where "ex_pending = snd (ex_set JobStatePending 7 empty_server)"

lemma ex_set_step: "state_step map_redis ex_marshal s (snd (ex_set state now s))"
  unfolding ex_set_def by (rule state_step.set) (simp add: watched_same_def)

lemma empty_server_reads: "rHGET map_redis empty_server k f = None" "rZSCORE map_redis empty_server k f = None"
  "metaState map_redis j empty_server = []"
  by (simp_all add: metaState_def map_redis_def empty_server_def field_of_def)

lemma ex_pending_ok:
  "fst (ex_set JobStatePending 7 empty_server) = Inr ()"
  "rZSCORE map_redis ex_pending (stateIndexKey JobStatePending) ''j1'' = Some 7"
  "metaState map_redis ''j1'' ex_pending = JobStatePending"
proof -
  have "isAllowedTransition [] JobStatePending" by code_simp
  then obtain att ten where
    "ex_set JobStatePending 7 empty_server = (Inr (), setStateWrites map_redis 1000000000 7 ''j1'' [] JobStatePending att ten JobStatePending empty_server)"
    using SetStateWithContext_ok [of "''j1''" map_redis empty_server JobStatePending ex_marshal 7 None JobStatePending 1000000000]
    by (auto simp: ex_set_def ex_marshal_def empty_server_reads)
  moreover have "JobStatePending \<noteq> []" by (simp add: JobStatePending_def)
  ultimately show "fst (ex_set JobStatePending 7 empty_server) = Inr ()"
    "rZSCORE map_redis ex_pending (stateIndexKey JobStatePending) ''j1'' = Some 7"
    "metaState map_redis ''j1'' ex_pending = JobStatePending"
    by (simp_all add: ex_pending_def mr.reads(4) mr.setStateWrites_index mr.metaState_writes)
qed


text \<open>
  C32. A completed projection repairs its job. Whatever an earlier, interrupted projection or
  transaction left behind, after a projection that reports success the metadata, the legacy state
  key and the indexes of all states agree on the projected state.
\<close>

theorem projection_repairs:
  assumes "redis_laws R view" "ProjectJobResult R c ttl now j st ptr w s = (Inr (), s')" "st \<in> set projectedJobStates"
  shows "metaState R j s' = st \<and> rGET R s' (jobStateKey j) = Some st \<and>
    (\<forall>t \<in> set projectedJobStates. rZSCORE R s' (stateIndexKey t) j = (if t = st then Some now else None))"
proof -
  note srv = redis_server.intro [OF assms(1)]
  note ok = redis_server.ProjectJobResult_ok [OF srv assms(2)]
  show ?thesis using ok(1) [of j] ok(2) ok(3) [of _ j] assms(3) by (simp add: redis_server.reads [OF srv])
qed

lemma runAll_all_ok: "runAll (\<lambda>_. CallOk) fs s = (True, fold (\<lambda>f. f) fs s)"
  by (induction fs arbitrary: s) (simp_all add: run_def)

lemma ProjectJobResult_all_ok:
  assumes "j \<noteq> []" "st \<noteq> []"
  shows "fst (ProjectJobResult R (\<lambda>_ _. CallOk) ttl now j st ptr w s) = Inr ()"
  using assms
  by (simp add: ProjectJobResult_def projectLegacyResultMeta_def projectLegacyResultKeys_def projectLegacyResultIndexes_def
      projectLegacyWorker_def projectLegacyTerminalState_def runAll_all_ok Let_def del: runAll.simps)

text \<open>The client stopped after the metadata was written: the index still lists the job as pending.\<close>

definition ex_interrupted :: server where
  "ex_interrupted = snd (run CallLost (\<lambda>s. ((), rHSET map_redis (jobMetaKey ''j1'') ''state'' JobStateSucceeded s)) ex_pending)"

theorem projection_repairs_witness:
  "rZSCORE map_redis ex_interrupted (stateIndexKey JobStatePending) ''j1'' \<noteq> None \<and> metaState map_redis ''j1'' ex_interrupted = JobStateSucceeded \<and>
   rZSCORE map_redis (snd (ProjectJobResult map_redis (\<lambda>_ _. CallOk) 0 9 ''j1'' JobStateSucceeded ''ptr'' ''w1'' ex_interrupted))
     (stateIndexKey JobStatePending) ''j1'' = None"
proof -
  let ?p = "ProjectJobResult map_redis (\<lambda>_ _. CallOk) 0 9 ''j1'' JobStateSucceeded ''ptr'' ''w1'' ex_interrupted"
  have 1: "rZSCORE map_redis ex_interrupted (stateIndexKey JobStatePending) ''j1'' \<noteq> None"
    "metaState map_redis ''j1'' ex_interrupted = JobStateSucceeded"
    using ex_pending_ok(2) by (simp_all add: ex_interrupted_def run_def mr.reads(4) mr.metaState_view mr.writes)
  have 2: "?p = (Inr (), snd ?p)"
    using ProjectJobResult_all_ok [of "''j1''" JobStateSucceeded map_redis 0 9 "''ptr''" "''w1''" ex_interrupted]
    by (simp add: prod_eq_iff JobStateSucceeded_def)
  have 3: "JobStateSucceeded \<in> set projectedJobStates" "JobStatePending \<in> set projectedJobStates" "JobStatePending \<noteq> JobStateSucceeded"
    by code_simp+
  show ?thesis using projection_repairs [OF map_redis_laws 2 3(1)] 1 3 by simp
qed

section \<open>Lifecycle\<close>

lemma cancel_allowed:
  assumes "st = [] \<or> st \<in> set projectedJobStates" "st \<notin> set terminalStates"
  shows "isAllowedTransition st JobStateCancelled"
proof (cases "st = []")
  case True
  have "isAllowedTransition [] JobStateCancelled" by code_simp
  with True show ?thesis by simp
next
  case False
  with assms show ?thesis using active_not_stuck by (simp add: isActiveState_def)
qed

context redis_server
begin

lemma state_step_meta:
  "state_step R M s s' \<Longrightarrow> metaState R j s = [] \<or> metaState R j s \<in> set projectedJobStates \<Longrightarrow>
   metaState R j s' = metaState R j s \<or> isAllowedTransition (metaState R j s) (metaState R j s')"
proof (induction rule: state_step.induct)
  case (set clean j' s0 s c ttl now st ctx)
  show ?case using SetStateWithContext_effect [of R M c clean ttl now j' st ctx s0 s]
    by (elim disjE exE conjE) (use set watched_metaState [of R j' s0 s] in \<open>auto simp: metaState_writes\<close>)
next
  case (cancel clean j' s0 s c ttl now)
  from cancelLegacy_effect [of R M c clean ttl now j' s0 s]
  consider "snd (cancelLegacy R M c clean ttl now j' s0 s) = s"
    | cur ten ev where "clean" "cur \<notin> set terminalStates" "rHGET R s0 (jobMetaKey j') ''state'' = None \<or> cur = metaState R j' s0"
      "snd (cancelLegacy R M c clean ttl now j' s0 s) = cancelWrites R ttl now j' cur ten ev s"
    by blast
  then show ?case
  proof cases
    case 2
    have "metaState R j' s = [] \<or> cur = metaState R j' s"
      using 2(3) watched_metaState [of R j' s0 s] cancel(1) 2(1) by (auto simp: metaState_def)
    moreover have "[] \<notin> set terminalStates" by code_simp
    ultimately have "j' = j \<Longrightarrow> isAllowedTransition (metaState R j s) JobStateCancelled"
      using cancel_allowed cancel(2) 2(2) by metis
    then show ?thesis by (auto simp: 2(4) metaState_writes)
  qed simp
qed (simp_all add: metaState_frames)

lemma state_steps_lifecycle:
  assumes "(state_step R M)\<^sup>*\<^sup>* s s'" "metaState R j s = [] \<or> metaState R j s \<in> set projectedJobStates"
  shows "\<exists>ts. lifecycle (metaState R j s) ts \<and> metaState R j s' = last (metaState R j s # ts) \<and>
    (metaState R j s' = [] \<or> metaState R j s' \<in> set projectedJobStates)"
  using assms
proof (induction rule: rtranclp_induct)
  case base
  show ?case by (rule exI [of _ "[]"]) (use base in simp)
next
  case (step s1 s2)
  then obtain ts where ts: "lifecycle (metaState R j s) ts" "metaState R j s1 = last (metaState R j s # ts)"
    "metaState R j s1 = [] \<or> metaState R j s1 \<in> set projectedJobStates" by blast
  from state_step_meta [OF step(2) ts(3)] show ?case
  proof
    assume "metaState R j s2 = metaState R j s1"
    with ts show ?thesis by auto
  next
    assume a: "isAllowedTransition (metaState R j s1) (metaState R j s2)"
    then have "metaState R j s2 \<in> set projectedJobStates" by (rule allowed_target_known)
    moreover have "lifecycle (metaState R j s) (ts @ [metaState R j s2])" using ts a by (simp add: lifecycle_snoc)
    ultimately show ?thesis by (intro exI [of _ "ts @ [metaState R j s2]"]) simp
  qed
qed

end



text \<open>
  An error while reading the attempt counter is taken for an absent counter: the transition
  succeeds and writes the counter back as zero.
\<close>

lemma attempts_lost_on_read_error:
  assumes "redis_laws R view" "j \<noteq> []" "isAllowedTransition (metaState R j s) JobStateRunning" "M now JobStateRunning ctx = Some ev"
    and "SetStateWithContext R M (\<lambda>i. if i = 2 then CallFailed else CallOk) True ttl now j JobStateRunning ctx s s = (res, s')"
  shows "res = Inr () \<and> rHGET R s' (jobMetaKey j) metaFieldAttempts = Some (Itoa 0)"
proof -
  note srv = redis_server.intro [OF assms(1)]
  have st: "JobStateRunning \<noteq> []" "JobStateRunning \<noteq> JobStateScheduled" "JobStateRunning \<notin> set terminalStates" by code_simp+
  then obtain ten where "res = Inr ()" "s' = setStateWrites R ttl now j (metaState R j s) JobStateRunning 0 ten ev s"
    using assms by (auto simp: SetStateWithContext_def serializeJobEvent_def execTx_def run_def metaState_def Let_def storedAttempts_def)
  with st(3) show ?thesis
    by (simp add: setStateWrites_def Let_def redis_server.reads [OF srv] redis_server.writes [OF srv] redis_server.frames [OF srv])
qed

section \<open>Idempotency keys are claimed once\<close>

text \<open>The operations on idempotency keys, with any arguments and any failing calls.\<close>

inductive idem_step :: "'s redis \<Rightarrow> 's \<Rightarrow> 's \<Rightarrow> bool" for R where
  claim: "idem_step R s (snd (TrySetIdempotencyKeyScoped R c ttl tenant key j s))"
| store: "idem_step R s (snd (SetIdempotencyKeyScoped R c' ttl tenant key j s))"
| lookup: "idem_step R s (snd (GetJobByIdempotencyKeyScoped R c ttl tenant key s))"

context redis_server
begin

lemma setNXTTL_keeps: "rGET R s k = Some v \<Longrightarrow> rGET R (snd (setNXTTL R k' v' ttl s)) k = Some v"
  by (auto simp: setNXTTL_def reads)

lemma SetIdempotencyKeyScoped_keeps:
  "rGET R s k = Some v \<Longrightarrow> rGET R (snd (SetIdempotencyKeyScoped R c ttl tenant key j s)) k = Some v"
  by (cases c) (simp_all add: SetIdempotencyKeyScoped_def run_def setNXTTL_keeps)

lemma TrySetIdempotencyKeyScoped_keeps:
  "rGET R s k = Some v \<Longrightarrow> rGET R (snd (TrySetIdempotencyKeyScoped R c ttl tenant key j s)) k = Some v"
  using setNXTTL_keeps [of s k v]
  by (cases "c 2") (auto simp: TrySetIdempotencyKeyScoped_def run_def Let_def split: option.split bool.split)

lemma idem_step_keeps: "idem_step R s s' \<Longrightarrow> rGET R s k = Some v \<Longrightarrow> rGET R s' k = Some v"
proof (induction rule: idem_step.induct)
  case (lookup s c ttl tenant key)
  then show ?case
    by (auto simp: GetJobByIdempotencyKeyScoped_def Let_def SetIdempotencyKeyScoped_keeps split: option.split)
qed (simp_all add: TrySetIdempotencyKeyScoped_keeps SetIdempotencyKeyScoped_keeps)

lemma TrySetIdempotencyKeyScoped_claimed:
  assumes "TrySetIdempotencyKeyScoped R c ttl tenant key j s = (Inr (True, j'), s')"
  shows "rGET R s' (jobIdempotencyKeyScoped (TrimSpace tenant) key) = Some j \<and> j' = j"
  using assms
  by (cases "c 2") (auto simp: TrySetIdempotencyKeyScoped_def run_def Let_def setNXTTL_def reads split: if_splits option.splits)

lemma TrySetIdempotencyKeyScoped_taken:
  assumes "rGET R s (jobIdempotencyKeyScoped (TrimSpace tenant) key) = Some v"
    and "TrySetIdempotencyKeyScoped R c ttl tenant key j s = (Inr (won, j'), s')"
  shows "\<not> won \<and> (j' = v \<or> rGET R s (jobIdempotencyKey key) = Some j')"
  using assms
  by (cases "c 2") (auto simp: TrySetIdempotencyKeyScoped_def run_def Let_def setNXTTL_def split: if_splits option.splits)

end

text \<open>
  C33. An idempotency key is claimed by one job. After a submission claimed the key of a tenant, and
  after any further operations on idempotency keys, a second submission with that key never wins:
  it is answered with the job that claimed the key, or with the job of a legacy key.
\<close>

theorem idempotency_claimed_once:
  assumes "redis_laws R view" "TrySetIdempotencyKeyScoped R c ttl tenant key j s = (Inr (True, j1), s1)"
    and "(idem_step R)\<^sup>*\<^sup>* s1 s2"
    and "TrySetIdempotencyKeyScoped R c' ttl' tenant key j' s2 = (Inr (won, j2), s3)"
  shows "\<not> won \<and> j1 = j \<and> (j2 = j \<or> rGET R s2 (jobIdempotencyKey key) = Some j2)"
proof -
  note srv = redis_server.intro [OF assms(1)]
  note claimed = redis_server.TrySetIdempotencyKeyScoped_claimed [OF srv assms(2)]
  from assms(3) have "rGET R s2 (jobIdempotencyKeyScoped (TrimSpace tenant) key) = Some j"
    by (induction rule: rtranclp_induct) (use claimed redis_server.idem_step_keeps [OF srv] in auto)
  from redis_server.TrySetIdempotencyKeyScoped_taken [OF srv this assms(4)] claimed show ?thesis by blast
qed

definition ex_claim :: "string \<Rightarrow> server \<Rightarrow> (store_error + bool \<times> string) \<times> server" where
  "ex_claim j s = TrySetIdempotencyKeyScoped map_redis calls_ok 1000000000 ''acme'' ''k1'' j s"

theorem idempotency_claimed_once_witness:
  "fst (ex_claim ''j1'' empty_server) = Inr (True, ''j1'') \<and>
   fst (ex_claim ''j2'' (snd (ex_claim ''j1'' empty_server))) = Inr (False, ''j1'') \<and> \<not> False"
proof -
  have 1: "fst (ex_claim ''j1'' empty_server) = Inr (True, ''j1'')"
    and 2: "fst (ex_claim ''j2'' (snd (ex_claim ''j1'' empty_server))) = Inr (False, ''j1'')" by code_simp+
  have "\<not> False \<and> ''j1'' = ''j1'' \<and> (''j1'' = ''j1'' \<or> rGET map_redis (snd (ex_claim ''j1'' empty_server)) (jobIdempotencyKey ''k1'') = Some ''j1'')"
    by (rule idempotency_claimed_once [OF map_redis_laws, of calls_ok 1000000000 "''acme''" "''k1''" "''j1''" empty_server _
          "snd (ex_claim ''j1'' empty_server)" _ calls_ok 1000000000 "''j2''" _ _ "snd (ex_claim ''j2'' (snd (ex_claim ''j1'' empty_server)))"])
      (use 1 2 in \<open>simp_all add: prod_eq_iff ex_claim_def\<close>)
  then show ?thesis using 1 2 by blast
qed

text \<open>
  The scope of a key is not injective: a tenant whose name contains a colon shares keys with
  another tenant, and so gets that tenant's job as the answer to its submission.
\<close>

lemma idempotency_scope_collision:
  "jobIdempotencyKeyScoped ''acme'' ''eu:k1'' = jobIdempotencyKeyScoped ''acme:eu'' ''k1''"
  by code_simp

text \<open>Without a colon in the tenant the scoped keys of different tenants differ.\<close>

lemma idempotency_scope_inject:
  assumes "jobIdempotencyKeyScoped t k = jobIdempotencyKeyScoped t' k'" "TrimSpace k \<noteq> []" "TrimSpace k' \<noteq> []"
    and "CHR '':'' \<notin> set (TrimSpace t)" "CHR '':'' \<notin> set (TrimSpace t')" "TrimSpace t \<noteq> []" "TrimSpace t' \<noteq> []"
  shows "TrimSpace t = TrimSpace t' \<and> TrimSpace k = TrimSpace k'"
  using assms separator_inject [of "TrimSpace t" "CHR '':''" "TrimSpace k" "TrimSpace t'" "TrimSpace k'"]
  by (auto simp: jobIdempotencyKeyScoped_def jobIdempotencyKey_def Let_def)

section \<open>Locks and timestamps\<close>

context redis_server
begin

text \<open>A lock that is held stays with its token: others neither acquire, renew nor release it.\<close>

lemma lock_held_by_token:
  assumes "rGET R s key = Some token" "token' \<noteq> token"
  shows "fst (TryAcquireLock R CallOk token' key ttl s) = Inr []" "snd (TryAcquireLock R c token' key ttl s) = s"
    "snd (ReleaseLock R c key token' s) = s" "snd (RenewLock R c key token' ttl s) = s"
  using assms
  by (cases c; simp add: TryAcquireLock_def ReleaseLock_def RenewLock_def run_def setNXTTL_def releaseLockScript_def renewLockScript_def Let_def)+

lemma lock_acquired:
  assumes "TryAcquireLock R c token key ttl s = (Inr tok, s')" "tok \<noteq> []"
  shows "tok = token" "rGET R s key = None" "rGET R s' key = Some token"
  using assms
  by (cases c; auto simp: TryAcquireLock_def run_def setNXTTL_def reads Let_def split: if_splits)+

lemma lock_released:
  assumes "ReleaseLock R c key token s = (LockReleased, s')" "key \<noteq> []"
  shows "rGET R s key = Some token" "rGET R s' key = None"
  using assms
  by (cases c; auto simp: ReleaseLock_def run_def releaseLockScript_def reads writes del_key_def split: if_splits)+

end

text \<open>A timestamp in seconds or milliseconds becomes the last microsecond of its second or millisecond.\<close>

lemma normalizeTimestampMicrosUpper_cover:
  "0 < ts \<Longrightarrow> ts < secondsThreshold \<Longrightarrow> normalizeTimestampMicrosUpper ts div microsPerSecond = ts \<and>
     normalizeTimestampMicrosUpper ts + 1 = (ts + 1) * microsPerSecond"
  "secondsThreshold \<le> ts \<Longrightarrow> ts < millisThreshold \<Longrightarrow> normalizeTimestampMicrosUpper ts div microsPerMillisecond = ts \<and>
     normalizeTimestampMicrosUpper ts + 1 = (ts + 1) * microsPerMillisecond"
  by (simp_all add: normalizeTimestampMicrosUpper_def microsPerSecond_def microsPerMillisecond_def secondsThreshold_def millisThreshold_def)

lemma normalizeTimestampMicrosUpper_int64: "int64_range ts \<Longrightarrow> int64_range (normalizeTimestampMicrosUpper ts)"
  by (auto simp: normalizeTimestampMicrosUpper_def microsPerSecond_def microsPerMillisecond_def secondsThreshold_def
      millisThreshold_def microsThreshold_def int64_range_def)

end
