(* ===== verification/Audit_Chain.thy ===== *)
theory Audit_Chain
  imports Redis
begin

text \<open>
  The tamper-evident audit trail of \<open>core/audit\<close> (\<open>chain.go\<close>, \<open>chain_verify.go\<close>). Every event of a
  tenant is appended to a Redis stream together with the hash of its predecessor; a head key holds
  the sequence number and hash of the last event and is moved by a compare-and-set script. The
  verifier walks the stream and recomputes hashes and links.

  JSON encoding, SHA-256 and HMAC are parameters. The results: whatever writers race, the stream
  of a tenant is a linked chain that agrees with its head; the verifier reports such a chain as
  intact; two streams that the verifier accepts and that end in the same hash have the same
  events. The verifier does not detect a removed prefix whose remainder is renumbered, nor a
  removed suffix: the sequence numbers are not hashed and the head is not consulted.
\<close>

section \<open>Events and hashes\<close>

record siem_event =
  ev_Timestamp :: int
  ev_EventType :: string
  ev_Severity :: string
  ev_TenantID :: string
  ev_AgentID :: string
  ev_AgentName :: string
  ev_AgentRiskTier :: string
  ev_JobID :: string
  ev_Action :: string
  ev_Decision :: string
  ev_MatchedRule :: string
  ev_Reason :: string
  ev_RiskTags :: "string list"
  ev_Capabilities :: "string list"
  ev_PolicyVersion :: string
  ev_Identity :: string
  ev_Extra :: "string gomap"
  ev_Seq :: int
  ev_EventHash :: string
  ev_PrevHash :: string
  ev_HMAC :: string

text \<open>What the package takes from its libraries: the JSON codec and the two digests.\<close>

record audit_codec =
  jsonMarshal :: "siem_event \<Rightarrow> string option"
  jsonUnmarshal :: "string \<Rightarrow> siem_event option"
  sha256 :: "string \<Rightarrow> string"
  hmacSHA256 :: "string \<Rightarrow> string \<Rightarrow> string"

text \<open>The event with the fields cleared that are not part of the hashed bytes.\<close>

definition cleared :: "siem_event \<Rightarrow> siem_event" where
  "cleared e = e\<lparr>ev_Seq := 0, ev_EventHash := [], ev_HMAC := []\<rparr>"

definition computeEventHash :: "audit_codec \<Rightarrow> siem_event \<Rightarrow> string option" where
  "computeEventHash K e = map_option (\<lambda>b. hexEncode (sha256 K b)) (jsonMarshal K (cleared e))"

definition computeEventHMAC :: "audit_codec \<Rightarrow> siem_event \<Rightarrow> string \<Rightarrow> string option" where
  "computeEventHMAC K e key = map_option (\<lambda>b. hexEncode (hmacSHA256 K key b)) (jsonMarshal K (cleared e))"

definition VerifyEventHash :: "audit_codec \<Rightarrow> siem_event \<Rightarrow> bool option" where
  "VerifyEventHash K e = map_option (\<lambda>got. ev_EventHash e = got) (computeEventHash K e)"

definition VerifyEventHMAC :: "audit_codec \<Rightarrow> siem_event \<Rightarrow> string \<Rightarrow> bool option" where
  "VerifyEventHMAC K e key =
     (if ev_HMAC e = [] \<or> key = [] then Some True else map_option (\<lambda>got. ev_HMAC e = got) (computeEventHMAC K e key))"

section \<open>The chainer\<close>

definition ChainKeyPrefix :: string where "ChainKeyPrefix = ''audit:chain:''"
definition chainHeadInfix :: string where "chainHeadInfix = ''head:''"
definition chainMaxCASRetries :: nat where "chainMaxCASRetries = 1024"
definition chainHashHexLen :: nat where "chainHashHexLen = 64"

record chainer =
  keyPrefix :: string
  hmacKey :: string
  headCacheValid :: bool
  headCacheTenant :: string
  headCacheRaw :: string

definition StreamKey :: "chainer \<Rightarrow> string \<Rightarrow> string" where
  "StreamKey ch tenant = keyPrefix ch @ tenant"

definition HeadKey :: "chainer \<Rightarrow> string \<Rightarrow> string" where
  "HeadKey ch tenant = keyPrefix ch @ chainHeadInfix @ tenant"

text \<open>A key shorter than 32 bytes makes the constructor panic: no chainer then.\<close>

definition NewChainer :: "string \<Rightarrow> string \<Rightarrow> chainer option" where
  "NewChainer prefix key =
     (if key \<noteq> [] \<and> length key < 32 then None
      else Some \<lparr>keyPrefix = (if prefix = [] then ChainKeyPrefix else prefix), hmacKey = key,
                 headCacheValid = False, headCacheTenant = [], headCacheRaw = []\<rparr>)"

definition cachedHead :: "chainer \<Rightarrow> string \<Rightarrow> string option" where
  "cachedHead ch tenant = (if \<not> headCacheValid ch \<or> headCacheTenant ch \<noteq> tenant then None else Some (headCacheRaw ch))"

definition storeCachedHead :: "string \<Rightarrow> string \<Rightarrow> chainer \<Rightarrow> chainer" where
  "storeCachedHead tenant raw ch = ch\<lparr>headCacheValid := True, headCacheTenant := tenant, headCacheRaw := raw\<rparr>"

definition invalidateCachedHead :: "string \<Rightarrow> string \<Rightarrow> chainer \<Rightarrow> chainer" where
  "invalidateCachedHead tenant raw ch =
     (if headCacheValid ch \<and> headCacheTenant ch = tenant \<and> headCacheRaw ch = raw
      then ch\<lparr>headCacheValid := False, headCacheTenant := [], headCacheRaw := []\<rparr> else ch)"

definition parseChainHead :: "string \<Rightarrow> (int \<times> string) option" where
  "parseChainHead raw =
     (if raw = [] then Some (0, [])
      else case IndexByte raw (CHR '':'') of
          None \<Rightarrow> None
        | Some colon \<Rightarrow>
            (case Atoi (take colon raw) of
               None \<Rightarrow> None
             | Some seq \<Rightarrow>
                 let hash = drop (colon + 1) raw in
                 if seq < 0 then None
                 else if hash \<noteq> [] \<and> length hash \<noteq> chainHashHexLen then None
                 else Some (seq, hash)))"

definition chainStreamFieldEvent :: string where "chainStreamFieldEvent = ''event''"

definition chainAppendScript :: "'s redis \<Rightarrow> string \<Rightarrow> string \<Rightarrow> string \<Rightarrow> string \<Rightarrow> string \<Rightarrow> string \<Rightarrow> 's \<Rightarrow> int \<times> 's" where
  "chainAppendScript R headKey streamKey expected seq hash payload s =
     (if (case rGET R s headKey of None \<Rightarrow> [] | Some head \<Rightarrow> head) \<noteq> expected then (0, s)
      else if expected = [] \<and> rXRANGE R s streamKey \<noteq> [] then (0, s)
      else (1, rSET R headKey (seq @ '':'' @ hash) (rXADD R streamKey [(''seq'', seq), (''event'', payload)] s)))"

datatype chain_error = NilEvent | TenantRequired | CASExhausted | ContextDone | ReadHead | ParseHead | HashFailed
  | HMACFailed | MarshalFailed | ScriptFailed

text \<open>The event as one attempt writes it: linked to the head, hashed and, with a key, signed.\<close>

definition linkEvent :: "audit_codec \<Rightarrow> string \<Rightarrow> int \<times> string \<Rightarrow> siem_event \<Rightarrow> chain_error + siem_event" where
  "linkEvent K key head e =
     (let e1 = e\<lparr>ev_PrevHash := snd head, ev_Seq := fst head + 1\<rparr> in
      case computeEventHash K e1 of
        None \<Rightarrow> Inl HashFailed
      | Some hash \<Rightarrow>
          let e2 = e1\<lparr>ev_EventHash := hash\<rparr> in
          if key = [] then Inr e2
          else case computeEventHMAC K e2 key of None \<Rightarrow> Inl HMACFailed | Some tag \<Rightarrow> Inr (e2\<lparr>ev_HMAC := tag\<rparr>))"

text \<open>
  One attempt of the retry loop. Its calls \<open>c\<close> are the context, the read of the head, the script and
  the backoff. \<open>env\<close> is what others do to the cache and the server between the read and the script;
  the prefix and the signing key of a chainer do not change. The result is final or asks to retry.
\<close>

datatype ('r, 'x) attempt = Final 'r | Retry 'x

definition headAt :: "'s redis \<Rightarrow> call \<Rightarrow> chainer \<Rightarrow> string \<Rightarrow> 's \<Rightarrow> string option" where
  "headAt R c ch tenant s =
     (case cachedHead ch tenant of
        Some raw \<Rightarrow> Some raw
      | None \<Rightarrow> if c \<noteq> CallOk then None else Some (case rGET R s (HeadKey ch tenant) of None \<Rightarrow> [] | Some raw \<Rightarrow> raw))"

definition commitAttempt ::
    "'s redis \<Rightarrow> (nat \<Rightarrow> call) \<Rightarrow> string \<Rightarrow> siem_event \<Rightarrow> string \<Rightarrow> chainer \<times> 's \<Rightarrow>
     ((chain_error + siem_event) \<times> chainer \<times> 's, chainer \<times> 's) attempt" where
  "commitAttempt R c raw e payload cs =
     (let ch = fst cs; tenant = ev_TenantID e in
      case run (c 2) (chainAppendScript R (HeadKey ch tenant) (StreamKey ch tenant) raw (Itoa (ev_Seq e)) (ev_EventHash e) payload) (snd cs) of
        (None, s) \<Rightarrow> Final (Inl ScriptFailed, ch, s)
      | (Some n, s) \<Rightarrow>
          if n = 1 then Final (Inr e, storeCachedHead tenant (Itoa (ev_Seq e) @ '':'' @ ev_EventHash e) ch, s)
          else if c 3 \<noteq> CallOk then Final (Inl ContextDone, invalidateCachedHead tenant raw ch, s)
          else Retry (invalidateCachedHead tenant raw ch, s))"

definition appendAttempt ::
    "audit_codec \<Rightarrow> 's redis \<Rightarrow> (nat \<Rightarrow> call) \<Rightarrow> (chainer \<times> 's \<Rightarrow> chainer \<times> 's) \<Rightarrow> siem_event \<Rightarrow> chainer \<times> 's \<Rightarrow>
     ((chain_error + siem_event) \<times> chainer \<times> 's, chainer \<times> 's) attempt" where
  "appendAttempt K R c env e cs =
     (let ch = fst cs in
      if c 0 \<noteq> CallOk then Final (Inl ContextDone, cs)
      else case headAt R (c 1) ch (ev_TenantID e) (snd cs) of
          None \<Rightarrow> Final (Inl ReadHead, cs)
        | Some raw \<Rightarrow>
            (case parseChainHead raw of
               None \<Rightarrow> Final (Inl ParseHead, cs)
             | Some head \<Rightarrow>
                 (case linkEvent K (hmacKey ch) head e of
                    Inl err \<Rightarrow> Final (Inl err, cs)
                  | Inr e' \<Rightarrow>
                      (case jsonMarshal K e' of
                         None \<Rightarrow> Final (Inl MarshalFailed, cs)
                       | Some payload \<Rightarrow>
                           commitAttempt R c raw e' payload
                             ((fst (env cs))\<lparr>keyPrefix := keyPrefix ch, hmacKey := hmacKey ch\<rparr>, snd (env cs))))))"

definition unlinked :: "siem_event \<Rightarrow> siem_event" where
  "unlinked e = e\<lparr>ev_Seq := 0, ev_PrevHash := [], ev_EventHash := [], ev_HMAC := []\<rparr>"

fun appendLoop ::
    "audit_codec \<Rightarrow> 's redis \<Rightarrow> (nat \<Rightarrow> nat \<Rightarrow> call) \<Rightarrow> (nat \<Rightarrow> chainer \<times> 's \<Rightarrow> chainer \<times> 's) \<Rightarrow> nat \<Rightarrow> siem_event \<Rightarrow>
     chainer \<times> 's \<Rightarrow> (chain_error + siem_event) \<times> chainer \<times> 's" where
  "appendLoop K R c env 0 e cs = (Inl CASExhausted, cs)"
| "appendLoop K R c env (Suc left) e cs =
     (case appendAttempt K R (c left) (env left) e cs of
        Final r \<Rightarrow> r
      | Retry cs' \<Rightarrow> appendLoop K R c env left (unlinked e) cs')"

definition Append ::
    "audit_codec \<Rightarrow> 's redis \<Rightarrow> (nat \<Rightarrow> nat \<Rightarrow> call) \<Rightarrow> (nat \<Rightarrow> chainer \<times> 's \<Rightarrow> chainer \<times> 's) \<Rightarrow> siem_event option \<Rightarrow>
     chainer \<times> 's \<Rightarrow> (chain_error + siem_event) \<times> chainer \<times> 's" where
  "Append K R c env event cs =
     (case event of
        None \<Rightarrow> (Inl NilEvent, cs)
      | Some e \<Rightarrow> if ev_TenantID e = [] then (Inl TenantRequired, cs)
                  else appendLoop K R c env chainMaxCASRetries e cs)"

section \<open>Verification\<close>

datatype verify_status = VerifyStatusOK | VerifyStatusCompromised | VerifyStatusPartial

datatype gap_type = GapTypeMissing | GapTypeOutOfOrder | GapTypeHashMismatch | GapTypeRetentionTrimmed | GapTypeHMACMismatch

record verify_gap =
  AtSeq :: int
  GapType :: gap_type

record verify_result =
  vr_Status :: verify_status
  vr_TotalEvents :: int
  vr_VerifiedEvents :: int
  vr_Gaps :: "verify_gap list"
  vr_RetentionBoundarySeq :: int
  vr_FirstSeq :: int
  vr_LastSeq :: int
  vr_HMACVerified :: int
  vr_HMACSkipped :: int
  vr_HMACSeen :: bool

record verify_options =
  vo_SinceMs :: int
  vo_UntilMs :: int
  vo_Limit :: int
  vo_RetentionBoundarySeq :: int
  vo_HMACKey :: string

definition DefaultVerifyLimit :: int where "DefaultVerifyLimit = 10000"
definition MaxVerifyLimit :: int where "MaxVerifyLimit = 100000"
definition maxRetentionTrimmedGaps :: int where "maxRetentionTrimmedGaps = 1000"

definition verifyLimit :: "verify_options \<Rightarrow> int" where
  "verifyLimit opts =
     (let limit = (if vo_Limit opts \<le> 0 then DefaultVerifyLimit else vo_Limit opts)
      in if limit > MaxVerifyLimit then MaxVerifyLimit else limit)"

definition gap :: "int \<Rightarrow> gap_type \<Rightarrow> verify_gap" where
  "gap seq ty = \<lparr>AtSeq = seq, GapType = ty\<rparr>"

definition compromise :: "verify_gap list \<Rightarrow> verify_result \<Rightarrow> verify_result" where
  "compromise gs r = r\<lparr>vr_Status := VerifyStatusCompromised, vr_Gaps := vr_Gaps r @ gs\<rparr>"

definition decodeEntry :: "audit_codec \<Rightarrow> stream_entry \<Rightarrow> siem_event option" where
  "decodeEntry K entry =
     (case map_of (snd entry) chainStreamFieldEvent of None \<Rightarrow> None | Some payload \<Rightarrow> jsonUnmarshal K payload)"

text \<open>The predecessor of the event at hand: its hash and sequence number, and whether there is one.\<close>

record walk =
  w_prevHash :: string
  w_prevSeq :: int
  w_hasPrev :: bool

definition checkFirst :: "verify_options \<Rightarrow> siem_event \<Rightarrow> verify_result \<Rightarrow> verify_result" where
  "checkFirst opts ev r =
     (let r1 = r\<lparr>vr_FirstSeq := ev_Seq ev\<rparr> in
      if vo_SinceMs opts = 0 \<and> ev_Seq ev > 1
      then r1\<lparr>vr_Gaps := vr_Gaps r1 @ map (\<lambda>n. gap n GapTypeRetentionTrimmed) [1..min (ev_Seq ev - 1) maxRetentionTrimmedGaps]\<rparr>
      else r1)"

definition checkSeq :: "walk \<Rightarrow> siem_event \<Rightarrow> verify_result \<Rightarrow> verify_result" where
  "checkSeq w ev r =
     (if w_hasPrev w \<and> ev_Seq ev < w_prevSeq w then compromise [gap (ev_Seq ev) GapTypeOutOfOrder] r
      else if w_hasPrev w \<and> ev_Seq ev > w_prevSeq w + 1
      then compromise (map (\<lambda>n. gap n GapTypeMissing) [w_prevSeq w + 1..ev_Seq ev - 1]) r
      else r)"

definition checkHash :: "audit_codec \<Rightarrow> walk \<Rightarrow> siem_event \<Rightarrow> verify_result \<Rightarrow> verify_result" where
  "checkHash K w ev r =
     (if VerifyEventHash K ev \<noteq> Some True then compromise [gap (ev_Seq ev) GapTypeHashMismatch] r
      else if w_hasPrev w \<and> ev_PrevHash ev \<noteq> w_prevHash w then compromise [gap (ev_Seq ev) GapTypeHashMismatch] r
      else r\<lparr>vr_VerifiedEvents := vr_VerifiedEvents r + 1\<rparr>)"

definition checkHMAC :: "audit_codec \<Rightarrow> verify_options \<Rightarrow> siem_event \<Rightarrow> verify_result \<Rightarrow> verify_result" where
  "checkHMAC K opts ev r =
     (let r1 = (if ev_HMAC ev \<noteq> [] then r\<lparr>vr_HMACSeen := True\<rparr> else r) in
      if vo_HMACKey opts = [] then r1
      else if ev_HMAC ev = [] then r1\<lparr>vr_HMACSkipped := vr_HMACSkipped r1 + 1\<rparr>
      else if VerifyEventHMAC K ev (vo_HMACKey opts) \<noteq> Some True then compromise [gap (ev_Seq ev) GapTypeHMACMismatch] r1
      else r1\<lparr>vr_HMACVerified := vr_HMACVerified r1 + 1\<rparr>)"

fun verifyLoop :: "audit_codec \<Rightarrow> verify_options \<Rightarrow> bool \<Rightarrow> walk \<Rightarrow> stream_entry list \<Rightarrow> verify_result \<Rightarrow> verify_result" where
  "verifyLoop K opts first w [] r = r"
| "verifyLoop K opts first w (entry # entries) r =
     (case decodeEntry K entry of
        None \<Rightarrow> verifyLoop K opts False w entries (compromise [gap (w_prevSeq w + 1) GapTypeHashMismatch] r)
      | Some ev \<Rightarrow>
          let r1 = r\<lparr>vr_TotalEvents := vr_TotalEvents r + 1\<rparr>;
              r2 = (if first then checkFirst opts ev r1 else r1);
              r3 = r2\<lparr>vr_LastSeq := ev_Seq ev\<rparr>;
              r4 = checkHMAC K opts ev (checkHash K w ev (checkSeq w ev r3))
          in verifyLoop K opts False \<lparr>w_prevHash = ev_EventHash ev, w_prevSeq = ev_Seq ev, w_hasPrev = True\<rparr> entries r4)"

section \<open>Stream ranges\<close>

text \<open>Stream ids as the client writes them, and ranges between two of them.\<close>

definition idString :: "stream_id \<Rightarrow> string" where
  "idString i = Itoa (fst i) @ ''-'' @ Itoa (snd i)"

definition maxSeqPart :: int where "maxSeqPart = 18446744073709551615"

datatype range_end = Unbounded | Bound stream_id

fun at_most :: "range_end \<Rightarrow> stream_id \<Rightarrow> bool" where
  "at_most Unbounded i = True"
| "at_most (Bound b) i = (\<not> id_less b i)"

definition XRangeN :: "'s redis \<Rightarrow> string \<Rightarrow> int \<Rightarrow> int \<Rightarrow> int \<Rightarrow> 's \<Rightarrow> stream_entry list" where
  "XRangeN R key sinceMs untilMs limit s =
     take (nat limit) (filter (\<lambda>(i, _). (sinceMs > 0 \<longrightarrow> \<not> id_less i (sinceMs, 0)) \<and> (untilMs > 0 \<longrightarrow> \<not> id_less (untilMs, maxSeqPart) i))
       (rXRANGE R s key))"

definition XRevRangeFirst :: "'s redis \<Rightarrow> string \<Rightarrow> range_end \<Rightarrow> 's \<Rightarrow> stream_entry option" where
  "XRevRangeFirst R key start s =
     (case filter (\<lambda>(i, _). at_most start i) (rXRANGE R s key) of [] \<Rightarrow> None | es \<Rightarrow> Some (last es))"

definition xRevBefore :: "string \<Rightarrow> range_end" where
  "xRevBefore i =
     (case IndexByte i (CHR ''-'') of
        None \<Rightarrow> Unbounded
      | Some idx \<Rightarrow>
          if idx = 0 \<or> idx + 1 = length i then Unbounded
          else case (Atoi (take idx i), Atoi (drop (idx + 1) i)) of
              (Some ms, Some seq) \<Rightarrow>
                if seq > 0 then Bound (ms, seq - 1)
                else if ms > 0 then Bound (ms - 1, maxSeqPart)
                else Unbounded
            | _ \<Rightarrow> Unbounded)"

text \<open>The predecessor of a window that does not start at the beginning of the stream.\<close>

definition bootstrap :: "audit_codec \<Rightarrow> 's redis \<Rightarrow> call \<Rightarrow> string \<Rightarrow> stream_id \<Rightarrow> 's \<Rightarrow> walk \<times> bool" where
  "bootstrap K R c key firstID s =
     (let start = \<lparr>w_prevHash = [], w_prevSeq = 0, w_hasPrev = False\<rparr> in
      if c \<noteq> CallOk then (start, False)
      else case XRevRangeFirst R key (xRevBefore (idString firstID)) s of
          None \<Rightarrow> (start, True)
        | Some entry \<Rightarrow>
            (case decodeEntry K entry of
               None \<Rightarrow> (start, False)
             | Some pred \<Rightarrow>
                 if VerifyEventHash K pred = Some True
                 then (\<lparr>w_prevHash = ev_EventHash pred, w_prevSeq = ev_Seq pred, w_hasPrev = True\<rparr>, False)
                 else (start, True)))"

definition VerifyChain :: "audit_codec \<Rightarrow> 's redis \<Rightarrow> (nat \<Rightarrow> call) \<Rightarrow> string \<Rightarrow> verify_options \<Rightarrow> 's \<Rightarrow> verify_result option" where
  "VerifyChain K R c key opts s =
     (let r0 = \<lparr>vr_Status = VerifyStatusOK, vr_TotalEvents = 0, vr_VerifiedEvents = 0, vr_Gaps = [],
                vr_RetentionBoundarySeq = vo_RetentionBoundarySeq opts, vr_FirstSeq = 0, vr_LastSeq = 0,
                vr_HMACVerified = 0, vr_HMACSkipped = 0, vr_HMACSeen = False\<rparr>
      in if c 0 \<noteq> CallOk then None
         else case XRangeN R key (vo_SinceMs opts) (vo_UntilMs opts) (verifyLimit opts) s of
             [] \<Rightarrow> Some r0
           | entry # entries \<Rightarrow>
               let (w, partial) = (if vo_SinceMs opts > 0 then bootstrap K R (c 1) key (fst entry) s
                                   else (\<lparr>w_prevHash = [], w_prevSeq = 0, w_hasPrev = False\<rparr>, False));
                   r1 = (if partial then r0\<lparr>vr_Status := VerifyStatusPartial\<rparr> else r0);
                   r = verifyLoop K opts True w (entry # entries) r1
               in Some (if vr_Status r = VerifyStatusOK \<and> vr_Gaps r \<noteq> [] then r\<lparr>vr_Status := VerifyStatusPartial\<rparr> else r))"

section \<open>Laws of the codec\<close>

text \<open>
  What the proofs need of the libraries. \<open>clean\<close> says of the content of an event that JSON represents
  it exactly (its strings are valid UTF-8): decoding an encoded clean event gives back its link
  fields and an event that encodes to the same bytes. A digest has 32 bytes.
\<close>

definition content :: "siem_event \<Rightarrow> siem_event" where
  "content e = e\<lparr>ev_Seq := 0, ev_EventHash := [], ev_PrevHash := [], ev_HMAC := []\<rparr>"

definition codec_laws :: "audit_codec \<Rightarrow> (siem_event \<Rightarrow> bool) \<Rightarrow> bool" where
  "codec_laws K clean \<longleftrightarrow>
     (\<forall>e p. clean (content e) \<and> jsonMarshal K e = Some p \<longrightarrow>
        (\<exists>e'. jsonUnmarshal K p = Some e' \<and> ev_Seq e' = ev_Seq e \<and> ev_EventHash e' = ev_EventHash e \<and>
              ev_PrevHash e' = ev_PrevHash e \<and> ev_HMAC e' = ev_HMAC e \<and>
              jsonMarshal K (cleared e') = jsonMarshal K (cleared e))) \<and>
     (\<forall>b. length (sha256 K b) = 32)"

text \<open>Decoded events with the same hashed bytes have the same predecessor hash.\<close>

definition prev_determined :: "audit_codec \<Rightarrow> bool" where
  "prev_determined K \<longleftrightarrow>
     (\<forall>p q e f. jsonUnmarshal K p = Some e \<and> jsonUnmarshal K q = Some f \<and>
        jsonMarshal K (cleared e) = jsonMarshal K (cleared f) \<longrightarrow> ev_PrevHash e = ev_PrevHash f)"

section \<open>The chain\<close>

fun linked :: "audit_codec \<Rightarrow> int \<Rightarrow> string \<Rightarrow> stream_entry list \<Rightarrow> bool" where
  "linked K seq prev [] = True"
| "linked K seq prev (entry # entries) =
     (case decodeEntry K entry of
        None \<Rightarrow> False
      | Some e \<Rightarrow> ev_Seq e = seq + 1 \<and> ev_PrevHash e = prev \<and> computeEventHash K e = Some (ev_EventHash e) \<and>
                   linked K (seq + 1) (ev_EventHash e) entries)"

definition lastHash :: "audit_codec \<Rightarrow> string \<Rightarrow> stream_entry list \<Rightarrow> string" where
  "lastHash K prev entries =
     (if entries = [] then prev else case decodeEntry K (last entries) of None \<Rightarrow> [] | Some e \<Rightarrow> ev_EventHash e)"

definition chain_ok :: "audit_codec \<Rightarrow> 's redis \<Rightarrow> chainer \<Rightarrow> string \<Rightarrow> 's \<Rightarrow> bool" where
  "chain_ok K R ch tenant s =
     (let entries = rXRANGE R s (StreamKey ch tenant) in
      linked K 0 [] entries \<and>
      rGET R s (HeadKey ch tenant) =
        (if entries = [] then None else Some (Itoa (int (length entries)) @ '':'' @ lastHash K [] entries)))"

lemma lastHash_simps [simp]:
  "lastHash K prev [] = prev"
  "lastHash K prev (entries @ [x]) = (case decodeEntry K x of None \<Rightarrow> [] | Some e \<Rightarrow> ev_EventHash e)"
  "lastHash K prev (y # entries) = lastHash K (case decodeEntry K y of None \<Rightarrow> [] | Some e \<Rightarrow> ev_EventHash e) entries"
  by (simp_all add: lastHash_def)

lemma linked_snoc:
  "linked K seq prev (entries @ [x]) \<longleftrightarrow>
     linked K seq prev entries \<and>
     (case decodeEntry K x of
        None \<Rightarrow> False
      | Some e \<Rightarrow> ev_Seq e = seq + int (length entries) + 1 \<and> ev_PrevHash e = lastHash K prev entries \<and>
                   computeEventHash K e = Some (ev_EventHash e))"
  by (induction entries arbitrary: seq prev) (auto split: option.split)

lemma Itoa_no_colon: "CHR '':'' \<notin> set (Itoa n)"
proof -
  have "CHR '':'' \<notin> set (nat_str m)" for m
    using nat_str_digits [of m] by (auto simp: list_all_iff)
  then show ?thesis by (simp add: Itoa_def)
qed

lemma Atoi_Itoa_Some: "Atoi (Itoa n) = Some m \<Longrightarrow> m = n"
  by (auto simp: Atoi_def Itoa_def nat_str_digits split: if_splits)

text \<open>A head that parses is read back exactly.\<close>

lemma parseChainHead_head:
  assumes "parseChainHead (Itoa n @ '':'' @ h) = Some (seq, hash)"
  shows "seq = n \<and> hash = h"
proof -
  have "IndexByte (Itoa n @ '':'' @ h) (CHR '':'') = Some (length (Itoa n))"
    using IndexByte_skip [OF Itoa_no_colon, of n h] by simp
  with assms show ?thesis
    by (auto simp: parseChainHead_def Let_def dest: Atoi_Itoa_Some split: if_splits option.splits)
qed

text \<open>
  One step at the chain of a tenant: some writer runs the script with an event it linked to any
  head value, fresh or stale, with or without a signing key; or something happens elsewhere.
\<close>

inductive chain_step :: "audit_codec \<Rightarrow> (siem_event \<Rightarrow> bool) \<Rightarrow> 's redis \<Rightarrow> chainer \<Rightarrow> string \<Rightarrow> 's \<Rightarrow> 's \<Rightarrow> bool"
  for K clean R ch tenant where
  commit: "parseChainHead raw = Some head \<Longrightarrow> linkEvent K key head e = Inr e' \<Longrightarrow> jsonMarshal K e' = Some payload \<Longrightarrow>
    clean (content e) \<Longrightarrow>
    chain_step K clean R ch tenant s
      (snd (chainAppendScript R (HeadKey ch tenant) (StreamKey ch tenant) raw (Itoa (ev_Seq e')) (ev_EventHash e') payload s))"
| elsewhere: "rGET R s' (HeadKey ch tenant) = rGET R s (HeadKey ch tenant) \<Longrightarrow>
    rXRANGE R s' (StreamKey ch tenant) = rXRANGE R s (StreamKey ch tenant) \<Longrightarrow> chain_step K clean R ch tenant s s'"

lemma linkEvent_fields:
  assumes "linkEvent K key head e = Inr e'"
  shows "ev_Seq e' = fst head + 1" "ev_PrevHash e' = snd head" "computeEventHash K e' = Some (ev_EventHash e')"
    "content e' = content e" "ev_TenantID e' = ev_TenantID e"
  using assms
  by (auto simp: linkEvent_def Let_def computeEventHash_def cleared_def content_def split: option.splits if_splits)

lemma codec_decode:
  assumes "codec_laws K clean" "clean (content e)" "jsonMarshal K e = Some payload" "computeEventHash K e = Some (ev_EventHash e)"
  obtains e' where "jsonUnmarshal K payload = Some e'" "ev_Seq e' = ev_Seq e" "ev_EventHash e' = ev_EventHash e"
    "ev_PrevHash e' = ev_PrevHash e" "computeEventHash K e' = Some (ev_EventHash e')" "ev_HMAC e' = ev_HMAC e"
    "jsonMarshal K (cleared e') = jsonMarshal K (cleared e)"
  using assms unfolding codec_laws_def computeEventHash_def by metis

definition appended :: "audit_codec \<Rightarrow> 's redis \<Rightarrow> string \<Rightarrow> siem_event \<Rightarrow> siem_event \<Rightarrow> 's \<Rightarrow> bool" where
  "appended K R key e e' s \<longleftrightarrow>
     content e' = content e \<and> rXRANGE R s key \<noteq> [] \<and>
     (case decodeEntry K (last (rXRANGE R s key)) of
        None \<Rightarrow> False
      | Some x \<Rightarrow> ev_Seq x = ev_Seq e' \<and> ev_EventHash x = ev_EventHash e' \<and> ev_PrevHash x = ev_PrevHash e' \<and>
                   jsonMarshal K (cleared x) = jsonMarshal K (cleared e'))"

definition attempt_ok ::
    "audit_codec \<Rightarrow> 's redis \<Rightarrow> chainer \<Rightarrow> siem_event \<Rightarrow> ((chain_error + siem_event) \<times> chainer \<times> 's, chainer \<times> 's) attempt \<Rightarrow> bool" where
  "attempt_ok K R ch e a \<longleftrightarrow>
     (case a of
        Final (res, ch', s) \<Rightarrow>
          chain_ok K R ch (ev_TenantID e) s \<and> (case res of Inl _ \<Rightarrow> True | Inr x \<Rightarrow> appended K R (StreamKey ch (ev_TenantID e)) e x s)
      | Retry (ch', s) \<Rightarrow> chain_ok K R ch (ev_TenantID e) s \<and> keyPrefix ch' = keyPrefix ch)"

context redis_server
begin

lemma script_commit:
  "view (rXADD R k [(''seq'', q), (''event'', p)] s) = (view s)\<lparr>ks_streams := (ks_streams (view s))(k := ks_streams (view s) k @ [(i, fs)])\<rparr> \<Longrightarrow>
   rXRANGE R (rSET R h v (rXADD R k [(''seq'', q), (''event'', p)] s)) k = rXRANGE R s k @ [(i, fs)] \<and>
   rGET R (rSET R h v (rXADD R k [(''seq'', q), (''event'', p)] s)) h = Some v"
  by (simp add: reads writes)

lemma commit_ok:
  assumes ok: "chain_ok K R ch tenant s" and laws: "codec_laws K clean"
    and raw: "parseChainHead raw = Some head" and link: "linkEvent K key head e = Inr e'"
    and payload: "jsonMarshal K e' = Some payload" and cl: "clean (content e)"
    and head: "(case rGET R s (HeadKey ch tenant) of None \<Rightarrow> [] | Some h \<Rightarrow> h) = raw"
  shows "chain_ok K R ch tenant (rSET R (HeadKey ch tenant) (Itoa (ev_Seq e') @ '':'' @ ev_EventHash e')
    (rXADD R (StreamKey ch tenant) [(''seq'', Itoa (ev_Seq e')), (''event'', payload)] s))"
proof -
  let ?entries = "rXRANGE R s (StreamKey ch tenant)"
  have "raw = (if ?entries = [] then [] else Itoa (int (length ?entries)) @ '':'' @ lastHash K [] ?entries)"
    using ok head by (auto simp: chain_ok_def Let_def split: if_splits)
  then have hd: "fst head = int (length ?entries)" "snd head = lastHash K [] ?entries"
    using raw parseChainHead_head [of "int (length ?entries)" "lastHash K [] ?entries" "fst head" "snd head"]
    by (auto simp: parseChainHead_def [of "[]"] split: if_splits)
  note f = linkEvent_fields [OF link]
  obtain e'' where e'': "jsonUnmarshal K payload = Some e''" "ev_Seq e'' = ev_Seq e'" "ev_EventHash e'' = ev_EventHash e'"
    "ev_PrevHash e'' = ev_PrevHash e'" "computeEventHash K e'' = Some (ev_EventHash e'')"
    using codec_decode [OF laws _ payload f(3)] cl f(4) by metis
  obtain i where i: "view (rXADD R (StreamKey ch tenant) [(''seq'', Itoa (ev_Seq e')), (''event'', payload)] s) =
      (view s)\<lparr>ks_streams := (ks_streams (view s))(StreamKey ch tenant := ks_streams (view s) (StreamKey ch tenant) @
        [(i, [(''seq'', Itoa (ev_Seq e')), (''event'', payload)])])\<rparr>"
    using xadd by metis
  have dec: "decodeEntry K (i, [(''seq'', Itoa (ev_Seq e')), (''event'', payload)]) = Some e''"
    using e''(1) by (simp add: decodeEntry_def chainStreamFieldEvent_def)
  show ?thesis
    using ok script_commit [OF i, of "HeadKey ch tenant"] hd f(1,2) e'' dec
    by (simp add: chain_ok_def Let_def linked_snoc)
qed

lemma chain_step_ok:
  "chain_step K clean R ch tenant s s' \<Longrightarrow> codec_laws K clean \<Longrightarrow> chain_ok K R ch tenant s \<Longrightarrow> chain_ok K R ch tenant s'"
proof (induction rule: chain_step.induct)
  case (commit raw head key e e' payload s)
  then show ?case using commit_ok [OF commit(6,5,1-4)] by (simp add: chainAppendScript_def)
next
  case (elsewhere s' s)
  then show ?case by (simp add: chain_ok_def)
qed

text \<open>The event \<open>e\<close> was appended last: its entry decodes to the same links and the same hashed bytes.\<close>

lemma commit_appended:
  assumes laws: "codec_laws K clean" and link: "linkEvent K key head e = Inr e'"
    and payload: "jsonMarshal K e' = Some payload" and cl: "clean (content e)"
    and run: "chainAppendScript R hk sk raw (Itoa (ev_Seq e')) (ev_EventHash e') payload s = (1, s')"
  shows "appended K R sk e e' s'"
proof -
  note f = linkEvent_fields [OF link]
  obtain e'' where e'': "jsonUnmarshal K payload = Some e''" "ev_Seq e'' = ev_Seq e'" "ev_EventHash e'' = ev_EventHash e'"
    "ev_PrevHash e'' = ev_PrevHash e'" "jsonMarshal K (cleared e'') = jsonMarshal K (cleared e')"
    using codec_decode [OF laws _ payload f(3)] cl f(4) by metis
  obtain i where i: "view (rXADD R sk [(''seq'', Itoa (ev_Seq e')), (''event'', payload)] s) =
      (view s)\<lparr>ks_streams := (ks_streams (view s))(sk := ks_streams (view s) sk @ [(i, [(''seq'', Itoa (ev_Seq e')), (''event'', payload)])])\<rparr>"
    using xadd by metis
  have "s' = rSET R hk (Itoa (ev_Seq e') @ '':'' @ ev_EventHash e') (rXADD R sk [(''seq'', Itoa (ev_Seq e')), (''event'', payload)] s)"
    using run by (auto simp: chainAppendScript_def split: if_splits)
  then show ?thesis
    using script_commit [OF i, of hk "Itoa (ev_Seq e') @ '':'' @ ev_EventHash e'"] e'' f(4)
    by (auto simp: appended_def decodeEntry_def chainStreamFieldEvent_def)
qed

lemma commitAttempt_ok:
  assumes laws: "codec_laws K clean" and ok: "chain_ok K R ch0 (ev_TenantID e) (snd cs)" and pre: "keyPrefix (fst cs) = keyPrefix ch0"
    and raw: "parseChainHead raw = Some head" and link: "linkEvent K key head e = Inr e'" and payload: "jsonMarshal K e' = Some payload"
    and cl: "clean (content e)"
  shows "attempt_ok K R ch0 e (commitAttempt R c raw e' payload cs)"
proof -
  let ?t = "ev_TenantID e"
  have keys: "HeadKey (fst cs) ?t = HeadKey ch0 ?t" "StreamKey (fst cs) ?t = StreamKey ch0 ?t"
    using pre by (simp_all add: HeadKey_def StreamKey_def)
  let ?script = "chainAppendScript R (HeadKey ch0 ?t) (StreamKey ch0 ?t) raw (Itoa (ev_Seq e')) (ev_EventHash e') payload (snd cs)"
  have ok2: "chain_ok K R ch0 ?t (snd ?script)"
    by (rule chain_step_ok [OF chain_step.commit [of raw head K key e e' payload clean, OF raw link payload cl] laws ok])
  have app: "appended K R (StreamKey ch0 ?t) e e' (snd ?script)" if "fst ?script = 1"
    using commit_appended [OF laws link payload cl, of "HeadKey ch0 ?t" "StreamKey ch0 ?t" raw "snd cs" "snd ?script"] that
    by (simp add: prod_eq_iff)
  show ?thesis
    using ok ok2 app linkEvent_fields(5) [OF link] pre
    by (cases "c 2") (auto simp: attempt_ok_def commitAttempt_def Let_def run_def keys invalidateCachedHead_def)
qed

lemma appendAttempt_ok:
  assumes laws: "codec_laws K clean" and ok: "chain_ok K R ch0 (ev_TenantID e) (snd cs)" and pre: "keyPrefix (fst cs) = keyPrefix ch0"
    and env: "(chain_step K clean R ch0 (ev_TenantID e))\<^sup>*\<^sup>* (snd cs) (snd (env cs))" and cl: "clean (content e)"
  shows "attempt_ok K R ch0 e (appendAttempt K R c env e cs)"
proof -
  have ok1: "chain_ok K R ch0 (ev_TenantID e) (snd (env cs))"
    using env ok by (induction rule: rtranclp_induct) (auto dest: chain_step_ok [OF _ laws])
  have early: "attempt_ok K R ch0 e (Final (Inl err, cs))" for err using ok by (simp add: attempt_ok_def case_prod_beta)
  let ?cs = "((fst (env cs))\<lparr>keyPrefix := keyPrefix (fst cs), hmacKey := hmacKey (fst cs)\<rparr>, snd (env cs))"
  have commit: "attempt_ok K R ch0 e (commitAttempt R c raw e' payload ?cs)"
    if "parseChainHead raw = Some head" "linkEvent K (hmacKey (fst cs)) head e = Inr e'" "jsonMarshal K e' = Some payload" for raw head e' payload
    by (rule commitAttempt_ok [OF laws _ _ that cl]) (use ok1 pre in simp_all)
  show ?thesis
    unfolding appendAttempt_def Let_def by (auto split: if_split option.split sum.split intro: early commit)
qed

lemma appendLoop_ok:
  assumes laws: "codec_laws K clean" and env: "\<And>i x. (chain_step K clean R ch0 tenant)\<^sup>*\<^sup>* (snd x) (snd (env i x))"
  shows "keyPrefix (fst cs) = keyPrefix ch0 \<Longrightarrow> ev_TenantID e = tenant \<Longrightarrow> clean (content e) \<Longrightarrow> chain_ok K R ch0 tenant (snd cs) \<Longrightarrow>
    appendLoop K R c env left e cs = (res, ch', s') \<Longrightarrow>
    chain_ok K R ch0 tenant s' \<and> (\<forall>x. res = Inr x \<longrightarrow> appended K R (StreamKey ch0 tenant) e x s')"
proof (induction left arbitrary: e cs)
  case (Suc left)
  have reset: "content (unlinked e) = content e" "ev_TenantID (unlinked e) = ev_TenantID e" by (simp_all add: content_def unlinked_def)
  have step: "attempt_ok K R ch0 e (appendAttempt K R (c left) (env left) e cs)"
    by (rule appendAttempt_ok [OF laws]) (use Suc.prems env in simp_all)
  show ?case
  proof (cases "appendAttempt K R (c left) (env left) e cs")
    case (Final r)
    then show ?thesis using step Suc.prems(2,5) by (auto simp: attempt_ok_def)
  next
    case (Retry cs')
    then have "chain_ok K R ch0 tenant (snd cs')" "keyPrefix (fst cs') = keyPrefix ch0" using step Suc.prems(2) by (simp_all add: attempt_ok_def case_prod_beta)
    with Suc.IH [of cs' "unlinked e"] Suc.prems(2,3,5) Retry reset show ?thesis by (simp add: appended_def)
  qed
qed auto

end

section \<open>What the verifier reports\<close>

definition hmacOk :: "audit_codec \<Rightarrow> string \<Rightarrow> stream_entry \<Rightarrow> bool" where
  "hmacOk K key entry = (case decodeEntry K entry of None \<Rightarrow> False | Some e \<Rightarrow> VerifyEventHMAC K e key = Some True)"

lemma checkHMAC_kept:
  "vr_TotalEvents (checkHMAC K opts e r) = vr_TotalEvents r" "vr_VerifiedEvents (checkHMAC K opts e r) = vr_VerifiedEvents r"
  "vr_FirstSeq (checkHMAC K opts e r) = vr_FirstSeq r" "vr_LastSeq (checkHMAC K opts e r) = vr_LastSeq r"
  "VerifyEventHMAC K e (vo_HMACKey opts) = Some True \<Longrightarrow> vr_Status (checkHMAC K opts e r) = vr_Status r"
  "VerifyEventHMAC K e (vo_HMACKey opts) = Some True \<Longrightarrow> vr_Gaps (checkHMAC K opts e r) = vr_Gaps r"
  by (simp_all add: checkHMAC_def Let_def compromise_def)

text \<open>A linked list of entries leaves the status and the gaps alone and counts every entry.\<close>

lemma verifyLoop_linked:
  assumes "linked K seq prev entries" "list_all (hmacOk K (vo_HMACKey opts)) entries"
    "w_hasPrev w \<Longrightarrow> w_prevHash w = prev \<and> w_prevSeq w = seq" "first \<Longrightarrow> seq = 0"
  shows "vr_Status (verifyLoop K opts first w entries r) = vr_Status r \<and> vr_Gaps (verifyLoop K opts first w entries r) = vr_Gaps r \<and>
    vr_TotalEvents (verifyLoop K opts first w entries r) = vr_TotalEvents r + int (length entries) \<and>
    vr_VerifiedEvents (verifyLoop K opts first w entries r) = vr_VerifiedEvents r + int (length entries) \<and>
    (entries \<noteq> [] \<longrightarrow> vr_LastSeq (verifyLoop K opts first w entries r) = seq + int (length entries))"
  using assms
proof (induction entries arbitrary: seq prev w first r)
  case (Cons x entries)
  then have hs: "hmacOk K (vo_HMACKey opts) x" "list_all (hmacOk K (vo_HMACKey opts)) entries" by simp_all
  obtain e where e: "decodeEntry K x = Some e" "ev_Seq e = seq + 1" "ev_PrevHash e = prev" "computeEventHash K e = Some (ev_EventHash e)"
    "linked K (seq + 1) (ev_EventHash e) entries" "VerifyEventHMAC K e (vo_HMACKey opts) = Some True"
    using Cons.prems(1) hs(1) by (auto simp: hmacOk_def split: option.splits)
  have hash: "VerifyEventHash K e = Some True" using e(4) by (simp add: VerifyEventHash_def)
  note IH = Cons.IH [OF e(5) hs(2), of "\<lparr>w_prevHash = ev_EventHash e, w_prevSeq = ev_Seq e, w_hasPrev = True\<rparr>" False]
  have first: "(if first then checkFirst opts e r' else r') = (if first then r'\<lparr>vr_FirstSeq := 1\<rparr> else r')" for r'
    using Cons.prems(4) e(2) by (auto simp: checkFirst_def Let_def)
  have seq: "checkSeq w e r' = r'" for r' using Cons.prems(3) e(2) by (auto simp: checkSeq_def)
  have chk: "checkHash K w e r' = r'\<lparr>vr_VerifiedEvents := vr_VerifiedEvents r' + 1\<rparr>" for r'
    using Cons.prems(3) e(3) hash by (auto simp: checkHash_def)
  show ?case
    by (cases "entries = []") (use e(1,2,6) IH in \<open>simp_all add: Let_def first seq chk checkHMAC_kept split: if_split\<close>)
qed simp

lemma verifyLimit_pos: "0 < verifyLimit opts"
  by (simp add: verifyLimit_def Let_def DefaultVerifyLimit_def MaxVerifyLimit_def)

lemma XRangeN_all:
  assumes "sinceMs = 0" "untilMs \<le> 0" "int (length (rXRANGE R s key)) \<le> limit"
  shows "XRangeN R key sinceMs untilMs limit s = rXRANGE R s key"
  using assms by (auto simp: XRangeN_def)

text \<open>The whole stream is read and walked from its first entry, which has no predecessor to compare with.\<close>

lemma VerifyChain_whole:
  assumes "c 0 = CallOk" "vo_SinceMs opts = 0" "vo_UntilMs opts \<le> 0" "int (length (rXRANGE R s key)) \<le> verifyLimit opts"
  obtains r0 where "vr_Status r0 = VerifyStatusOK" "vr_Gaps r0 = []" "vr_TotalEvents r0 = 0" "vr_VerifiedEvents r0 = 0" "vr_LastSeq r0 = 0"
    "VerifyChain K R c key opts s =
       (let r = verifyLoop K opts True \<lparr>w_prevHash = [], w_prevSeq = 0, w_hasPrev = False\<rparr> (rXRANGE R s key) r0
        in Some (if vr_Status r = VerifyStatusOK \<and> vr_Gaps r \<noteq> [] then r\<lparr>vr_Status := VerifyStatusPartial\<rparr> else r))"
proof -
  let ?r0 = "\<lparr>vr_Status = VerifyStatusOK, vr_TotalEvents = 0, vr_VerifiedEvents = 0, vr_Gaps = [],
    vr_RetentionBoundarySeq = vo_RetentionBoundarySeq opts, vr_FirstSeq = 0, vr_LastSeq = 0,
    vr_HMACVerified = 0, vr_HMACSkipped = 0, vr_HMACSeen = False\<rparr>"
  show ?thesis
    by (rule that [of ?r0])
      (use assms in \<open>simp_all add: VerifyChain_def XRangeN_all Let_def del: verifyLoop.simps(2) split: list.split\<close>)
qed

definition intact :: "int \<Rightarrow> verify_result \<Rightarrow> bool" where
  "intact n r \<longleftrightarrow> vr_Status r = VerifyStatusOK \<and> vr_Gaps r = [] \<and> vr_TotalEvents r = n \<and> vr_VerifiedEvents r = n \<and> vr_LastSeq r = n"

lemma VerifyChain_linked:
  assumes call: "c 0 = CallOk" and opts: "vo_SinceMs opts = 0" "vo_UntilMs opts \<le> 0" "int (length (rXRANGE R s key)) \<le> verifyLimit opts"
    and l: "linked K 0 prev (rXRANGE R s key)" and h: "list_all (hmacOk K (vo_HMACKey opts)) (rXRANGE R s key)"
  shows "map_option (intact (int (length (rXRANGE R s key)))) (VerifyChain K R c key opts s) = Some True"
proof (rule VerifyChain_whole [of c opts R s key, OF call opts])
  fix r0 assume r0: "vr_Status r0 = VerifyStatusOK" "vr_Gaps r0 = []" "vr_TotalEvents r0 = 0" "vr_VerifiedEvents r0 = 0" "vr_LastSeq r0 = 0"
    and eq: "VerifyChain K R c key opts s =
       (let r = verifyLoop K opts True \<lparr>w_prevHash = [], w_prevSeq = 0, w_hasPrev = False\<rparr> (rXRANGE R s key) r0
        in Some (if vr_Status r = VerifyStatusOK \<and> vr_Gaps r \<noteq> [] then r\<lparr>vr_Status := VerifyStatusPartial\<rparr> else r))"
  show ?thesis
    using verifyLoop_linked [OF l h, of "\<lparr>w_prevHash = [], w_prevSeq = 0, w_hasPrev = False\<rparr>" True r0] r0
    by (cases "rXRANGE R s key = []") (simp_all add: eq Let_def intact_def)
qed

text \<open>
  The report on a stream says nothing of what was there before or after it: a stream cut off at any
  point is intact, and so is one whose beginning is removed when the rest is numbered from 1, because
  the numbers are not part of the hashed bytes.
\<close>

lemma linked_prefix: "linked K seq prev (es @ fs) \<Longrightarrow> linked K seq prev es"
  by (induction es arbitrary: seq prev) (auto split: option.splits)

lemma linked_suffix: "linked K seq prev (es @ fs) \<Longrightarrow> linked K (seq + int (length es)) (lastHash K prev es) fs"
proof (induction es arbitrary: seq prev)
  case (Cons x es)
  then obtain e where e: "decodeEntry K x = Some e" "linked K (seq + 1) (ev_EventHash e) (es @ fs)" by (auto split: option.splits)
  from Cons.IH [OF e(2)] show ?case by (simp add: e(1) algebra_simps)
qed simp

lemma computeEventHash_seq: "computeEventHash K (e\<lparr>ev_Seq := n\<rparr>) = computeEventHash K e"
  by (simp add: computeEventHash_def cleared_def)

lemma linked_renumber:
  assumes "list_all2 (\<lambda>x y. \<exists>e. decodeEntry K x = Some e \<and> decodeEntry K y = Some (e\<lparr>ev_Seq := ev_Seq e - n\<rparr>)) es fs"
    "linked K seq prev es"
  shows "linked K (seq - n) prev fs"
  using assms
proof (induction arbitrary: seq prev rule: list_all2_induct)
  case (Cons x es y fs)
  then obtain e where e: "decodeEntry K x = Some e" "decodeEntry K y = Some (e\<lparr>ev_Seq := ev_Seq e - n\<rparr>)" by blast
  with Cons.prems Cons.IH [of "seq + 1" "ev_EventHash e"] show ?case by (simp add: computeEventHash_seq algebra_simps)
qed simp

lemma cut_stream_verifies:
  assumes "chain_ok K R ch tenant s" "rXRANGE R s' (StreamKey ch tenant) = take n (rXRANGE R s (StreamKey ch tenant))"
    "c 0 = CallOk" "vo_SinceMs opts = 0" "vo_UntilMs opts \<le> 0" "vo_HMACKey opts = []"
    "int (length (rXRANGE R s' (StreamKey ch tenant))) \<le> verifyLimit opts"
  shows "map_option vr_Status (VerifyChain K R c (StreamKey ch tenant) opts s') = Some VerifyStatusOK"
proof -
  let ?fs = "rXRANGE R s' (StreamKey ch tenant)"
  have l: "linked K 0 [] ?fs"
    using assms(1) linked_prefix [of K 0 "[]" ?fs "drop n (rXRANGE R s (StreamKey ch tenant))"] by (simp add: assms(2) chain_ok_def Let_def)
  have "list_all (hmacOk K []) es" if "linked K q p es" for es q p
    using that by (induction es arbitrary: q p) (auto simp: hmacOk_def VerifyEventHMAC_def split: option.splits)
  with l have "list_all (hmacOk K (vo_HMACKey opts)) ?fs" by (simp add: assms(6))
  from VerifyChain_linked [of c, OF assms(3-5,7) l this] show ?thesis by (auto simp: intact_def)
qed

lemma removed_prefix_verifies:
  assumes "chain_ok K R ch tenant s" "rXRANGE R s (StreamKey ch tenant) = es @ fs"
    "list_all2 (\<lambda>x y. \<exists>e. decodeEntry K x = Some e \<and> decodeEntry K y = Some (e\<lparr>ev_Seq := ev_Seq e - int (length es)\<rparr>))
       fs (rXRANGE R s' (StreamKey ch tenant))"
    "c 0 = CallOk" "vo_SinceMs opts = 0" "vo_UntilMs opts \<le> 0" "list_all (hmacOk K (vo_HMACKey opts)) (rXRANGE R s' (StreamKey ch tenant))"
    "int (length (rXRANGE R s' (StreamKey ch tenant))) \<le> verifyLimit opts"
  shows "map_option vr_Status (VerifyChain K R c (StreamKey ch tenant) opts s') = Some VerifyStatusOK"
proof -
  have "linked K (int (length es)) (lastHash K [] es) fs"
    using assms(1) linked_suffix [of K 0 "[]" es fs] by (simp add: chain_ok_def assms(2) Let_def)
  from linked_renumber [OF assms(3) this] have "linked K 0 (lastHash K [] es) (rXRANGE R s' (StreamKey ch tenant))" by simp
  from VerifyChain_linked [of c, OF assms(4-6,8) this assms(7)] show ?thesis by (auto simp: intact_def)
qed

text \<open>A key does not make unsigned events fail: a stream whose events carry no signature is intact under every key.\<close>

lemma unsigned_stream_verifies:
  assumes "linked K 0 prev (rXRANGE R s key)"
    "list_all (\<lambda>entry. \<exists>e. decodeEntry K entry = Some e \<and> ev_HMAC e = []) (rXRANGE R s key)"
    "c 0 = CallOk" "vo_SinceMs opts = 0" "vo_UntilMs opts \<le> 0" "int (length (rXRANGE R s key)) \<le> verifyLimit opts"
  shows "map_option vr_Status (VerifyChain K R c key opts s) = Some VerifyStatusOK"
proof -
  have "list_all (hmacOk K (vo_HMACKey opts)) (rXRANGE R s key)"
    using assms(2) by (auto simp: list_all_iff hmacOk_def VerifyEventHMAC_def split: option.split)
  from VerifyChain_linked [of c, OF assms(3-6,1) this] show ?thesis by (auto simp: intact_def)
qed

text \<open>The stream of one tenant and the head of another can be one key.\<close>

lemma stream_head_collision: "StreamKey ch (''head:'' @ tenant) = HeadKey ch tenant"
  by (simp add: StreamKey_def HeadKey_def chainHeadInfix_def)

section \<open>Tamper evidence\<close>

text \<open>The hashed bytes of an entry, and what a walk without a finding says of the entries.\<close>

definition entryBytes :: "audit_codec \<Rightarrow> stream_entry \<Rightarrow> string option" where
  "entryBytes K entry = Option.bind (decodeEntry K entry) (\<lambda>e. jsonMarshal K (cleared e))"

fun chained :: "audit_codec \<Rightarrow> string option \<Rightarrow> stream_entry list \<Rightarrow> bool" where
  "chained K prev [] = True"
| "chained K prev (entry # entries) =
     (case decodeEntry K entry of
        None \<Rightarrow> False
      | Some e \<Rightarrow> computeEventHash K e = Some (ev_EventHash e) \<and> (prev = None \<or> prev = Some (ev_PrevHash e)) \<and>
                   chained K (Some (ev_EventHash e)) entries)"

lemma checks_status:
  "vr_Status (checkFirst opts e r) = vr_Status r"
  "vr_Status (checkSeq w e r) = VerifyStatusOK \<Longrightarrow> vr_Status r = VerifyStatusOK"
  "vr_Status (checkHMAC K opts e r) = VerifyStatusOK \<Longrightarrow> vr_Status r = VerifyStatusOK"
  "vr_Status (checkHash K w e r) = VerifyStatusOK \<Longrightarrow>
     vr_Status r = VerifyStatusOK \<and> computeEventHash K e = Some (ev_EventHash e) \<and> (w_hasPrev w \<longrightarrow> ev_PrevHash e = w_prevHash w)"
  by (auto simp: checkFirst_def checkSeq_def checkHash_def checkHMAC_def compromise_def VerifyEventHash_def Let_def split: if_splits)

lemma verifyLoop_accepts:
  "vr_Status (verifyLoop K opts first w entries r) = VerifyStatusOK \<Longrightarrow>
   vr_Status r = VerifyStatusOK \<and> chained K (if w_hasPrev w then Some (w_prevHash w) else None) entries"
proof (induction entries arbitrary: first w r)
  case (Cons x entries)
  show ?case
  proof (cases "decodeEntry K x")
    case None
    with Cons.prems have "vr_Status (verifyLoop K opts False w entries (compromise [gap (w_prevSeq w + 1) GapTypeHashMismatch] r)) = VerifyStatusOK"
      by simp
    from Cons.IH [OF this] show ?thesis by (simp add: compromise_def)
  next
    case (Some e)
    let ?r3 = "(if first then checkFirst opts e (r\<lparr>vr_TotalEvents := vr_TotalEvents r + 1\<rparr>)
      else r\<lparr>vr_TotalEvents := vr_TotalEvents r + 1\<rparr>)\<lparr>vr_LastSeq := ev_Seq e\<rparr>"
    have "vr_Status (verifyLoop K opts False \<lparr>w_prevHash = ev_EventHash e, w_prevSeq = ev_Seq e, w_hasPrev = True\<rparr> entries
        (checkHMAC K opts e (checkHash K w e (checkSeq w e ?r3)))) = VerifyStatusOK"
      using Cons.prems Some by (simp only: verifyLoop.simps option.case Let_def)
    from Cons.IH [OF this]
    have *: "vr_Status (checkHMAC K opts e (checkHash K w e (checkSeq w e ?r3))) = VerifyStatusOK" "chained K (Some (ev_EventHash e)) entries"
      by (simp_all only: walk.select_convs if_True)
    have r3: "vr_Status ?r3 = vr_Status r" by (simp add: checks_status(1))
    from checks_status(4) [OF checks_status(3) [OF *(1)]] checks_status(2) [of w e ?r3] *(2) Some r3 show ?thesis by simp
  qed
qed simp

lemma chained_snoc:
  "chained K prev (entries @ [x]) \<longleftrightarrow>
     chained K prev entries \<and>
     (case decodeEntry K x of
        None \<Rightarrow> False
      | Some e \<Rightarrow> computeEventHash K e = Some (ev_EventHash e) \<and>
          (if entries = [] then prev = None \<or> prev = Some (ev_PrevHash e) else ev_PrevHash e = lastHash K [] entries))"
  by (induction entries arbitrary: prev) (auto simp: lastHash_def split: option.split)

text \<open>Equal last hashes: the entries have the same bytes, or two of the hashed texts collide.\<close>

definition collision :: "audit_codec \<Rightarrow> stream_entry list \<Rightarrow> stream_entry list \<Rightarrow> bool" where
  "collision K es fs \<longleftrightarrow>
     (\<exists>x \<in> set es. \<exists>y \<in> set fs. case (entryBytes K x, entryBytes K y) of
        (Some a, Some b) \<Rightarrow> a \<noteq> b \<and> sha256 K a = sha256 K b
      | _ \<Rightarrow> False)"

lemma chained_same_bytes:
  assumes "prev_determined K"
  shows "length es = length fs \<Longrightarrow> chained K None es \<Longrightarrow> chained K None fs \<Longrightarrow> lastHash K [] es = lastHash K [] fs \<Longrightarrow>
    map (entryBytes K) es = map (entryBytes K) fs \<or> collision K es fs"
proof (induction es arbitrary: fs rule: rev_induct)
  case (snoc x es)
  then obtain fs' y where fs: "fs = fs' @ [y]" "length fs' = length es" by (cases fs rule: rev_cases) auto
  obtain e where e: "decodeEntry K x = Some e" "computeEventHash K e = Some (ev_EventHash e)" "chained K None es"
    "es \<noteq> [] \<Longrightarrow> ev_PrevHash e = lastHash K [] es" using snoc.prems(2) by (auto simp: chained_snoc split: option.splits if_splits)
  obtain f where f: "decodeEntry K y = Some f" "computeEventHash K f = Some (ev_EventHash f)" "chained K None fs'"
    "fs' \<noteq> [] \<Longrightarrow> ev_PrevHash f = lastHash K [] fs'" using snoc.prems(3) fs(1) by (auto simp: chained_snoc split: option.splits if_splits)
  have "ev_EventHash e = ev_EventHash f" using snoc.prems(4) by (simp add: fs(1) e(1) f(1))
  then obtain a b where ab: "jsonMarshal K (cleared e) = Some a" "jsonMarshal K (cleared f) = Some b" "sha256 K a = sha256 K b"
    using e(2) f(2) by (auto simp: computeEventHash_def) (metis hexEncode_inject)
  then have bytes: "entryBytes K x = Some a" "entryBytes K y = Some b" by (simp_all add: entryBytes_def e(1) f(1))
  show ?case
  proof (cases "a = b")
    case False
    then have "collision K (es @ [x]) fs" using bytes ab(3) fs(1) by (auto simp: collision_def)
    then show ?thesis by blast
  next
    case True
    obtain p q where "jsonUnmarshal K p = Some e" "jsonUnmarshal K q = Some f"
      using e(1) f(1) by (auto simp: decodeEntry_def split: option.splits)
    then have prev: "ev_PrevHash e = ev_PrevHash f" using assms ab True unfolding prev_determined_def by metis
    have "lastHash K [] es = lastHash K [] fs'"
      using prev e(4) f(4) fs(2) by (cases "es = []"; cases "fs' = []") auto
    from snoc.IH [OF fs(2) [symmetric] e(3) f(3) this] show ?thesis
      using bytes True fs(1) by (auto simp: collision_def)
  qed
qed simp

lemma VerifyChain_accepts:
  assumes "c 0 = CallOk" "vo_SinceMs opts = 0" "vo_UntilMs opts \<le> 0" "int (length (rXRANGE R s key)) \<le> verifyLimit opts"
    "map_option vr_Status (VerifyChain K R c key opts s) = Some VerifyStatusOK"
  shows "chained K None (rXRANGE R s key)"
proof (rule VerifyChain_whole [of c opts R s key, OF assms(1-4)])
  fix r0
  assume eq: "VerifyChain K R c key opts s =
       (let r = verifyLoop K opts True \<lparr>w_prevHash = [], w_prevSeq = 0, w_hasPrev = False\<rparr> (rXRANGE R s key) r0
        in Some (if vr_Status r = VerifyStatusOK \<and> vr_Gaps r \<noteq> [] then r\<lparr>vr_Status := VerifyStatusPartial\<rparr> else r))"
  show ?thesis
    using verifyLoop_accepts [of K opts True "\<lparr>w_prevHash = [], w_prevSeq = 0, w_hasPrev = False\<rparr>" "rXRANGE R s key" r0] assms(5)
    by (auto simp: eq Let_def split: if_splits)
qed

section \<open>An append that nobody disturbs\<close>

text \<open>What a cache holds is a head that some append wrote.\<close>

definition cache_ok :: "chainer \<Rightarrow> bool" where
  "cache_ok ch \<longleftrightarrow> headCacheValid ch \<longrightarrow> parseChainHead (headCacheRaw ch) \<noteq> None"

definition encodable :: "audit_codec \<Rightarrow> siem_event \<Rightarrow> bool" where
  "encodable K e \<longleftrightarrow> (\<forall>e'. content e' = content e \<longrightarrow> jsonMarshal K e' \<noteq> None)"

lemma parseChainHead_current:
  assumes "chain_ok K R ch tenant s" "int64_range (int (length (rXRANGE R s (StreamKey ch tenant))))" "\<And>b. length (sha256 K b) = 32"
  shows "parseChainHead (case rGET R s (HeadKey ch tenant) of None \<Rightarrow> [] | Some h \<Rightarrow> h) =
    Some (int (length (rXRANGE R s (StreamKey ch tenant))), lastHash K [] (rXRANGE R s (StreamKey ch tenant)))"
proof (cases "rXRANGE R s (StreamKey ch tenant)" rule: rev_cases)
  case (snoc es x)
  let ?n = "int (length es) + 1" and ?h = "lastHash K [] (es @ [x])"
  from assms(1) snoc obtain e where "decodeEntry K x = Some e" "computeEventHash K e = Some (ev_EventHash e)"
    by (auto simp: chain_ok_def Let_def linked_snoc split: option.splits)
  then have "length ?h = 64" using assms(3) length_hexEncode by (auto simp: computeEventHash_def) (metis mult_2 numeral_Bit0)
  moreover have "IndexByte (Itoa ?n @ '':'' @ ?h) (CHR '':'') = Some (length (Itoa ?n))"
    using IndexByte_skip [OF Itoa_no_colon, of ?n ?h] by simp
  ultimately show ?thesis
    using assms(1,2) snoc by (simp add: chain_ok_def Let_def parseChainHead_def chainHashHexLen_def add.commute)
qed (use assms(1) in \<open>simp add: chain_ok_def Let_def parseChainHead_def\<close>)

lemma linkEvent_total:
  assumes "encodable K e"
  obtains e' payload where "linkEvent K key head e = Inr e'" "jsonMarshal K e' = Some payload" "content e' = content e"
proof -
  have marsh: "jsonMarshal K (cleared x) \<noteq> None" if "content x = content e" for x
    using assms that unfolding encodable_def by (auto simp: content_def cleared_def)
  let ?e1 = "e\<lparr>ev_PrevHash := snd head, ev_Seq := fst head + 1\<rparr>"
  have "content ?e1 = content e" "\<And>h. content (?e1\<lparr>ev_EventHash := h\<rparr>) = content e" by (simp_all add: content_def)
  with marsh have "jsonMarshal K (cleared ?e1) \<noteq> None" "\<And>h. jsonMarshal K (cleared (?e1\<lparr>ev_EventHash := h\<rparr>)) \<noteq> None" by blast+
  then have "\<exists>e'. linkEvent K key head e = Inr e'"
    by (auto simp: linkEvent_def Let_def computeEventHash_def computeEventHMAC_def split: option.split) (metis option.distinct(1))
  then obtain e' where e': "linkEvent K key head e = Inr e'" ..
  with assms have "jsonMarshal K e' \<noteq> None" using linkEvent_fields(4) [OF e'] by (simp add: encodable_def)
  with e' linkEvent_fields(4) [OF e'] that show thesis by blast
qed

context redis_server
begin

text \<open>With the current head an attempt commits; with another one it asks to retry and forgets it.\<close>

lemma attempt_current:
  assumes "\<And>i. c i = CallOk" "\<And>x. env x = x" "headAt R CallOk (fst cs) (ev_TenantID e) (snd cs) = Some raw" "parseChainHead raw = Some head"
    "encodable K e" "raw = (case rGET R (snd cs) (HeadKey (fst cs) (ev_TenantID e)) of None \<Rightarrow> [] | Some h \<Rightarrow> h)"
    "raw = [] \<Longrightarrow> rXRANGE R (snd cs) (StreamKey (fst cs) (ev_TenantID e)) = []"
  obtains x ch' s' where "appendAttempt K R c env e cs = Final (Inr x, ch', s')" "ev_Seq x = fst head + 1"
proof (rule linkEvent_total [OF assms(5), of "hmacKey (fst cs)" head])
  fix e' payload assume e': "linkEvent K (hmacKey (fst cs)) head e = Inr e'" "jsonMarshal K e' = Some payload"
  note f = linkEvent_fields [OF e'(1)]
  show thesis
    using that f e' assms(2,3,4,7)
    by (auto simp: appendAttempt_def commitAttempt_def Let_def assms(1) run_def chainAppendScript_def assms(6) [symmetric] case_prod_beta)
qed

lemma attempt_stale:
  assumes "\<And>i. c i = CallOk" "\<And>x. env x = x" "headAt R CallOk (fst cs) (ev_TenantID e) (snd cs) = Some raw" "parseChainHead raw = Some head"
    "encodable K e" "raw \<noteq> (case rGET R (snd cs) (HeadKey (fst cs) (ev_TenantID e)) of None \<Rightarrow> [] | Some h \<Rightarrow> h)"
  shows "appendAttempt K R c env e cs = Retry (invalidateCachedHead (ev_TenantID e) raw (fst cs), snd cs)"
proof (rule linkEvent_total [OF assms(5), of "hmacKey (fst cs)" head])
  fix e' payload assume e': "linkEvent K (hmacKey (fst cs)) head e = Inr e'" "jsonMarshal K e' = Some payload"
  note f = linkEvent_fields [OF e'(1)]
  show ?thesis
    using f e' assms(2-4,6)
    by (simp add: appendAttempt_def commitAttempt_def Let_def assms(1) run_def chainAppendScript_def)
qed

lemma appendLoop_quiet:
  assumes calls: "\<And>i j. c i j = CallOk" and quiet: "\<And>i x. env i x = x" and cs: "cs = (ch, s)"
    and ok: "chain_ok K R ch (ev_TenantID e) s" "int64_range (int (length (rXRANGE R s (StreamKey ch (ev_TenantID e)))))"
    and K: "\<And>b. length (sha256 K b) = 32" "encodable K e" and cache: "cache_ok ch"
  shows "\<exists>x ch' s'. appendLoop K R c env (Suc (Suc n)) e cs = (Inr x, ch', s') \<and>
    ev_Seq x = int (length (rXRANGE R s (StreamKey ch (ev_TenantID e)))) + 1"
proof -
  let ?t = "ev_TenantID e" and ?u = "unlinked e"
  let ?head = "case rGET R s (HeadKey ch ?t) of None \<Rightarrow> [] | Some h \<Rightarrow> h"
  let ?len = "int (length (rXRANGE R s (StreamKey ch ?t)))"
  note parse = parseChainHead_current [OF ok K(1)]
  have fresh: "?head = [] \<Longrightarrow> rXRANGE R s (StreamKey ch ?t) = []"
    using ok(1) by (auto simp: chain_ok_def Let_def split: if_splits)
  have u: "ev_TenantID ?u = ?t" "encodable K ?u" using K(2) by (simp_all add: unlinked_def encodable_def content_def)
  obtain raw where raw: "headAt R CallOk ch ?t s = Some raw" "raw = ?head \<or> cachedHead ch ?t = Some raw"
    by (cases "cachedHead ch ?t") (auto simp: headAt_def)
  show ?thesis
  proof (cases "raw = ?head")
    case True
    show ?thesis
      by (rule attempt_current [of "c (Suc n)" "env (Suc n)" cs e raw "(?len, lastHash K [] (rXRANGE R s (StreamKey ch ?t)))" K, OF calls quiet]) (use True raw(1) parse fresh K(2) in \<open>auto simp: cs\<close>)
  next
    case False
    then have c: "cachedHead ch ?t = Some raw" using raw(2) by blast
    then obtain head where "parseChainHead raw = Some head" using cache by (auto simp: cache_ok_def cachedHead_def split: if_splits)
    with False raw K(2) have step: "appendAttempt K R (c (Suc n)) (env (Suc n)) e cs = Retry (invalidateCachedHead ?t raw ch, s)"
      by (simp add: attempt_stale calls quiet cs)
    let ?ch = "invalidateCachedHead ?t raw ch"
    have inv: "cachedHead ?ch ?t = None" "HeadKey ?ch = HeadKey ch" "StreamKey ?ch = StreamKey ch"
      using c by (auto simp: cachedHead_def invalidateCachedHead_def HeadKey_def StreamKey_def fun_eq_iff split: if_splits)
    then have "headAt R CallOk ?ch ?t s = Some ?head" by (simp add: headAt_def)
    note head = this
    obtain x ch' s' where "appendAttempt K R (c n) (env n) ?u (?ch, s) = Final (Inr x, ch', s')" "ev_Seq x = ?len + 1"
      by (rule attempt_current [of "c n" "env n" "(?ch, s)" ?u ?head "(?len, lastHash K [] (rXRANGE R s (StreamKey ch ?t)))" K, OF calls quiet])
        (use head parse fresh u inv in auto)
    then show ?thesis by (simp add: step)
  qed
qed

end

text \<open>The start of the reverse range: exactly the ids before the given one.\<close>

lemma Itoa_no_dash: "0 \<le> n \<Longrightarrow> CHR ''-'' \<notin> set (Itoa n)"
  using nat_str_digits [of "nat n"] by (auto simp: Itoa_def list_all_iff)

lemma xRevBefore_strict:
  assumes "0 \<le> ms" "0 \<le> seq" "int64_range ms" "int64_range seq" "0 < ms \<or> 0 < seq" "0 \<le> snd j" "snd j \<le> maxSeqPart"
  shows "at_most (xRevBefore (idString (ms, seq))) j \<longleftrightarrow> id_less j (ms, seq)"
proof -
  have ne: "Itoa ms \<noteq> []" "Itoa seq \<noteq> []" using nat_str_digits by (auto simp: Itoa_def)
  have "IndexByte (Itoa ms @ ''-'' @ Itoa seq) (CHR ''-'') = Some (length (Itoa ms))"
    using IndexByte_skip [OF Itoa_no_dash [OF assms(1)], of "Itoa seq"] by simp
  then have "xRevBefore (idString (ms, seq)) = (if seq > 0 then Bound (ms, seq - 1) else Bound (ms - 1, maxSeqPart))"
    using assms ne by (auto simp: xRevBefore_def idString_def)
  then show ?thesis using assms by (auto simp: id_less_def)
qed

section \<open>A codec for examples\<close>

text \<open>
  The examples use a small codec: every field that is kept is written with a mark before each
  character and a separator after it. The digest is the last 32 bytes of the text.
\<close>

definition putField :: "string \<Rightarrow> string" where
  "putField s = concat (map (\<lambda>c. [CHR ''.'', c]) s) @ ''|''"

fun getField :: "string \<Rightarrow> string \<times> string" where
  "getField (m # c # r) = (if m = CHR ''.'' then case getField r of (s, rest) \<Rightarrow> (c # s, rest) else ([], c # r))"
| "getField [m] = ([], [])"
| "getField [] = ([], [])"

lemma getField_putField [simp]: "getField (putField s @ r) = (s, r)"
proof (induction s)
  case Nil
  show ?case by (cases r) (simp_all add: putField_def)
qed (simp add: putField_def)

definition getInt :: "string \<Rightarrow> int" where
  "getInt s = (if s \<noteq> [] \<and> hd s = CHR ''-'' then - int (digits_val 0 (tl s)) else int (digits_val 0 s))"

lemma getInt_Itoa [simp]: "getInt (Itoa n) = n"
  using nat_str_digits by (auto simp: getInt_def Itoa_def)

definition blank_event :: siem_event where
  "blank_event = \<lparr>ev_Timestamp = 0, ev_EventType = [], ev_Severity = [], ev_TenantID = [], ev_AgentID = [], ev_AgentName = [],
     ev_AgentRiskTier = [], ev_JobID = [], ev_Action = [], ev_Decision = [], ev_MatchedRule = [], ev_Reason = [], ev_RiskTags = [],
     ev_Capabilities = [], ev_PolicyVersion = [], ev_Identity = [], ev_Extra = [], ev_Seq = 0, ev_EventHash = [], ev_PrevHash = [], ev_HMAC = []\<rparr>"

definition plain_codec :: audit_codec where
  "plain_codec =
     \<lparr>jsonMarshal = (\<lambda>e. Some (putField (ev_PrevHash e) @ putField (Itoa (ev_Seq e)) @ putField (ev_EventHash e) @ putField (ev_HMAC e) @
                                 putField (ev_TenantID e) @ putField (ev_Reason e))),
      jsonUnmarshal = (\<lambda>p. let (prev, p) = getField p; (seq, p) = getField p; (hash, p) = getField p; (tag, p) = getField p;
                                  (tenant, p) = getField p; (reason, p) = getField p
                            in Some (blank_event\<lparr>ev_TenantID := tenant, ev_Reason := reason, ev_Seq := getInt seq, ev_EventHash := hash,
                                                 ev_PrevHash := prev, ev_HMAC := tag\<rparr>)),
      sha256 = (\<lambda>b. take 32 (rev b @ replicate 32 (CHR ''0''))),
      hmacSHA256 = (\<lambda>k b. take 32 (rev b @ k))\<rparr>"

lemma putField_inject: "putField s @ r = putField t @ q \<longleftrightarrow> s = t \<and> r = q"
  by (metis getField_putField prod.inject)

lemma plain_codec_laws: "codec_laws plain_codec (\<lambda>e. True)"
proof -
  have [simp]: "getField (putField s) = (s, [])" for s using getField_putField [of s "[]"] by simp
  show ?thesis by (auto simp: codec_laws_def plain_codec_def cleared_def min_def)
qed

lemma plain_codec_prev: "prev_determined plain_codec"
  by (auto simp: prev_determined_def plain_codec_def cleared_def putField_inject)

definition ex_chainer :: chainer where
  "ex_chainer = \<lparr>keyPrefix = ChainKeyPrefix, hmacKey = [], headCacheValid = True, headCacheTenant = ''acme'', headCacheRaw = ''7:''\<rparr>"

definition ex_event :: siem_event where
  "ex_event = blank_event\<lparr>ev_TenantID := ''acme'', ev_Reason := ''denied''\<rparr>"

lemma ex_chain_empty: "chain_ok plain_codec map_redis ch tenant empty_server"
  by (simp add: chain_ok_def Let_def map_redis_def empty_server_def mget_list_def)

lemma ex_event_tenant: "ev_TenantID ex_event = ''acme''"
  by (simp add: ex_event_def)

lemma ex_head: "parseChainHead ''7:'' = Some (7, [])"
  by code_simp

section \<open>The properties\<close>

text \<open>
  C17. An append keeps the chain of its tenant: whatever commits of other writers fall between its
  attempts, with fresh or stale heads, and wherever a call fails, the stream stays a linked chain that
  agrees with the head key; when the append reports success, its event is the last entry.
\<close>

theorem Append_keeps_chain:
  assumes "redis_laws R view" "codec_laws K clean" "chain_ok K R ch (ev_TenantID e) s" "clean (content e)"
    "\<And>i x. (chain_step K clean R ch (ev_TenantID e))\<^sup>*\<^sup>* (snd x) (snd (env i x))"
  shows "case Append K R c env (Some e) (ch, s) of
    (res, _, s') \<Rightarrow> chain_ok K R ch (ev_TenantID e) s' \<and>
      (case res of Inl _ \<Rightarrow> True | Inr e' \<Rightarrow> appended K R (StreamKey ch (ev_TenantID e)) e e' s')"
proof -
  note loop = redis_server.appendLoop_ok [OF redis_server.intro [OF assms(1)] assms(2,5), where cs = "(ch, s)"]
  show ?thesis
    using loop [where e = e and c = c and left = chainMaxCASRetries] assms(3,4)
    by (auto simp: Append_def split: prod.split sum.split)
qed

theorem Append_keeps_chain_witness:
  "case Append plain_codec map_redis (\<lambda>_ _. CallOk) (\<lambda>_ x. x) (Some ex_event) (ex_chainer, empty_server) of
     (res, _, s') \<Rightarrow> chain_ok plain_codec map_redis ex_chainer ''acme'' s' \<and>
       (case res of Inl _ \<Rightarrow> True | Inr e' \<Rightarrow> appended plain_codec map_redis (StreamKey ex_chainer ''acme'') ex_event e' s')"
  using Append_keeps_chain [OF map_redis_laws plain_codec_laws ex_chain_empty, where e = ex_event and env = "\<lambda>_ x. x" and ch = ex_chainer and c = "\<lambda>_ _. CallOk",
    unfolded ex_event_tenant]
  by simp

text \<open>
  C20. An append that no other writer disturbs and whose calls succeed commits with the next number,
  even when the cached head is stale: the second attempt reads the head afresh.
\<close>

theorem Append_commits:
  assumes "redis_laws R view" "chain_ok K R ch (ev_TenantID e) s" "ev_TenantID e \<noteq> []" "cache_ok ch" "encodable K e"
    "\<And>b. length (sha256 K b) = 32" "int64_range (int (length (rXRANGE R s (StreamKey ch (ev_TenantID e)))))"
  shows "\<exists>x ch' s'. Append K R (\<lambda>_ _. CallOk) (\<lambda>_ y. y) (Some e) (ch, s) = (Inr x, ch', s') \<and>
    ev_Seq x = int (length (rXRANGE R s (StreamKey ch (ev_TenantID e)))) + 1"
proof -
  have "chainMaxCASRetries = Suc (Suc 1022)" by (simp add: chainMaxCASRetries_def)
  then show ?thesis
    using redis_server.appendLoop_quiet [OF redis_server.intro [OF assms(1)], of "\<lambda>_ _. CallOk" "\<lambda>_ y. y" "(ch, s)" ch s K e 1022] assms(2-)
    by (simp add: Append_def)
qed

theorem Append_commits_witness:
  "\<exists>x ch' s'. Append plain_codec map_redis (\<lambda>_ _. CallOk) (\<lambda>_ y. y) (Some ex_event) (ex_chainer, empty_server) = (Inr x, ch', s') \<and>
    ev_Seq x = 1"
proof -
  have cache: "cache_ok ex_chainer" using ex_head by (simp add: cache_ok_def ex_chainer_def)
  have enc: "encodable plain_codec ex_event" "\<And>b. length (sha256 plain_codec b) = 32"
    by (auto simp: encodable_def plain_codec_def min_def)
  have "rXRANGE map_redis empty_server k = []" for k by (simp add: map_redis_def empty_server_def mget_list_def)
  with Append_commits [OF map_redis_laws ex_chain_empty _ cache enc] show ?thesis by (simp add: ex_event_def int64_range_def)
qed

text \<open>
  C19. The verifier reports a chain as intact: a stream that agrees with its head, read as a whole and
  with signatures that match the given key, has status ok, no gaps, every event counted and verified, and
  the last number equal to the number of events.
\<close>

theorem VerifyChain_intact:
  assumes "chain_ok K R ch tenant s" "c 0 = CallOk" "vo_SinceMs opts = 0" "vo_UntilMs opts \<le> 0"
    "int (length (rXRANGE R s (StreamKey ch tenant))) \<le> verifyLimit opts"
    "list_all (hmacOk K (vo_HMACKey opts)) (rXRANGE R s (StreamKey ch tenant))"
  shows "map_option (intact (int (length (rXRANGE R s (StreamKey ch tenant))))) (VerifyChain K R c (StreamKey ch tenant) opts s) = Some True"
proof -
  have "linked K 0 [] (rXRANGE R s (StreamKey ch tenant))" using assms(1) by (simp add: chain_ok_def Let_def)
  from VerifyChain_linked [of c, OF assms(2-5) this assms(6)] show ?thesis .
qed

definition ex_opts :: verify_options where
  "ex_opts = \<lparr>vo_SinceMs = 0, vo_UntilMs = 0, vo_Limit = 0, vo_RetentionBoundarySeq = 0, vo_HMACKey = []\<rparr>"

definition ex_entry :: "siem_event \<Rightarrow> string gomap" where
  "ex_entry e = [(''seq'', Itoa (ev_Seq e)), (''event'', the (jsonMarshal plain_codec e))]"

text \<open>Two events of a tenant, linked.\<close>

definition ex_linked :: "siem_event list" where
  "ex_linked =
     (case linkEvent plain_codec [] (0, []) ex_event of
        Inl _ \<Rightarrow> []
      | Inr e1 \<Rightarrow>
          (case linkEvent plain_codec [] (ev_Seq e1, ev_EventHash e1) (ex_event\<lparr>ev_Reason := ''allowed''\<rparr>) of Inl _ \<Rightarrow> [] | Inr e2 \<Rightarrow> [e1, e2]))"

definition ex_stream :: "int \<Rightarrow> server" where
  "ex_stream t = empty_server
     \<lparr>srv_streams := [(StreamKey ex_chainer ''acme'', map (\<lambda>e. ((t, ev_Seq e), ex_entry e)) ex_linked)],
      srv_strings := [(HeadKey ex_chainer ''acme'', ''2:'' @ ev_EventHash (last ex_linked))]\<rparr>"

lemma ex_stream_range:
  "rXRANGE map_redis (ex_stream t) (StreamKey ex_chainer ''acme'') = map (\<lambda>e. ((t, ev_Seq e), ex_entry e)) ex_linked"
  by (simp add: map_redis_def ex_stream_def mget_list_def)

lemma decode_ex_entry: "decodeEntry plain_codec (i, ex_entry e) = jsonUnmarshal plain_codec (the (jsonMarshal plain_codec e))"
  by (simp add: decodeEntry_def ex_entry_def chainStreamFieldEvent_def)

lemma ex_linked_length: "length ex_linked = 2"
  by code_simp

lemma ex_stream_linked: "linked plain_codec 0 [] (map (\<lambda>e. ((t, ev_Seq e), ex_entry e)) ex_linked)"
proof -
  have *: "linked K n prev (map (\<lambda>e. ((t, ev_Seq e), ex_entry e)) es) = linked K n prev (map (\<lambda>e. ((0, 0), ex_entry e)) es)" for K n prev es
    by (induction es arbitrary: n prev) (simp_all add: decodeEntry_def split: option.split)
  have "linked plain_codec 0 [] (map (\<lambda>e. ((0, 0), ex_entry e)) ex_linked)" by code_simp
  then show ?thesis by (simp only: *)
qed

lemma ex_stream_limit: "int (length (rXRANGE map_redis (ex_stream t) (StreamKey ex_chainer ''acme''))) \<le> verifyLimit ex_opts"
  by (simp add: ex_stream_range ex_linked_length verifyLimit_def ex_opts_def DefaultVerifyLimit_def MaxVerifyLimit_def)

lemma ex_stream_hmac: "list_all (hmacOk plain_codec []) (map (\<lambda>e. ((t, ev_Seq e), ex_entry e)) es)"
proof -
  have "jsonUnmarshal plain_codec p \<noteq> None" for p by (simp add: plain_codec_def case_prod_beta Let_def)
  then show ?thesis by (auto simp: list_all_iff hmacOk_def decode_ex_entry VerifyEventHMAC_def split: option.split)
qed

lemma ex_lastHash:
  "es \<noteq> [] \<Longrightarrow> lastHash plain_codec prev (map (\<lambda>e. ((t, ev_Seq e), ex_entry e)) es) = ev_EventHash (last es)"
proof -
  have [simp]: "getField (putField s) = (s, [])" for s using getField_putField [of s "[]"] by simp
  show "es \<noteq> [] \<Longrightarrow> lastHash plain_codec prev (map (\<lambda>e. ((t, ev_Seq e), ex_entry e)) es) = ev_EventHash (last es)"
    by (simp add: lastHash_def last_map decode_ex_entry) (simp add: plain_codec_def)
qed

lemma ex_stream_ok: "chain_ok plain_codec map_redis ex_chainer ''acme'' (ex_stream t)"
proof -
  have "ex_linked \<noteq> []" "Itoa 2 = ''2''" using ex_linked_length by auto code_simp
  then show ?thesis
    by (simp add: chain_ok_def Let_def ex_stream_range ex_stream_linked ex_lastHash ex_linked_length)
      (simp add: map_redis_def ex_stream_def)
qed

theorem VerifyChain_intact_witness:
  "map_option (intact 2) (VerifyChain plain_codec map_redis (\<lambda>_. CallOk) (StreamKey ex_chainer ''acme'') ex_opts (ex_stream 5)) = Some True"
  using VerifyChain_intact [OF ex_stream_ok _ _ _ ex_stream_limit, of "\<lambda>_. CallOk" 5] ex_stream_hmac
  by (simp add: ex_opts_def ex_stream_range ex_linked_length)

text \<open>
  C18. Tamper evidence: two streams that the verifier accepts as a whole, with the same number of
  entries and the same last hash, have the same hashed bytes in every entry, or two of their hashed texts
  collide under SHA-256. So with the length and last hash known, no entry can be changed unnoticed.
\<close>

theorem accepted_chain_determined:
  assumes "prev_determined K" "c 0 = CallOk" "vo_SinceMs opts = 0" "vo_UntilMs opts \<le> 0"
    "int (length (rXRANGE R s key)) \<le> verifyLimit opts" "length (rXRANGE R s' key) = length (rXRANGE R s key)"
    "map_option vr_Status (VerifyChain K R c key opts s) = Some VerifyStatusOK"
    "map_option vr_Status (VerifyChain K R c key opts s') = Some VerifyStatusOK"
    "lastHash K [] (rXRANGE R s key) = lastHash K [] (rXRANGE R s' key)"
  shows "map (entryBytes K) (rXRANGE R s key) = map (entryBytes K) (rXRANGE R s' key) \<or> collision K (rXRANGE R s key) (rXRANGE R s' key)"
proof -
  have "chained K None (rXRANGE R s key)" "chained K None (rXRANGE R s' key)"
    by (rule VerifyChain_accepts [of c opts]; use assms in simp)+
  then show ?thesis by (rule chained_same_bytes [OF assms(1) assms(6) [symmetric] _ _ assms(9)])
qed

theorem accepted_chain_determined_witness:
  "map (entryBytes plain_codec) (rXRANGE map_redis (ex_stream 5) (StreamKey ex_chainer ''acme'')) =
     map (entryBytes plain_codec) (rXRANGE map_redis (ex_stream 9) (StreamKey ex_chainer ''acme'')) \<or>
   collision plain_codec (rXRANGE map_redis (ex_stream 5) (StreamKey ex_chainer ''acme'')) (rXRANGE map_redis (ex_stream 9) (StreamKey ex_chainer ''acme''))"
proof -
  have ok: "map_option vr_Status (VerifyChain plain_codec map_redis (\<lambda>_. CallOk) (StreamKey ex_chainer ''acme'') ex_opts (ex_stream t)) =
    Some VerifyStatusOK" for t
    using VerifyChain_linked [of "\<lambda>_. CallOk" ex_opts map_redis "ex_stream t" "StreamKey ex_chainer ''acme''" plain_codec "[]"]
      ex_stream_limit [of t] ex_stream_linked [of t] ex_stream_hmac [of t ex_linked]
    by (auto simp: ex_opts_def ex_stream_range intact_def)
  show ?thesis
    by (rule accepted_chain_determined [of _ "\<lambda>_. CallOk" ex_opts, OF plain_codec_prev _ _ _ ex_stream_limit _ ok ok])
      (use ex_lastHash [of ex_linked] ex_linked_length in \<open>force simp: ex_opts_def ex_stream_range\<close>)+
qed

end
