(* ===== verification/Workflow_Model.thy ===== *)
theory Workflow_Model
  imports Go_Float "HOL-Library.List_Lexorder" "HOL-Library.Char_ord"
begin

text \<open>
  The data of the workflow engine (\<open>core/workflow/models.go\<close>) and its pure helpers: the graph of a
  workflow, context paths, templates and the configuration of the control steps
  (\<open>engine_helpers.go\<close>, \<open>engine_eval.go\<close>, \<open>eval.go\<close>, \<open>engine_steps_*.go\<close>).

  Values of type \<open>any\<close> are \<open>wf_value\<close>. The expression library is a parameter, behind the checks of
  \<open>Eval\<close>; so are the text of a float and JSON schema validation. A nil map is an empty one, except for
  the input of a step definition and the context of a run, where the code tells the two apart.

  Shown here: the dependencies of a step are exactly the steps reachable from it, computed with every
  step visited once, cycles or not; a context path written is read back and leaves other paths alone;
  the job id of a step leads back to the step and its attempt.
\<close>

section \<open>Values\<close>

datatype wf_value =
    VNil
  | VBool bool
  | VInt int
  | VFloat float64
  | VString string
  | VList "wf_value list"
  | VMap "(string \<times> wf_value) list"

type_synonym obj = "wf_value gomap"

definition as_map :: "wf_value \<Rightarrow> obj option" where
  "as_map v = (case v of VMap m \<Rightarrow> Some m | _ \<Rightarrow> None)"

definition as_string :: "wf_value \<Rightarrow> string option" where
  "as_string v = (case v of VString s \<Rightarrow> Some s | _ \<Rightarrow> None)"

definition msg :: "string \<Rightarrow> obj" where
  "msg m = [(''message'', VString m)]"

section \<open>Workflows and runs\<close>

datatype step_type =
    StepTypeWorker | StepTypeApproval | StepTypeCondition | StepTypeDelay | StepTypeNotify | StepTypeSwitch | StepTypeParallel
  | StepTypeLoop | StepTypeTransform | StepTypeStorage | StepTypeSubWorkflow | StepTypeGeneric string

datatype run_status =
    RunStatusPending | RunStatusRunning | RunStatusWaiting | RunStatusSucceeded | RunStatusFailed | RunStatusDenied
  | RunStatusCancelled | RunStatusTimedOut

text \<open>\<open>StepStatusNone\<close> is the empty status of a step run that was never touched.\<close>

datatype step_status =
    StepStatusNone | StepStatusPending | StepStatusRunning | StepStatusWaiting | StepStatusSucceeded | StepStatusFailed
  | StepStatusDenied | StepStatusCancelled | StepStatusTimedOut | StepStatusSkipped

record retry_config =
  MaxRetries :: int
  InitialBackoffSec :: int
  MaxBackoffSec :: int
  Multiplier :: float64

record step =
  st_ID :: string
  st_Name :: string
  st_Type :: step_type
  st_Topic :: string
  st_DependsOn :: "string list"
  st_Condition :: string
  st_ForEach :: string
  st_MaxParallel :: int
  st_Input :: "obj option"
  st_InputSchema :: obj
  st_InputSchemaID :: string
  st_OutputPath :: string
  st_ResultDataPath :: string
  st_OutputSchema :: obj
  st_OutputSchemaID :: string
  st_OnError :: string
  st_Retry :: "retry_config option"
  st_TimeoutSec :: int
  st_DelaySec :: int
  st_DelayUntil :: string

record workflow =
  wf_ID :: string
  wf_OrgID :: string
  wf_Name :: string
  wf_TimeoutSec :: int
  wf_Steps :: "step option gomap"

text \<open>A step run: its own fields, and the runs of its children by id.\<close>

record step_fields =
  sf_StepID :: string
  sf_Status :: step_status
  sf_StartedAt :: "int option"
  sf_CompletedAt :: "int option"
  sf_NextAttemptAt :: "int option"
  sf_Attempts :: int
  sf_Input :: obj
  sf_Output :: wf_value
  sf_Error :: obj
  sf_JobID :: string
  sf_Item :: wf_value
  sf_ResolvedItems :: "wf_value list option"
  sf_SkipReason :: string

datatype step_run = StepRun (sr_fields: step_fields) (sr_Children: "(string \<times> step_run) list")

definition new_fields :: "string \<Rightarrow> step_status \<Rightarrow> step_fields" where
  "new_fields i status = \<lparr>sf_StepID = i, sf_Status = status, sf_StartedAt = None, sf_CompletedAt = None, sf_NextAttemptAt = None,
     sf_Attempts = 0, sf_Input = [], sf_Output = VNil, sf_Error = [], sf_JobID = [], sf_Item = VNil, sf_ResolvedItems = None,
     sf_SkipReason = []\<rparr>"

definition new_run :: "string \<Rightarrow> step_status \<Rightarrow> step_run" where
  "new_run i status = StepRun (new_fields i status) []"

definition upd :: "(step_fields \<Rightarrow> step_fields) \<Rightarrow> step_run \<Rightarrow> step_run" where
  "upd f sr = StepRun (f (sr_fields sr)) (sr_Children sr)"

definition put_child :: "string \<Rightarrow> step_run \<Rightarrow> step_run \<Rightarrow> step_run" where
  "put_child i c sr = StepRun (sr_fields sr) (mput i c (sr_Children sr))"

abbreviation sr_Status :: "step_run \<Rightarrow> step_status" where "sr_Status sr \<equiv> sf_Status (sr_fields sr)"
abbreviation sr_JobID :: "step_run \<Rightarrow> string" where "sr_JobID sr \<equiv> sf_JobID (sr_fields sr)"
abbreviation sr_Attempts :: "step_run \<Rightarrow> int" where "sr_Attempts sr \<equiv> sf_Attempts (sr_fields sr)"
abbreviation sr_Input :: "step_run \<Rightarrow> obj" where "sr_Input sr \<equiv> sf_Input (sr_fields sr)"
abbreviation sr_Error :: "step_run \<Rightarrow> obj" where "sr_Error sr \<equiv> sf_Error (sr_fields sr)"
abbreviation sr_NextAttemptAt :: "step_run \<Rightarrow> int option" where "sr_NextAttemptAt sr \<equiv> sf_NextAttemptAt (sr_fields sr)"

record workflow_run =
  run_ID :: string
  run_WorkflowID :: string
  run_OrgID :: string
  run_TeamID :: string
  run_Input :: obj
  run_Context :: "obj option"
  run_Status :: run_status
  run_StartedAt :: "int option"
  run_CompletedAt :: "int option"
  run_Output :: obj
  run_Error :: obj
  run_Steps :: "step_run gomap"
  run_TriggeredBy :: string
  run_CreatedAt :: "int option"
  run_Labels :: "string gomap"
  run_Metadata :: "string gomap"
  run_RerunOf :: string
  run_RerunStep :: string
  run_DryRun :: bool

definition put_step :: "string \<Rightarrow> step_run \<Rightarrow> workflow_run \<Rightarrow> workflow_run" where
  "put_step i sr run = run\<lparr>run_Steps := mput i sr (run_Steps run)\<rparr>"

definition step_def :: "workflow \<Rightarrow> string \<Rightarrow> step option" where
  "step_def wfDef i = (case map_of (wf_Steps wfDef) i of Some (Some s) \<Rightarrow> Some s | _ \<Rightarrow> None)"

definition isTerminalStepStatus :: "step_status \<Rightarrow> bool" where
  "isTerminalStepStatus s \<longleftrightarrow> s = StepStatusSucceeded \<or> s = StepStatusFailed \<or> s = StepStatusDenied \<or> s = StepStatusCancelled \<or> s = StepStatusTimedOut"

definition isTerminalRunStatus :: "run_status \<Rightarrow> bool" where
  "isTerminalRunStatus s \<longleftrightarrow> s = RunStatusSucceeded \<or> s = RunStatusFailed \<or> s = RunStatusDenied \<or> s = RunStatusCancelled \<or> s = RunStatusTimedOut"

section \<open>The graph\<close>

definition dependsOn :: "workflow \<Rightarrow> string \<Rightarrow> string list" where
  "dependsOn wfDef i = (case step_def wfDef i of None \<Rightarrow> [] | Some s \<Rightarrow> st_DependsOn s)"

text \<open>The recursion of the code as a depth-first walk with a stack; a step is entered once.\<close>

function collectDeps :: "workflow \<Rightarrow> string list \<Rightarrow> string list \<Rightarrow> string list" where
  "collectDeps wfDef deps [] = deps"
| "collectDeps wfDef deps (d # ds) =
     (if d = [] \<or> d \<in> set deps then collectDeps wfDef deps ds
      else collectDeps wfDef (deps @ [d]) (dependsOn wfDef d @ ds))"
  by pat_completeness auto

definition collectDependencies :: "workflow \<Rightarrow> string \<Rightarrow> string list" where
  "collectDependencies wfDef i = (if i = [] then [] else collectDeps wfDef [] (dependsOn wfDef i))"

definition depSatisfied :: "workflow_run \<Rightarrow> workflow \<Rightarrow> string \<Rightarrow> bool" where
  "depSatisfied run wfDef dep =
     (case map_of (run_Steps run) dep of
        None \<Rightarrow> False
      | Some sr \<Rightarrow>
          if sr_Status sr = StepStatusNone then False
          else if sr_Status sr = StepStatusSucceeded then True
          else if sr_Status sr = StepStatusFailed \<or> sr_Status sr = StepStatusDenied \<or> sr_Status sr = StepStatusTimedOut
          then (case step_def wfDef dep of
                  None \<Rightarrow> False
                | Some d \<Rightarrow> st_OnError d \<noteq> [] \<and>
                    (case map_of (run_Steps run) (st_OnError d) of None \<Rightarrow> False | Some h \<Rightarrow> sr_Status h = StepStatusSucceeded))
          else False)"

definition errorActivated :: "workflow_run \<Rightarrow> step \<Rightarrow> bool" where
  "errorActivated run s =
     (case map_of (run_Steps run) (st_ID s) of
        None \<Rightarrow> False
      | Some sr \<Rightarrow> sr_Status sr = StepStatusPending \<and> map_of (sr_Input sr) ''error'' \<noteq> None)"

definition depsSatisfied :: "step \<Rightarrow> workflow_run \<Rightarrow> workflow \<Rightarrow> bool" where
  "depsSatisfied s run wfDef \<longleftrightarrow> st_DependsOn s = [] \<or> errorActivated run s \<or> list_all (depSatisfied run wfDef) (st_DependsOn s)"

definition isOnErrorTarget :: "workflow \<Rightarrow> string \<Rightarrow> bool" where
  "isOnErrorTarget wfDef i \<longleftrightarrow> (\<exists>(_, s) \<in> set (wf_Steps wfDef). case s of None \<Rightarrow> False | Some s \<Rightarrow> st_OnError s = i)"

lemma card_unvisited:
  "x \<in> keys m \<Longrightarrow> x \<notin> set vs \<Longrightarrow> card (keys m - set (vs @ [x])) < card (keys m - set vs)"
  by (rule psubset_card_mono) (auto simp: keys_def)

lemma step_def_keys: "step_def wfDef i = Some s \<Longrightarrow> i \<in> keys (wf_Steps wfDef)"
  unfolding step_def_def keys_def by (auto split: option.splits dest!: map_of_SomeD intro: rev_image_eqI)

lemma dependsOn_keys: "dependsOn wfDef d \<noteq> [] \<Longrightarrow> d \<in> keys (wf_Steps wfDef)"
  by (auto simp: dependsOn_def intro: step_def_keys split: option.splits)

termination collectDeps
proof (relation "measures [\<lambda>(wfDef, deps, ds). card (keys (wf_Steps wfDef) - set deps), \<lambda>(wfDef, deps, ds). length ds]")
  fix wfDef :: workflow and deps :: "string list" and d ds
  assume new: "\<not> (d = [] \<or> d \<in> set deps)"
  show "((wfDef, deps @ [d], dependsOn wfDef d @ ds), wfDef, deps, d # ds)
    \<in> measures [\<lambda>(wfDef, deps, ds). card (keys (wf_Steps wfDef) - set deps), \<lambda>(wfDef, deps, ds). length ds]"
  proof (cases "d \<in> keys (wf_Steps wfDef)")
    case True
    then show ?thesis using card_unvisited [of d "wf_Steps wfDef" deps] new by simp
  next
    case False
    then have "dependsOn wfDef d = []" "keys (wf_Steps wfDef) - insert d (set deps) = keys (wf_Steps wfDef) - set deps"
      using dependsOn_keys by blast+
    then show ?thesis by simp
  qed
qed simp_all

section \<open>Context paths\<close>

fun getParts :: "wf_value \<Rightarrow> string list \<Rightarrow> wf_value option" where
  "getParts v [] = Some v"
| "getParts v (p # ps) =
     (let part = TrimSpace p in
      if part = [] then None
      else case v of
          VMap m \<Rightarrow> (case map_of m part of None \<Rightarrow> None | Some v' \<Rightarrow> getParts v' ps)
        | _ \<Rightarrow> None)"

definition getContextPath :: "obj \<Rightarrow> string \<Rightarrow> wf_value option" where
  "getContextPath ctx path =
     (if TrimSpace path = [] then None else getParts (VMap ctx) (Split (TrimSpace path) (CHR ''.'')))"

definition extractDataPath :: "wf_value \<Rightarrow> string \<Rightarrow> wf_value option" where
  "extractDataPath v path = (if TrimSpace path = [] then Some v else getParts v (Split (TrimSpace path) (CHR ''.'')))"

text \<open>
  The walk of a write goes down as far as it can and makes maps where there are none; a blank part
  stops it with an error, and what it made so far stays.
\<close>

fun setParts :: "obj \<Rightarrow> string list \<Rightarrow> wf_value \<Rightarrow> obj \<times> bool" where
  "setParts m [] v = (m, True)"
| "setParts m [p] v = (if TrimSpace p = [] then (m, False) else (mput (TrimSpace p) v m, True))"
| "setParts m (p # q # ps) v =
     (let part = TrimSpace p in
      if part = [] then (m, False)
      else let next' = (case map_of m part of Some (VMap n) \<Rightarrow> n | _ \<Rightarrow> []);
               (n, ok) = setParts next' (q # ps) v
           in (mput part (VMap n) m, ok))"

definition setContextPath :: "obj \<Rightarrow> string \<Rightarrow> wf_value \<Rightarrow> obj \<times> bool" where
  "setContextPath ctx path v =
     (if TrimSpace path = [] then (ctx, True) else setParts ctx (Split (TrimSpace path) (CHR ''.'')) v)"

fun deleteParts :: "obj \<Rightarrow> string list \<Rightarrow> obj" where
  "deleteParts m [] = m"
| "deleteParts m [p] = (if TrimSpace p = [] then m else mdel (TrimSpace p) m)"
| "deleteParts m (p # q # ps) =
     (let part = TrimSpace p in
      if part = [] then m
      else case map_of m part of
          Some (VMap n) \<Rightarrow> mput part (VMap (deleteParts n (q # ps))) m
        | _ \<Rightarrow> m)"

definition deleteContextPath :: "obj \<Rightarrow> string \<Rightarrow> obj" where
  "deleteContextPath ctx path = (if TrimSpace path = [] then ctx else deleteParts ctx (Split (TrimSpace path) (CHR ''.'')))"

text \<open>The entries of the steps in the context.\<close>

definition runContext :: "workflow_run \<Rightarrow> obj" where
  "runContext run = (case run_Context run of None \<Rightarrow> [] | Some ctx \<Rightarrow> ctx)"

definition runSteps :: "workflow_run \<Rightarrow> obj" where
  "runSteps run = (case map_of (runContext run) ''steps'' of Some (VMap m) \<Rightarrow> m | _ \<Rightarrow> [])"

text \<open>
  An entry is put into the map of the steps that was read before the output path was written. When
  the output path is \<open>steps\<close> itself, that map is no longer part of the context.
\<close>

definition putStepEntry :: "string \<Rightarrow> wf_value \<Rightarrow> bool \<Rightarrow> obj \<Rightarrow> obj" where
  "putStepEntry i entry replaced ctx =
     (if replaced then ctx
      else mput ''steps'' (VMap (mput i entry (case map_of ctx ''steps'' of Some (VMap m) \<Rightarrow> m | _ \<Rightarrow> []))) ctx)"

definition ensureSteps :: "obj \<Rightarrow> obj" where
  "ensureSteps ctx = (case map_of ctx ''steps'' of Some (VMap m) \<Rightarrow> ctx | _ \<Rightarrow> mput ''steps'' (VMap []) ctx)"

definition replacesSteps :: "string \<Rightarrow> bool" where
  "replacesSteps path \<longleftrightarrow> map TrimSpace (Split (TrimSpace path) (CHR ''.'')) = [''steps'']"

definition recordStepInlineOutput :: "string \<Rightarrow> step \<Rightarrow> wf_value \<Rightarrow> workflow_run \<Rightarrow> workflow_run" where
  "recordStepInlineOutput i s output run =
     (if i = [] then run
      else let ctx = ensureSteps (runContext run);
               ctx1 = (if TrimSpace (st_OutputPath s) = [] then ctx else fst (setContextPath ctx (TrimSpace (st_OutputPath s)) output))
           in run\<lparr>run_Context := Some (putStepEntry i (VMap [(''output'', output)]) (replacesSteps (st_OutputPath s)) ctx1)\<rparr>)"

definition cloneContextForDeps :: "obj \<Rightarrow> string list \<Rightarrow> obj" where
  "cloneContextForDeps ctx deps =
     (case map_of ctx ''steps'' of
        Some (VMap m) \<Rightarrow> mput ''steps'' (VMap (filter (\<lambda>(k, _). k \<in> set deps) m)) ctx
      | _ \<Rightarrow> ctx)"

section \<open>Job ids\<close>

fun lastIndexByte :: "string \<Rightarrow> char \<Rightarrow> nat option" where
  "lastIndexByte [] c = None"
| "lastIndexByte (x # xs) c = (case lastIndexByte xs c of Some n \<Rightarrow> Some (Suc n) | None \<Rightarrow> if x = c then Some 0 else None)"

definition jobIDFor :: "string \<Rightarrow> string \<Rightarrow> int \<Rightarrow> string" where
  "jobIDFor runID i attempt = runID @ '':'' @ i @ ''@'' @ Itoa attempt"

definition splitJobID :: "string \<Rightarrow> string \<times> string" where
  "splitJobID jobID =
     (case IndexByte jobID (CHR '':'') of
        None \<Rightarrow> ([], [])
      | Some n \<Rightarrow>
          let stepID = drop (Suc n) jobID
          in (take n jobID, case lastIndexByte stepID (CHR ''@'') of Some a \<Rightarrow> if a > 0 then take a stepID else stepID | None \<Rightarrow> stepID))"

definition parseAttempt :: "string \<Rightarrow> int" where
  "parseAttempt jobID =
     (case lastIndexByte jobID (CHR ''@'') of
        None \<Rightarrow> 0
      | Some a \<Rightarrow>
          if a + 1 = length jobID then 0
          else case Atoi (TrimSpace (drop (Suc a) jobID)) of None \<Rightarrow> 0 | Some n \<Rightarrow> if n \<le> 0 then 0 else n)"

definition splitForEachStep :: "string \<Rightarrow> string \<times> string" where
  "splitForEachStep i = (case IndexByte i (CHR ''['') of None \<Rightarrow> (i, []) | Some n \<Rightarrow> (take n i, i))"

definition childID :: "string \<Rightarrow> nat \<Rightarrow> string" where
  "childID i n = i @ ''['' @ Itoa (int n) @ '']''"

section \<open>Expressions and templates\<close>

text \<open>
  What the engine is built with: the expression library, the text of a float, schema validation,
  timestamps and float arithmetic, the sandbox limits, which stores are attached, the texts of library
  errors, fresh ids, and how the calls to the store and the bus turn out, by their number: a call is
  delivered, refused, or delivered with the reply lost, which the engine takes for an error.
\<close>

datatype outcome = Delivered | Refused | Lost

record engine =
  exprRun :: "string \<Rightarrow> obj \<Rightarrow> wf_value option"
  formatFloat :: "float64 \<Rightarrow> string"
  validateMap :: "obj \<Rightarrow> wf_value \<Rightarrow> bool"
  validateID :: "string \<Rightarrow> wf_value \<Rightarrow> bool"
  parseRFC3339 :: "string \<Rightarrow> int option"
  formatRFC3339Nano :: "int \<Rightarrow> string"
  backoffSeconds :: "int \<Rightarrow> float64 \<Rightarrow> int \<Rightarrow> float64"
  floatToInt :: "float64 \<Rightarrow> int"
  MaxExprLength :: nat
  MaxResultItems :: nat
  maxForEachItems :: int
  callOutcome :: "nat \<Rightarrow> outcome"
  newUUID :: "nat \<Rightarrow> string"
  errText :: "string \<Rightarrow> string"
  hasMem :: bool
  hasBus :: bool
  stepsLimit :: int
  approvalModeOk :: "string \<Rightarrow> bool"
  activeRunsOk :: "int \<Rightarrow> bool"

fun Sprint :: "engine \<Rightarrow> wf_value \<Rightarrow> string"
  and sprintItems :: "engine \<Rightarrow> wf_value list \<Rightarrow> string list"
  and sprintEntries :: "engine \<Rightarrow> (string \<times> wf_value) list \<Rightarrow> (string \<times> string) list" where
  "Sprint E VNil = ''<nil>''"
| "Sprint E (VBool b) = (if b then ''true'' else ''false'')"
| "Sprint E (VInt n) = Itoa n"
| "Sprint E (VFloat f) = formatFloat E f"
| "Sprint E (VString s) = s"
| "Sprint E (VList vs) = ''['' @ Join (sprintItems E vs) '' '' @ '']''"
| "Sprint E (VMap m) = ''map['' @ Join (map (\<lambda>(k, v). k @ '':'' @ v) (sort_key fst (sprintEntries E m))) '' '' @ '']''"
| "sprintItems E [] = []"
| "sprintItems E (v # vs) = Sprint E v # sprintItems E vs"
| "sprintEntries E [] = []"
| "sprintEntries E ((k, v) # m) = (k, Sprint E v) # sprintEntries E m"

definition blockedPatterns :: "string list" where
  "blockedPatterns = [''import'', ''require'', ''reflect'', ''unsafe'', ''runtime'', ''os.exit'', ''exec'', ''__proto__'',
     ''constructor'', ''prototype'']"

definition Eval :: "engine \<Rightarrow> string \<Rightarrow> obj \<Rightarrow> wf_value option" where
  "Eval E expr0 scope =
     (let expr = TrimSpace expr0 in
      if expr = [] then None
      else if length expr > MaxExprLength E then None
      else if list_ex (Contains (ToLower expr)) blockedPatterns then None
      else exprRun E expr scope)"

fun truthy :: "wf_value \<Rightarrow> bool" where
  "truthy VNil = False"
| "truthy (VBool b) = b"
| "truthy (VString s) = (s \<noteq> [])"
| "truthy (VFloat f) = (\<not> f64_eq f 0)"
| "truthy (VInt n) = (n \<noteq> 0)"
| "truthy _ = True"

definition evalCondition :: "engine \<Rightarrow> string \<Rightarrow> obj \<Rightarrow> bool option" where
  "evalCondition E expr scope = map_option truthy (Eval E expr scope)"

definition buildEvalScope :: "workflow_run \<Rightarrow> wf_value \<Rightarrow> obj" where
  "buildEvalScope run item =
     [(''input'', VMap (run_Input run)), (''ctx'', VMap (runContext run)), (''steps'', VMap (runSteps run))] @
     (if item = VNil then [] else [(''item'', item)])"

text \<open>The text of a template with its expressions replaced; a lone expression keeps its value.\<close>

lemma Index_less: "Index s t = Some n \<Longrightarrow> t \<noteq> [] \<Longrightarrow> n < length s"
  by (induction s arbitrary: n) (auto split: if_splits)

function templateLoop :: "engine \<Rightarrow> obj \<Rightarrow> string \<Rightarrow> string \<Rightarrow> string option" where
  "templateLoop E scope acc rest =
     (case Index rest ''${'' of
        None \<Rightarrow> Some (acc @ rest)
      | Some start \<Rightarrow>
          let body = drop (start + 2) rest in
          (case Index body ''}'' of
             None \<Rightarrow> None
           | Some end' \<Rightarrow>
               (case Eval E (TrimSpace (take end' body)) scope of
                  None \<Rightarrow> None
                | Some v \<Rightarrow> templateLoop E scope (acc @ take start rest @ (if v = VNil then [] else Sprint E v)) (drop (end' + 1) body))))"
  by pat_completeness auto

termination templateLoop
  by (relation "measure (\<lambda>(E, scope, acc, rest). length rest)") (auto dest!: Index_less)

definition evalTemplateString :: "engine \<Rightarrow> string \<Rightarrow> obj \<Rightarrow> wf_value option" where
  "evalTemplateString E s scope =
     (if \<not> Contains s ''${'' then Some (VString s)
      else let t = TrimSpace s in
        if HasPrefix t ''${'' \<and> HasSuffix t ''}'' \<and> Count t ''${'' = 1 \<and> Count t ''}'' = 1
        then Eval E (TrimSpace (TrimSuffix (TrimPrefix t ''${'') ''}'')) scope
        else map_option VString (templateLoop E scope [] s))"

fun evalTemplates :: "engine \<Rightarrow> obj \<Rightarrow> wf_value \<Rightarrow> wf_value option"
  and evalItems :: "engine \<Rightarrow> obj \<Rightarrow> wf_value list \<Rightarrow> wf_value list option"
  and evalEntries :: "engine \<Rightarrow> obj \<Rightarrow> (string \<times> wf_value) list \<Rightarrow> (string \<times> wf_value) list option" where
  "evalTemplates E scope (VString s) = evalTemplateString E s scope"
| "evalTemplates E scope (VMap m) = map_option VMap (evalEntries E scope m)"
| "evalTemplates E scope (VList vs) = map_option VList (evalItems E scope vs)"
| "evalTemplates E scope VNil = Some VNil"
| "evalTemplates E scope (VBool b) = Some (VBool b)"
| "evalTemplates E scope (VInt n) = Some (VInt n)"
| "evalTemplates E scope (VFloat f) = Some (VFloat f)"
| "evalItems E scope [] = Some []"
| "evalItems E scope (v # vs) =
     (case evalTemplates E scope v of
        None \<Rightarrow> None
      | Some v' \<Rightarrow> (case evalItems E scope vs of None \<Rightarrow> None | Some vs' \<Rightarrow> Some (v' # vs')))"
| "evalEntries E scope [] = Some []"
| "evalEntries E scope ((k, v) # m) =
     (case evalTemplates E scope v of
        None \<Rightarrow> None
      | Some v' \<Rightarrow>
          (case evalEntries E scope m of
             None \<Rightarrow> None
           | Some m' \<Rightarrow> Some (if v' = VNil \<and> v \<noteq> VNil then m' else (k, v') # m')))"

definition evalForEach :: "engine \<Rightarrow> string \<Rightarrow> obj \<Rightarrow> wf_value list option" where
  "evalForEach E expr scope =
     (case Eval E expr scope of
        None \<Rightarrow> None
      | Some (VList vs) \<Rightarrow> Some (take (MaxResultItems E) vs)
      | Some VNil \<Rightarrow> Some []
      | Some _ \<Rightarrow> None)"

definition validateStepInput :: "engine \<Rightarrow> step \<Rightarrow> obj \<Rightarrow> bool" where
  "validateStepInput E s payload =
     (if st_InputSchema s \<noteq> [] then validateMap E (st_InputSchema s) (VMap payload)
      else if TrimSpace (st_InputSchemaID s) \<noteq> [] then validateID E (TrimSpace (st_InputSchemaID s)) (VMap payload)
      else True)"

definition validateInlineOutput :: "engine \<Rightarrow> step \<Rightarrow> wf_value \<Rightarrow> bool" where
  "validateInlineOutput E s v =
     (if st_OutputSchema s \<noteq> [] then validateMap E (st_OutputSchema s) v
      else if TrimSpace (st_OutputSchemaID s) \<noteq> [] then validateID E (TrimSpace (st_OutputSchemaID s)) v
      else True)"

section \<open>Payloads\<close>

definition requiredFromInlineSchema :: "obj \<Rightarrow> string list" where
  "requiredFromInlineSchema schema =
     (case map_of schema ''required'' of Some (VList vs) \<Rightarrow> List.map_filter as_string vs | _ \<Rightarrow> [])"

definition stepInput :: "step \<Rightarrow> obj" where
  "stepInput s = (case st_Input s of None \<Rightarrow> [] | Some m \<Rightarrow> m)"

definition evaluateStructuredStepInput :: "engine \<Rightarrow> step \<Rightarrow> obj \<Rightarrow> obj option" where
  "evaluateStructuredStepInput E s scope =
     (if stepInput s = [] then Some []
      else case evalEntries E scope (stepInput s) of
          None \<Rightarrow> None
        | Some base \<Rightarrow>
            if list_ex (\<lambda>(k, raw). map_of base k = None \<and>
                 (case raw of VString t \<Rightarrow> Contains t ''${'' | _ \<Rightarrow> False) \<and> k \<in> set (requiredFromInlineSchema (st_InputSchema s))) (stepInput s)
            then None else Some base)"

definition buildJobPayload :: "engine \<Rightarrow> workflow_run \<Rightarrow> step \<Rightarrow> wf_value \<Rightarrow> obj option" where
  "buildJobPayload E run s item =
     (case (if stepInput s \<noteq> [] then evaluateStructuredStepInput E s (buildEvalScope run item) else Some (run_Input run)) of
        None \<Rightarrow> None
      | Some base \<Rightarrow>
          let out = (if item \<noteq> VNil \<and> map_of base ''item'' = None then mput ''item'' item base else base)
          in if validateStepInput E s out then Some out else None)"

definition approvalContext :: "engine \<Rightarrow> workflow \<Rightarrow> workflow_run \<Rightarrow> step \<Rightarrow> string \<Rightarrow> int \<Rightarrow> obj" where
  "approvalContext E wfDef run s i now =
     (let opt = (\<lambda>k v. if v = [] then [] else [(k, VString v)]);
          stepName = (if TrimSpace (st_Name s) = [] then i else TrimSpace (st_Name s))
      in [(''workflow_id'', VString (wf_ID wfDef)), (''run_id'', VString (run_ID run)), (''step_id'', VString i)] @
         opt ''workflow_name'' (wf_Name wfDef) @ opt ''step_name'' stepName @ opt ''requested_at'' (formatRFC3339Nano E now) @
         opt ''triggered_by'' (TrimSpace (run_TriggeredBy run)) @ opt ''tenant_id'' (TrimSpace (run_OrgID run)) @
         opt ''team_id'' (TrimSpace (run_TeamID run)))"

definition buildApprovalPayload :: "engine \<Rightarrow> workflow \<Rightarrow> workflow_run \<Rightarrow> step \<Rightarrow> string \<Rightarrow> int \<Rightarrow> obj option" where
  "buildApprovalPayload E wfDef run s i now =
     (case evaluateStructuredStepInput E s (buildEvalScope run VNil) of
        None \<Rightarrow> None
      | Some decision \<Rightarrow>
          if \<not> validateStepInput E s decision then None
          else Some ([(''kind'', VString ''workflow_approval_context''), (''version'', VInt 1), (''workflow'', VMap (approvalContext E wfDef run s i now))] @
                     (if decision = [] then [] else [(''decision'', VMap decision)])))"

definition buildLoopPayload :: "engine \<Rightarrow> workflow_run \<Rightarrow> step \<Rightarrow> obj \<Rightarrow> obj option" where
  "buildLoopPayload E run s scope =
     (case (if stepInput s \<noteq> [] then evalEntries E scope (stepInput s) else Some (run_Input run)) of
        None \<Rightarrow> None
      | Some base \<Rightarrow>
          let out = (case map_of scope ''loop'' of
                       Some l \<Rightarrow> if map_of base ''loop'' = None then mput ''loop'' l base else base
                     | None \<Rightarrow> base)
          in if validateStepInput E s out then Some out else None)"

section \<open>Configuration of the control steps\<close>

definition defaultLoopMaxIter :: int where "defaultLoopMaxIter = 100"

text \<open>Floats beyond the range of an integer convert to its least value, as on amd64.\<close>

definition parsePositiveInt :: "wf_value \<Rightarrow> int option" where
  "parsePositiveInt v =
     (case v of
        VInt n \<Rightarrow> if n > 0 then Some n else None
      | VFloat f \<Rightarrow> (case f64_pos_int f of None \<Rightarrow> None | Some n \<Rightarrow> Some (if int n < 2 ^ 63 then int n else - (2 ^ 63)))
      | VString s \<Rightarrow> (case Atoi (TrimSpace s) of None \<Rightarrow> None | Some n \<Rightarrow> if n > 0 then Some n else None)
      | _ \<Rightarrow> None)"

fun loopInputString :: "obj \<Rightarrow> string list \<Rightarrow> string option" where
  "loopInputString input [] = Some []"
| "loopInputString input (k # ks) =
     (case map_of input k of
        None \<Rightarrow> loopInputString input ks
      | Some VNil \<Rightarrow> Some []
      | Some (VString s) \<Rightarrow> Some (TrimSpace s)
      | Some _ \<Rightarrow> None)"

definition loopMaxIterations :: "obj \<Rightarrow> int option" where
  "loopMaxIterations input =
     (case map_of input ''max_iterations'' of
        Some v \<Rightarrow> parsePositiveInt v
      | None \<Rightarrow> (case map_of input ''maxIterations'' of Some v \<Rightarrow> parsePositiveInt v | None \<Rightarrow> Some defaultLoopMaxIter))"

record loop_config =
  lc_max :: int
  lc_condition :: string
  lc_until :: string
  lc_body :: string

definition resolveLoopConfig :: "step \<Rightarrow> loop_config option" where
  "resolveLoopConfig s =
     (case st_Input s of
        None \<Rightarrow> Some \<lparr>lc_max = defaultLoopMaxIter, lc_condition = [], lc_until = [], lc_body = []\<rparr>
      | Some input \<Rightarrow>
          (case (loopMaxIterations input, loopInputString input [''condition'', ''while''], loopInputString input [''until''],
                 loopInputString input [''body_step'', ''body'']) of
             (Some n, Some c, Some u, Some b) \<Rightarrow> Some \<lparr>lc_max = n, lc_condition = c, lc_until = u, lc_body = b\<rparr>
           | _ \<Rightarrow> None))"

definition loopScope :: "nat \<Rightarrow> wf_value \<Rightarrow> wf_value" where
  "loopScope index previous =
     VMap [(''index'', VInt (int index)), (''iteration'', VInt (int index + 1)), (''previous_output'', previous)]"

definition buildLoopEvalScope :: "workflow_run \<Rightarrow> nat \<Rightarrow> wf_value \<Rightarrow> obj" where
  "buildLoopEvalScope run index previous = mput ''loop'' (loopScope index previous) (buildEvalScope run VNil)"

definition loopPreviousOutput :: "workflow_run \<Rightarrow> string \<Rightarrow> wf_value" where
  "loopPreviousOutput run i =
     (let fromRun = (case map_of (run_Steps run) i of None \<Rightarrow> VNil | Some sr \<Rightarrow> sf_Output (sr_fields sr)) in
      if i = [] then VNil
      else case map_of (runSteps run) i of
          Some (VMap entry) \<Rightarrow>
            (case map_of entry ''output'' of
               Some v \<Rightarrow> v
             | None \<Rightarrow> (case map_of entry ''result_ptr'' of Some p \<Rightarrow> p | None \<Rightarrow> fromRun))
        | _ \<Rightarrow> fromRun)"

fun addIDs :: "string list \<Rightarrow> string list \<Rightarrow> string list" where
  "addIDs out [] = out"
| "addIDs out (raw # rest) =
     (let i = TrimSpace raw in addIDs (if i = [] \<or> i \<in> set out then out else out @ [i]) rest)"

fun allStrings :: "wf_value list \<Rightarrow> string list option" where
  "allStrings [] = Some []"
| "allStrings (VString s # vs) = map_option ((#) s) (allStrings vs)"
| "allStrings (_ # vs) = None"

definition parseParallelStepIDs :: "wf_value \<Rightarrow> string list option" where
  "parseParallelStepIDs v =
     (case v of
        VList vs \<Rightarrow> map_option (addIDs []) (allStrings vs)
      | VString s \<Rightarrow> if TrimSpace s = [] then Some [] else Some (addIDs [] (Split (TrimSpace s) (CHR '','')))
      | _ \<Rightarrow> None)"

datatype strategy = StrategyAll | StrategyAny | StrategyNOfM

definition normalizeParallelStrategy :: "engine \<Rightarrow> wf_value \<Rightarrow> strategy option" where
  "normalizeParallelStrategy E v =
     (let raw = ToLower (TrimSpace (Sprint E v)) in
      if raw = [] \<or> raw = ''all'' then Some StrategyAll
      else if raw = ''any'' then Some StrategyAny
      else if raw = ''n_of_m'' \<or> raw = ''n-of-m'' \<or> raw = ''nofm'' then Some StrategyNOfM
      else None)"

definition resolveParallelConfig :: "engine \<Rightarrow> step \<Rightarrow> obj \<Rightarrow> (string list \<times> strategy \<times> int) option" where
  "resolveParallelConfig E s scope =
     (case Option.bind (st_Input s) (\<lambda>input. Option.bind (map_of input ''steps'') (evalTemplates E scope)) of
        None \<Rightarrow> None
      | Some children \<Rightarrow>
          (case parseParallelStepIDs children of
             None \<Rightarrow> None
           | Some [] \<Rightarrow> Some ([], StrategyAll, 0)
           | Some ids \<Rightarrow>
               (case (case map_of (stepInput s) ''strategy'' of
                        None \<Rightarrow> Some StrategyAll
                      | Some raw \<Rightarrow> Option.bind (evalTemplates E scope raw) (normalizeParallelStrategy E)) of
                  None \<Rightarrow> None
                | Some strat \<Rightarrow>
                    (case (case strat of
                             StrategyAll \<Rightarrow> Some (int (length ids))
                           | StrategyAny \<Rightarrow> Some 1
                           | StrategyNOfM \<Rightarrow>
                               Option.bind (map_of (stepInput s) ''required'') (\<lambda>raw. Option.bind (evalTemplates E scope raw) parsePositiveInt)) of
                       None \<Rightarrow> None
                     | Some required \<Rightarrow>
                         if required \<le> 0 \<or> required > int (length ids) then None else Some (ids, strat, required)))))"

record switch_case =
  sc_MatchValue :: wf_value
  sc_StepID :: string

fun firstSwitchValue :: "obj \<Rightarrow> string list \<Rightarrow> (wf_value \<times> string) option" where
  "firstSwitchValue values [] = None"
| "firstSwitchValue values (k # ks) = (case map_of values k of Some v \<Rightarrow> Some (v, k) | None \<Rightarrow> firstSwitchValue values ks)"

definition parseSwitchCaseEntry :: "engine \<Rightarrow> wf_value \<Rightarrow> switch_case option" where
  "parseSwitchCaseEntry E v =
     (case v of
        VMap raw \<Rightarrow>
          (case (firstSwitchValue raw [''when'', ''match'', ''value''], firstSwitchValue raw [''next'', ''step'', ''target'']) of
             (Some (m, mk), Some (target, _)) \<Rightarrow>
               let i = TrimSpace (Sprint E target) in
               if i = [] then None
               else Some \<lparr>sc_MatchValue = (if mk = ''when'' then VString (TrimSpace (Sprint E m)) else m), sc_StepID = i\<rparr>
           | _ \<Rightarrow> None)
      | _ \<Rightarrow> None)"

fun switchEntries :: "engine \<Rightarrow> wf_value list \<Rightarrow> switch_case list option" where
  "switchEntries E [] = Some []"
| "switchEntries E (v # vs) =
     (case parseSwitchCaseEntry E v of None \<Rightarrow> None | Some c \<Rightarrow> map_option ((#) c) (switchEntries E vs))"

fun switchMapEntries :: "engine \<Rightarrow> (string \<times> wf_value) list \<Rightarrow> switch_case list option" where
  "switchMapEntries E [] = Some []"
| "switchMapEntries E ((k, target) # m) =
     (let i = TrimSpace (Sprint E target) in
      if i = [] then None else map_option ((#) \<lparr>sc_MatchValue = VString k, sc_StepID = i\<rparr>) (switchMapEntries E m))"

definition parseSwitchCases :: "engine \<Rightarrow> step \<Rightarrow> obj \<Rightarrow> switch_case list option" where
  "parseSwitchCases E s scope =
     (case Option.bind (st_Input s) (\<lambda>input. Option.bind (map_of input ''cases'') (evalTemplates E scope)) of
        None \<Rightarrow> None
      | Some (VList vs) \<Rightarrow> switchEntries E vs
      | Some (VMap m) \<Rightarrow> switchMapEntries E m
      | Some VNil \<Rightarrow> Some []
      | Some _ \<Rightarrow> None)"

definition parseSwitchDefault :: "engine \<Rightarrow> step \<Rightarrow> obj \<Rightarrow> string option" where
  "parseSwitchDefault E s scope =
     (case firstSwitchValue (stepInput s) [''default'', ''default_step''] of
        None \<Rightarrow> Some []
      | Some (raw, _) \<Rightarrow>
          (case evalTemplates E scope raw of
             None \<Rightarrow> None
           | Some VNil \<Rightarrow> Some []
           | Some v \<Rightarrow> Some (TrimSpace (Sprint E v))))"

definition switchComparableNumber :: "wf_value \<Rightarrow> float64 option" where
  "switchComparableNumber v =
     (case v of VInt n \<Rightarrow> Some (f64_of_int n) | VFloat f \<Rightarrow> Some f | VString s \<Rightarrow> ParseFloat (TrimSpace s) | _ \<Rightarrow> None)"

definition switchValueEquals :: "engine \<Rightarrow> wf_value \<Rightarrow> wf_value \<Rightarrow> bool" where
  "switchValueEquals E actual expected =
     (if actual = VNil \<or> expected = VNil then actual = expected
      else case (switchComparableNumber actual, switchComparableNumber expected) of
          (Some a, Some b) \<Rightarrow> f64_eq a b
        | _ \<Rightarrow>
            (case (actual, expected) of
               (VString a, VString b) \<Rightarrow> TrimSpace a = TrimSpace b
             | (VBool a, VBool b) \<Rightarrow> a = b
             | _ \<Rightarrow> Sprint E actual = Sprint E expected))"

definition switchBranchNotTakenReason :: string where "switchBranchNotTakenReason = ''switch_branch_not_taken''"

definition isSwitchBranchNotTaken :: "step_run \<Rightarrow> bool" where
  "isSwitchBranchNotTaken sr \<longleftrightarrow>
     sr_Status sr = StepStatusCancelled \<and>
     (case map_of (sr_Error sr) ''reason'' of Some (VString r) \<Rightarrow> TrimSpace r = switchBranchNotTakenReason | _ \<Rightarrow> False)"

section \<open>Sub-workflows\<close>

record sub_config =
  sub_workflowID :: string
  sub_input :: wf_value
  sub_output :: wf_value

definition resolveSubWorkflowConfig :: "engine \<Rightarrow> step \<Rightarrow> obj \<Rightarrow> sub_config option" where
  "resolveSubWorkflowConfig E s scope =
     (case st_Input s of
        None \<Rightarrow> None
      | Some input \<Rightarrow>
          (case Option.bind (map_of input ''workflow_id'') (evalTemplates E scope) of
             None \<Rightarrow> None
           | Some v \<Rightarrow>
               let i = TrimSpace (Sprint E v) in
               if i = [] then None
               else case (case map_of input ''input_mapping'' of None \<Rightarrow> Some VNil | Some raw \<Rightarrow> evalTemplates E scope raw) of
                   None \<Rightarrow> None
                 | Some im \<Rightarrow> Some \<lparr>sub_workflowID = i, sub_input = im,
                     sub_output = (case map_of input ''output_mapping'' of None \<Rightarrow> VNil | Some raw \<Rightarrow> raw)\<rparr>))"

definition normalizeSubWorkflowMap :: "wf_value \<Rightarrow> obj option" where
  "normalizeSubWorkflowMap v = (case v of VNil \<Rightarrow> Some [] | VMap m \<Rightarrow> Some m | _ \<Rightarrow> None)"

definition normalizeSubWorkflowInput :: "workflow_run \<Rightarrow> wf_value \<Rightarrow> obj option" where
  "normalizeSubWorkflowInput run im = (if im = VNil then Some (run_Input run) else normalizeSubWorkflowMap im)"

fun runStatusString :: "run_status \<Rightarrow> string" where
  "runStatusString RunStatusPending = ''pending''"
| "runStatusString RunStatusRunning = ''running''"
| "runStatusString RunStatusWaiting = ''waiting''"
| "runStatusString RunStatusSucceeded = ''succeeded''"
| "runStatusString RunStatusFailed = ''failed''"
| "runStatusString RunStatusDenied = ''denied''"
| "runStatusString RunStatusCancelled = ''cancelled''"
| "runStatusString RunStatusTimedOut = ''timed_out''"

definition buildSubWorkflowScope :: "workflow_run \<Rightarrow> workflow_run \<Rightarrow> obj" where
  "buildSubWorkflowScope parent child =
     (let c = VMap [(''id'', VString (run_ID child)), (''workflow_id'', VString (run_WorkflowID child)),
                    (''status'', VString (runStatusString (run_Status child))), (''input'', VMap (run_Input child)),
                    (''output'', VMap (run_Output child)), (''ctx'', VMap (runContext child)), (''steps'', VMap (runSteps child)),
                    (''error'', VMap (run_Error child))]
      in buildEvalScope parent VNil @ [(''child'', c), (''subworkflow'', c)])"

definition putNew :: "string \<Rightarrow> wf_value \<Rightarrow> obj \<Rightarrow> obj" where
  "putNew k v m = (if map_of m k = None then mput k v m else m)"

definition buildSubWorkflowOutput :: "engine \<Rightarrow> workflow_run \<Rightarrow> workflow_run \<Rightarrow> wf_value \<Rightarrow> obj option" where
  "buildSubWorkflowOutput E parent child om =
     (let i = VString (run_ID child); wid = VString (run_WorkflowID child); st = VString (runStatusString (run_Status child)) in
      if om = VNil
      then Some [(''child_run_id'', i), (''child_workflow_id'', wid), (''child_status'', st), (''output'', VMap (run_Output child)),
                 (''steps'', VMap (runSteps child))]
      else case Option.bind (evalTemplates E (buildSubWorkflowScope parent child) om) normalizeSubWorkflowMap of
          None \<Rightarrow> None
        | Some m \<Rightarrow> Some (putNew ''child_status'' st (putNew ''child_workflow_id'' wid (putNew ''child_run_id'' i m))))"

definition parseCallStack :: "string \<Rightarrow> string list" where
  "parseCallStack raw =
     (if TrimSpace raw = [] then []
      else filter (\<lambda>s. s \<noteq> []) (map TrimSpace (Split (map (\<lambda>c. if c = CHR '','' \<or> c = CHR '';'' then CHR ''>'' else c) (TrimSpace raw)) (CHR ''>''))))"

definition encodeCallStack :: "string list \<Rightarrow> string" where
  "encodeCallStack stack = Join (filter (\<lambda>s. s \<noteq> []) (map TrimSpace stack)) ''>''"

definition normalizeCallStackForRun :: "workflow_run \<Rightarrow> string list" where
  "normalizeCallStackForRun run =
     (let stack = parseCallStack (mget (run_Metadata run) ''call_stack''); current = TrimSpace (run_WorkflowID run) in
      if current = [] then stack
      else if stack = [] \<or> last stack \<noteq> current then stack @ [current] else stack)"

definition containsString :: "string list \<Rightarrow> string \<Rightarrow> bool" where
  "containsString values needle \<longleftrightarrow> TrimSpace needle \<noteq> [] \<and> list_ex (\<lambda>v. TrimSpace v = TrimSpace needle) values"

fun subWorkflowTerminalStatus :: "run_status \<Rightarrow> step_status" where
  "subWorkflowTerminalStatus RunStatusCancelled = StepStatusCancelled"
| "subWorkflowTerminalStatus RunStatusTimedOut = StepStatusTimedOut"
| "subWorkflowTerminalStatus RunStatusDenied = StepStatusDenied"
| "subWorkflowTerminalStatus _ = StepStatusFailed"

definition errorMessage :: "obj \<Rightarrow> string" where
  "errorMessage e = (case map_of e ''message'' of Some (VString m) \<Rightarrow> if TrimSpace m = [] then [] else m | _ \<Rightarrow> [])"

fun subWorkflowChildErrorMessage :: "(string \<times> step_run) list \<Rightarrow> string" where
  "subWorkflowChildErrorMessage [] = []"
| "subWorkflowChildErrorMessage ((_, sr) # rest) =
     (if sr_Status sr \<in> {StepStatusFailed, StepStatusDenied, StepStatusTimedOut, StepStatusCancelled} \<and> errorMessage (sr_Error sr) \<noteq> []
      then errorMessage (sr_Error sr) else subWorkflowChildErrorMessage rest)"

section \<open>Steps that a control step owns\<close>

fun addOwners :: "string \<Rightarrow> string list \<Rightarrow> string gomap \<Rightarrow> string gomap" where
  "addOwners parent [] owners = owners"
| "addOwners parent (c # cs) owners =
     addOwners parent cs (if c = [] \<or> c = parent \<or> map_of owners c \<noteq> None then owners else mput c parent owners)"

definition parallelChildren :: "step option \<Rightarrow> string list" where
  "parallelChildren s =
     (case s of
        None \<Rightarrow> []
      | Some d \<Rightarrow>
          if st_Type d \<noteq> StepTypeParallel then []
          else case Option.bind (st_Input d) (\<lambda>input. Option.bind (map_of input ''steps'') parseParallelStepIDs) of
              None \<Rightarrow> []
            | Some ids \<Rightarrow> ids)"

definition collectParallelChildOwners :: "workflow \<Rightarrow> string gomap" where
  "collectParallelChildOwners wfDef = fold (\<lambda>(i, s). addOwners i (parallelChildren s)) (wf_Steps wfDef) []"

definition loopBody :: "step option \<Rightarrow> string list" where
  "loopBody s =
     (case s of
        None \<Rightarrow> []
      | Some d \<Rightarrow>
          if st_Type d \<noteq> StepTypeLoop then []
          else case Option.bind (st_Input d) (\<lambda>input. loopInputString input [''body_step'', ''body'']) of
              None \<Rightarrow> []
            | Some b \<Rightarrow> [b])"

definition collectLoopBodyOwners :: "workflow \<Rightarrow> string gomap" where
  "collectLoopBodyOwners wfDef = fold (\<lambda>(i, s). addOwners i (loopBody s)) (wf_Steps wfDef) []"

text \<open>Owned by another step: skipped by the scheduler and by the status of the run.\<close>

definition managed :: "string gomap \<Rightarrow> string \<Rightarrow> bool" where
  "managed owners i \<longleftrightarrow> (case map_of owners i of None \<Rightarrow> False | Some owner \<Rightarrow> owner \<noteq> i)"

section \<open>Dependencies\<close>

definition dep_edge :: "workflow \<Rightarrow> string \<Rightarrow> string \<Rightarrow> bool" where
  "dep_edge wfDef x y \<longleftrightarrow> y \<in> set (dependsOn wfDef x) \<and> y \<noteq> []"

lemma collectDeps_sound:
  "x \<in> set (collectDeps wfDef deps ds) \<Longrightarrow> x \<in> set deps \<or> (\<exists>d \<in> set ds. d \<noteq> [] \<and> (dep_edge wfDef)\<^sup>*\<^sup>* d x)"
proof (induction wfDef deps ds rule: collectDeps.induct)
  case (2 wfDef deps d ds)
  show ?case
  proof (cases "d = [] \<or> d \<in> set deps")
    case True
    with 2 show ?thesis by auto
  next
    case False
    then have "x \<in> set (collectDeps wfDef (deps @ [d]) (dependsOn wfDef d @ ds))" using "2.prems" by simp
    from "2.IH"(2) [OF False this] consider "x \<in> set deps" | "x = d"
      | e where "e \<in> set (dependsOn wfDef d)" "e \<noteq> []" "(dep_edge wfDef)\<^sup>*\<^sup>* e x"
      | e where "e \<in> set ds" "e \<noteq> []" "(dep_edge wfDef)\<^sup>*\<^sup>* e x" by auto
    then show ?thesis
    proof cases
      case 3
      then have "(dep_edge wfDef)\<^sup>*\<^sup>* d x" by (auto simp: dep_edge_def intro: converse_rtranclp_into_rtranclp)
      with False show ?thesis by auto
    qed (use False in auto)
  qed
qed simp

lemma collectDeps_closed:
  assumes "\<forall>x \<in> set deps. \<forall>y. dep_edge wfDef x y \<longrightarrow> y \<in> set deps \<union> set ds"
  shows "set deps \<union> (set ds - {[]}) \<subseteq> set (collectDeps wfDef deps ds) \<and>
    (\<forall>x \<in> set (collectDeps wfDef deps ds). \<forall>y. dep_edge wfDef x y \<longrightarrow> y \<in> set (collectDeps wfDef deps ds))"
  using assms
proof (induction wfDef deps ds rule: collectDeps.induct)
  case (2 wfDef deps d ds)
  show ?case
  proof (cases "d = [] \<or> d \<in> set deps")
    case True
    have "\<forall>x \<in> set deps. \<forall>y. dep_edge wfDef x y \<longrightarrow> y \<in> set deps \<union> set ds"
      using "2.prems" True by (auto simp: dep_edge_def)
    note IH = "2.IH"(1) [OF True this]
    have eq: "collectDeps wfDef deps (d # ds) = collectDeps wfDef deps ds" using True by simp
    show ?thesis unfolding eq
      by (intro conjI IH [THEN conjunct2]) (use IH [THEN conjunct1] True in auto)
  next
    case False
    have "\<forall>x \<in> set (deps @ [d]). \<forall>y. dep_edge wfDef x y \<longrightarrow> y \<in> set (deps @ [d]) \<union> set (dependsOn wfDef d @ ds)"
      using "2.prems" by (auto simp: dep_edge_def)
    note IH = "2.IH"(2) [OF False this]
    have eq: "collectDeps wfDef deps (d # ds) = collectDeps wfDef (deps @ [d]) (dependsOn wfDef d @ ds)" using False by simp
    show ?thesis unfolding eq
      by (intro conjI IH [THEN conjunct2]) (use IH [THEN conjunct1] in auto)
  qed
qed simp

lemma collectDeps_distinct: "distinct deps \<Longrightarrow> distinct (collectDeps wfDef deps ds)"
  by (induction wfDef deps ds rule: collectDeps.induct) auto

lemma collectDependencies_reachable:
  assumes "i \<noteq> []"
  shows "set (collectDependencies wfDef i) = {d. (dep_edge wfDef)\<^sup>+\<^sup>+ i d}"
proof (intro set_eqI iffI; (simp only: mem_Collect_eq)?)
  fix d assume "d \<in> set (collectDependencies wfDef i)"
  then obtain e where "e \<in> set (dependsOn wfDef i)" "e \<noteq> []" "(dep_edge wfDef)\<^sup>*\<^sup>* e d"
    using assms collectDeps_sound [of d wfDef "[]" "dependsOn wfDef i"] by (auto simp: collectDependencies_def)
  then show "(dep_edge wfDef)\<^sup>+\<^sup>+ i d" by (auto simp: dep_edge_def intro: rtranclp_into_tranclp2)
next
  fix d assume "(dep_edge wfDef)\<^sup>+\<^sup>+ i d"
  then show "d \<in> set (collectDependencies wfDef i)"
  proof (induction rule: tranclp_induct)
    case (base y)
    then show ?case using assms collectDeps_closed [of "[]" wfDef "dependsOn wfDef i"] by (auto simp: collectDependencies_def dep_edge_def)
  next
    case (step y z)
    then show ?case using assms collectDeps_closed [of "[]" wfDef "dependsOn wfDef i"] by (auto simp: collectDependencies_def)
  qed
qed

section \<open>Reading back what was written\<close>

lemma getParts_setParts: "setParts m ps v = (m', True) \<Longrightarrow> ps \<noteq> [] \<Longrightarrow> getParts (VMap m') ps = Some v"
proof (induction m ps v arbitrary: m' rule: setParts.induct)
  case (3 m p q ps v)
  then show ?case by (fastforce simp: Let_def split: if_splits prod.splits)
qed (auto split: if_splits)

text \<open>Two paths that part at some point do not disturb each other.\<close>

fun diverge :: "string list \<Rightarrow> string list \<Rightarrow> bool" where
  "diverge (p # ps) (q # qs) \<longleftrightarrow> TrimSpace p \<noteq> TrimSpace q \<or> diverge ps qs"
| "diverge _ _ \<longleftrightarrow> False"

lemma getParts_empty: "qs \<noteq> [] \<Longrightarrow> getParts (VMap []) qs = None"
  by (cases qs) (simp_all add: Let_def)

lemma diverge_Nil: "diverge ps qs \<Longrightarrow> ps \<noteq> [] \<and> qs \<noteq> []"
  by (cases ps; cases qs) simp_all

lemma getParts_setParts_other: "diverge ps qs \<Longrightarrow> getParts (VMap (fst (setParts m ps v))) qs = getParts (VMap m) qs"
proof (induction m ps v arbitrary: qs rule: setParts.induct)
  case (2 m p v)
  then show ?case by (cases qs) (auto simp: Let_def)
next
  case (3 m p r ps v)
  then obtain q qs' where qs: "qs = q # qs'" by (cases qs) auto
  show ?case
  proof (cases "TrimSpace p = TrimSpace q \<and> TrimSpace p \<noteq> []")
    case True
    let ?n = "case map_of m (TrimSpace p) of Some (VMap n) \<Rightarrow> n | _ \<Rightarrow> []"
    from True qs "3.prems" have d: "diverge (r # ps) qs'" by simp
    then have ne: "qs' \<noteq> []" by (rule diverge_Nil [THEN conjunct2])
    have IH: "getParts (VMap (fst (setParts ?n (r # ps) v))) qs' = getParts (VMap ?n) qs'"
      using "3.IH" [OF refl] True d by blast
    show ?thesis
      using True IH ne by (cases qs') (auto simp: qs Let_def getParts_empty case_prod_beta split: option.split wf_value.split)
  qed (auto simp: qs Let_def case_prod_beta)
qed simp

lemma lastIndexByte_last: "c \<notin> set t \<Longrightarrow> lastIndexByte (s @ c # t) c = Some (length s)"
proof -
  assume "c \<notin> set t"
  then have "lastIndexByte t c = None" by (induction t) auto
  then show ?thesis by (induction s) auto
qed

lemma Itoa_no_at: "CHR ''@'' \<notin> set (Itoa n)"
proof -
  have "CHR ''@'' \<notin> set (nat_str m)" for m
    using nat_str_digits [of m] by (auto simp: list_all_iff)
  then show ?thesis by (simp add: Itoa_def)
qed

lemma splitJobID_jobIDFor:
  assumes "CHR '':'' \<notin> set runID" "i \<noteq> []"
  shows "splitJobID (jobIDFor runID i n) = (runID, i)"
proof -
  have "IndexByte (runID @ CHR '':'' # i @ CHR ''@'' # Itoa n) (CHR '':'') = Some (length runID)"
    using IndexByte_skip [OF assms(1)] by simp
  moreover have "lastIndexByte (i @ CHR ''@'' # Itoa n) (CHR ''@'') = Some (length i)" by (rule lastIndexByte_last [OF Itoa_no_at])
  ultimately show ?thesis using assms(2) by (simp add: splitJobID_def jobIDFor_def Let_def)
qed

lemma parseAttempt_jobIDFor:
  assumes "0 < n" "int64_range n"
  shows "parseAttempt (jobIDFor runID i n) = n"
proof -
  have "lastIndexByte ((runID @ '':'' @ i) @ CHR ''@'' # Itoa n) (CHR ''@'') = Some (length (runID @ '':'' @ i))"
    by (rule lastIndexByte_last [OF Itoa_no_at])
  then show ?thesis using assms TrimSpace_no_space [OF Itoa_no_space, of n] by (simp add: parseAttempt_def jobIDFor_def)
qed

text \<open>A string that reads as a number is compared as one: the word \<open>nan\<close> does not equal itself.\<close>

lemma switch_nan_never_matches: "\<not> switchValueEquals E (VString ''nan'') (VString ''nan'')"
proof -
  have "switchComparableNumber (VString ''nan'') = Some 0x7FF8000000000001" by code_simp
  moreover have "\<not> f64_eq 0x7FF8000000000001 0x7FF8000000000001" by code_simp
  ultimately show ?thesis by (simp add: switchValueEquals_def)
qed

section \<open>Properties\<close>

text \<open>
  C26. Collecting the dependencies of a step ends on every workflow, cyclic or not, enters every step
  once, and yields exactly the steps reachable over dependencies.
\<close>

theorem collectDependencies_closure:
  assumes "i \<noteq> []"
  shows "distinct (collectDependencies wfDef i) \<and> set (collectDependencies wfDef i) = {d. (dep_edge wfDef)\<^sup>+\<^sup>+ i d}"
  using collectDependencies_reachable [OF assms] collectDeps_distinct [of "[]"] by (simp add: collectDependencies_def)

definition ex_step :: "string \<Rightarrow> step_type \<Rightarrow> step" where
  "ex_step i ty = \<lparr>st_ID = i, st_Name = [], st_Type = ty, st_Topic = [], st_DependsOn = [], st_Condition = [], st_ForEach = [],
     st_MaxParallel = 0, st_Input = None, st_InputSchema = [], st_InputSchemaID = [], st_OutputPath = [], st_ResultDataPath = [],
     st_OutputSchema = [], st_OutputSchemaID = [], st_OnError = [], st_Retry = None, st_TimeoutSec = 0, st_DelaySec = 0, st_DelayUntil = []\<rparr>"

definition ex_workflow :: "step list \<Rightarrow> workflow" where
  "ex_workflow ss = \<lparr>wf_ID = ''w'', wf_OrgID = ''acme'', wf_Name = ''w'', wf_TimeoutSec = 0, wf_Steps = map (\<lambda>s. (st_ID s, Some s)) ss\<rparr>"

text \<open>A cycle of two steps, and a step that depends on it.\<close>

definition ex_cycle :: workflow where
  "ex_cycle = ex_workflow [(ex_step ''a'' StepTypeWorker)\<lparr>st_DependsOn := [''b'']\<rparr>, (ex_step ''b'' StepTypeWorker)\<lparr>st_DependsOn := [''a'']\<rparr>,
     (ex_step ''c'' StepTypeWorker)\<lparr>st_DependsOn := [''a'']\<rparr>]"

theorem collectDependencies_closure_witness:
  "collectDependencies ex_cycle ''c'' = [''a'', ''b''] \<and> {d. (dep_edge ex_cycle)\<^sup>+\<^sup>+ ''c'' d} = {''a'', ''b''}"
proof -
  have "collectDependencies ex_cycle ''c'' = [''a'', ''b'']" by code_simp
  with collectDependencies_closure [of "''c''" ex_cycle] show ?thesis by simp
qed

text \<open>
  C27. A value written at a context path is read back at that path, and every path that parts from it
  reads what it read before.
\<close>

theorem setContextPath_roundtrip:
  assumes "setContextPath ctx path v = (ctx', True)" "TrimSpace path \<noteq> []"
  shows "getContextPath ctx' path = Some v \<and>
    (\<forall>path'. diverge (Split (TrimSpace path) (CHR ''.'')) (Split (TrimSpace path') (CHR ''.'')) \<longrightarrow> getContextPath ctx' path' = getContextPath ctx path')"
proof -
  let ?ps = "Split (TrimSpace path) (CHR ''.'')"
  have eq: "setParts ctx ?ps v = (ctx', True)" using assms by (simp add: setContextPath_def)
  have "?ps \<noteq> []" by (cases "TrimSpace path") (auto split: list.split)
  then have "getContextPath ctx' path = Some v" using getParts_setParts [OF eq] assms(2) by (simp add: getContextPath_def)
  moreover have "getContextPath ctx' path' = getContextPath ctx path'" if "diverge ?ps (Split (TrimSpace path') (CHR ''.''))" for path'
    using getParts_setParts_other [OF that, of ctx v] eq by (simp add: getContextPath_def)
  ultimately show ?thesis by blast
qed

theorem setContextPath_roundtrip_witness:
  "let ctx' = fst (setContextPath [(''a'', VMap [(''b'', VInt 1), (''c'', VInt 2)])] ''a.b.d'' (VBool True)) in
   getContextPath ctx' ''a.b.d'' = Some (VBool True) \<and> getContextPath ctx' ''a.c'' = Some (VInt 2)"
proof -
  let ?ctx = "[(''a'', VMap [(''b'', VInt 1), (''c'', VInt 2)])]"
  have r: "setContextPath ?ctx ''a.b.d'' (VBool True) = (fst (setContextPath ?ctx ''a.b.d'' (VBool True)), True)" "TrimSpace ''a.b.d'' \<noteq> []"
    by code_simp+
  have d: "diverge (Split (TrimSpace ''a.b.d'') (CHR ''.'')) (Split (TrimSpace ''a.c'') (CHR ''.''))" by code_simp
  have "getContextPath ?ctx ''a.c'' = Some (VInt 2)" by code_simp
  with setContextPath_roundtrip [OF r] d show ?thesis by (simp only: Let_def)
qed

end
