(* ===== verification/Workflow_Status.thy ===== *)
theory Workflow_Status
  imports Workflow_Model
begin

text \<open>
  The status of steps and runs (\<open>core/workflow/engine_state.go\<close>, \<open>engine_helpers.go\<close>): what a job
  result does to a step run, retries, the chain of error handlers, skipping what depends on a failed
  step, and the status of a run computed from its steps.

  A Go map is a list in the order the code happens to range over it; the results hold for every
  order. Shown: a run is reported as succeeded exactly when every step of its workflow is settled; a
  denial is final and retries are bounded; skipping reaches exactly the pending steps below the failed
  one. The order does matter for the kind of failure that is reported, and a handler that waits for
  an approval counts as failed.
\<close>

section \<open>Job results\<close>

datatype job_status =
    JobStatusSucceeded | JobStatusDenied | JobStatusFailed | JobStatusTimeout | JobStatusFailedRetryable | JobStatusFailedFatal
  | JobStatusCancelled | JobStatusOther string

record step_result =
  res_JobId :: string
  res_Status :: job_status
  res_ResultPtr :: string
  res_HasRef :: bool
  res_ErrorMessage :: string

definition wrap64 :: "int \<Rightarrow> int" where
  "wrap64 n = (n + 2 ^ 63) mod 2 ^ 64 - 2 ^ 63"

definition seconds :: "int \<Rightarrow> int" where
  "seconds n = wrap64 (n * 1000000000)"

definition shouldRetry :: "step option \<Rightarrow> step_run \<Rightarrow> bool" where
  "shouldRetry s sr =
     (case Option.bind s st_Retry of
        None \<Rightarrow> False
      | Some cfg \<Rightarrow> if MaxRetries cfg \<le> 0 then False else sr_Attempts sr \<le> MaxRetries cfg)"

definition computeBackoff :: "engine \<Rightarrow> step option \<Rightarrow> step_run \<Rightarrow> int" where
  "computeBackoff E s sr =
     (case Option.bind s st_Retry of
        None \<Rightarrow> seconds 1
      | Some cfg \<Rightarrow>
          let initial = (if InitialBackoffSec cfg \<le> 0 then 1 else InitialBackoffSec cfg);
              one = f64_of_int 1;
              mult = (if f64_lt (Multiplier cfg) one \<or> f64_eq (Multiplier cfg) one then f64_of_int 2 else Multiplier cfg);
              attempt = (if sr_Attempts sr < 1 then 1 else sr_Attempts sr);
              delay = backoffSeconds E initial mult (attempt - 1);
              cap = f64_of_int (MaxBackoffSec cfg)
          in seconds (floatToInt E (if MaxBackoffSec cfg > 0 \<and> f64_lt cap delay then cap else delay)))"

text \<open>The step run after a result, and the delay when it is to be retried.\<close>

definition applyResult :: "engine \<Rightarrow> step_run \<Rightarrow> step_result \<Rightarrow> step option \<Rightarrow> int \<Rightarrow> step_run \<times> int option" where
  "applyResult E sr res s now =
     (let finish = (\<lambda>status err. (upd (\<lambda>f. f\<lparr>sf_Status := status, sf_CompletedAt := Some now, sf_Error := err\<rparr>) sr, None)) in
      case res_Status res of
        JobStatusSucceeded \<Rightarrow>
          (upd (\<lambda>f. f\<lparr>sf_Status := StepStatusSucceeded, sf_CompletedAt := Some now, sf_NextAttemptAt := None,
                     sf_Output := (if res_ResultPtr res \<noteq> [] then VString (res_ResultPtr res) else sf_Output f), sf_Error := []\<rparr>) sr, None)
      | JobStatusDenied \<Rightarrow> finish StepStatusDenied (msg (res_ErrorMessage res))
      | JobStatusFailedFatal \<Rightarrow> finish StepStatusFailed (msg (res_ErrorMessage res))
      | JobStatusCancelled \<Rightarrow> finish StepStatusCancelled (sr_Error sr)
      | JobStatusOther name \<Rightarrow> finish StepStatusFailed (msg (''unexpected status: '' @ name))
      | status \<Rightarrow>
          if shouldRetry s sr
          then let delay = computeBackoff E s sr
               in (upd (\<lambda>f. f\<lparr>sf_NextAttemptAt := Some (now + delay), sf_Status := StepStatusPending, sf_Error := msg (res_ErrorMessage res)\<rparr>) sr,
                   Some delay)
          else finish (if status = JobStatusTimeout then StepStatusTimedOut else StepStatusFailed) (msg (res_ErrorMessage res)))"

definition shouldIgnoreProcessedResult :: "step_run \<Rightarrow> bool" where
  "shouldIgnoreProcessedResult sr \<longleftrightarrow>
     isTerminalStepStatus (sr_Status sr) \<or> sr_Status sr = StepStatusPending \<and> sr_NextAttemptAt sr \<noteq> None"

definition aggregateChildren :: "step_run \<Rightarrow> step_status" where
  "aggregateChildren parent =
     (let sts = map (\<lambda>(_, c). sr_Status c) (sr_Children parent) in
      if sts = [] then sr_Status parent
      else if list_ex (\<lambda>st. st = StepStatusFailed \<or> st = StepStatusCancelled \<or> st = StepStatusTimedOut) sts then StepStatusFailed
      else if StepStatusDenied \<in> set sts then StepStatusDenied
      else if list_all ((=) StepStatusSucceeded) sts then StepStatusSucceeded
      else StepStatusRunning)"

section \<open>Error handlers\<close>

datatype chain_outcome = ChainPending | ChainRecovered | ChainExhausted

definition handler :: "workflow \<Rightarrow> string \<Rightarrow> string option" where
  "handler wfDef i = (case step_def wfDef i of None \<Rightarrow> None | Some s \<Rightarrow> if st_OnError s = [] then None else Some (st_OnError s))"

definition stepStatus :: "workflow_run \<Rightarrow> string \<Rightarrow> step_status" where
  "stepStatus run i = (case map_of (run_Steps run) i of None \<Rightarrow> StepStatusNone | Some sr \<Rightarrow> sr_Status sr)"

function walkChain :: "workflow \<Rightarrow> workflow_run \<Rightarrow> string list \<Rightarrow> string \<Rightarrow> chain_outcome" where
  "walkChain wfDef run visited i =
     (if i \<in> set visited then ChainExhausted
      else case handler wfDef i of
          None \<Rightarrow> ChainExhausted
        | Some h \<Rightarrow>
            (let st = stepStatus run h in
             if st = StepStatusNone \<or> st = StepStatusPending \<or> st = StepStatusRunning then ChainPending
             else if st = StepStatusSucceeded then ChainRecovered
             else walkChain wfDef run (visited @ [i]) h))"
  by pat_completeness auto

lemma handler_keys: "handler wfDef i = Some h \<Longrightarrow> i \<in> keys (wf_Steps wfDef)"
  by (auto simp: handler_def intro: step_def_keys split: option.splits)

termination walkChain
  by (relation "measure (\<lambda>(wfDef, run, visited, i). card (keys (wf_Steps wfDef) - set visited))")
    (auto dest!: handler_keys intro: card_unvisited [of _ "wf_Steps _" "_", simplified])

definition walkOnErrorChain :: "workflow \<Rightarrow> workflow_run \<Rightarrow> string \<Rightarrow> chain_outcome" where
  "walkOnErrorChain wfDef run i = walkChain wfDef run [] i"

text \<open>
  Skipping what depends on a failed step. The stack holds, for every step on the way down, the steps of
  the workflow still to be looked at; that such a step belongs to the workflow is tested only to make
  the end of the recursion plain.
\<close>

definition skipStep :: "string \<Rightarrow> int \<Rightarrow> step_run \<Rightarrow> step_run" where
  "skipStep failed now sr =
     upd (\<lambda>f. f\<lparr>sf_Status := StepStatusSkipped, sf_SkipReason := ''dependency '' @ failed @ '' failed'', sf_CompletedAt := Some now\<rparr>) sr"

definition toSkip :: "string list \<Rightarrow> workflow_run \<Rightarrow> string \<Rightarrow> string \<times> step option \<Rightarrow> bool" where
  "toSkip visited run dep e \<longleftrightarrow>
     fst e \<notin> set visited \<and>
     (case snd e of None \<Rightarrow> False | Some s \<Rightarrow> dep \<in> set (st_DependsOn s)) \<and> stepStatus run (fst e) = StepStatusPending"

definition markSkipped :: "string \<Rightarrow> int \<Rightarrow> string \<Rightarrow> workflow_run \<Rightarrow> workflow_run" where
  "markSkipped failed now i run = (case map_of (run_Steps run) i of None \<Rightarrow> run | Some sr \<Rightarrow> put_step i (skipStep failed now sr) run)"

function (sequential) cascade ::
    "workflow \<Rightarrow> string \<Rightarrow> int \<Rightarrow> string list \<Rightarrow> (string \<times> (string \<times> step option) list) list \<Rightarrow> workflow_run \<Rightarrow> workflow_run" where
  "cascade wfDef failed now visited [] run = run"
| "cascade wfDef failed now visited ((dep, []) # stack) run = cascade wfDef failed now visited stack run"
| "cascade wfDef failed now visited ((dep, e # es) # stack) run =
     (if fst e \<in> keys (wf_Steps wfDef) \<and> toSkip visited run dep e
      then cascade wfDef failed now (visited @ [fst e]) ((fst e, wf_Steps wfDef) # (dep, es) # stack) (markSkipped failed now (fst e) run)
      else cascade wfDef failed now visited ((dep, es) # stack) run)"
  by pat_completeness auto

termination cascade
proof (relation "measures [\<lambda>(wfDef, failed, now, visited, stack, run). card (keys (wf_Steps wfDef) - set visited),
    \<lambda>(wfDef, failed, now, visited, stack, run). sum_list (map (\<lambda>(d, es). Suc (length es)) stack)]")
  fix wfDef :: workflow and failed :: string and now visited dep e es stack and run :: workflow_run
  assume "fst e \<in> keys (wf_Steps wfDef) \<and> toSkip visited run dep e"
  then have "card (keys (wf_Steps wfDef) - set (visited @ [fst e])) < card (keys (wf_Steps wfDef) - set visited)"
    by (intro card_unvisited) (auto simp: toSkip_def)
  then show "((wfDef, failed, now, visited @ [fst e], (fst e, wf_Steps wfDef) # (dep, es) # stack, markSkipped failed now (fst e) run),
      wfDef, failed, now, visited, (dep, e # es) # stack, run)
    \<in> measures [\<lambda>(wfDef, failed, now, visited, stack, run). card (keys (wf_Steps wfDef) - set visited),
        \<lambda>(wfDef, failed, now, visited, stack, run). sum_list (map (\<lambda>(d, es). Suc (length es)) stack)]" by simp
qed simp_all

definition skipDependentSteps :: "workflow \<Rightarrow> int \<Rightarrow> string \<Rightarrow> workflow_run \<Rightarrow> workflow_run" where
  "skipDependentSteps wfDef now failed run = cascade wfDef failed now [failed] [(failed, wf_Steps wfDef)] run"

section \<open>The status of a run\<close>

record status_acc =
  acc_run :: workflow_run
  acc_failed :: bool
  acc_denied :: bool
  acc_timedOut :: bool
  acc_waiting :: bool
  acc_allDone :: bool
  acc_completed :: int
  acc_expected :: int

definition expectedSteps :: "workflow \<Rightarrow> int" where
  "expectedSteps wfDef =
     (let p = collectParallelChildOwners wfDef; l = collectLoopBodyOwners wfDef
      in max 0 (int (length (wf_Steps wfDef)) - int (length (filter (\<lambda>(i, _). managed p i \<or> managed l i) (wf_Steps wfDef)))))"

text \<open>A step that ended badly: what its handlers make of it, and which flag it raises when they do not help.\<close>

definition badStep :: "workflow \<Rightarrow> bool \<Rightarrow> int \<Rightarrow> string \<Rightarrow> (status_acc \<Rightarrow> status_acc) \<Rightarrow> status_acc \<Rightarrow> status_acc" where
  "badStep wfDef skips now i raise' a =
     (let lost = (\<lambda>a. (raise' a)\<lparr>acc_run := (if skips then skipDependentSteps wfDef now i (acc_run a) else acc_run a)\<rparr>) in
      if handler wfDef i = None then lost a
      else case walkOnErrorChain wfDef (acc_run a) i of
          ChainPending \<Rightarrow> a\<lparr>acc_allDone := False\<rparr>
        | ChainRecovered \<Rightarrow> a\<lparr>acc_completed := acc_completed a + 1\<rparr>
        | ChainExhausted \<Rightarrow> lost a)"

definition statusStep :: "workflow \<Rightarrow> string gomap \<Rightarrow> string gomap \<Rightarrow> int \<Rightarrow> string \<times> step option \<Rightarrow> status_acc \<Rightarrow> status_acc" where
  "statusStep wfDef p l now e a =
     (let i = fst e in
      if managed p i \<or> managed l i then a
      else case map_of (run_Steps (acc_run a)) i of
          None \<Rightarrow> if isOnErrorTarget wfDef i then a\<lparr>acc_expected := acc_expected a - 1\<rparr> else a\<lparr>acc_allDone := False\<rparr>
        | Some sr \<Rightarrow>
            (case sr_Status sr of
               StepStatusFailed \<Rightarrow> badStep wfDef True now i (acc_failed_update (\<lambda>_. True)) a
             | StepStatusDenied \<Rightarrow> badStep wfDef True now i (acc_denied_update (\<lambda>_. True)) a
             | StepStatusTimedOut \<Rightarrow> badStep wfDef False now i (acc_timedOut_update (\<lambda>_. True)) a
             | StepStatusCancelled \<Rightarrow> if isSwitchBranchNotTaken sr then a\<lparr>acc_completed := acc_completed a + 1\<rparr> else a\<lparr>acc_failed := True\<rparr>
             | StepStatusSucceeded \<Rightarrow> a\<lparr>acc_completed := acc_completed a + 1\<rparr>
             | StepStatusWaiting \<Rightarrow> a\<lparr>acc_waiting := True, acc_allDone := False\<rparr>
             | _ \<Rightarrow> a\<lparr>acc_allDone := False\<rparr>))"

definition updateRunStatus :: "workflow \<Rightarrow> int \<Rightarrow> workflow_run \<Rightarrow> workflow_run" where
  "updateRunStatus wfDef now run =
     (if run_Status run = RunStatusCancelled \<or> run_Status run = RunStatusTimedOut then run
      else let a = fold (statusStep wfDef (collectParallelChildOwners wfDef) (collectLoopBodyOwners wfDef) now) (wf_Steps wfDef)
                     \<lparr>acc_run = run, acc_failed = False, acc_denied = False, acc_timedOut = False, acc_waiting = False, acc_allDone = True,
                      acc_completed = 0, acc_expected = expectedSteps wfDef\<rparr>;
               r = acc_run a
           in if acc_failed a then r\<lparr>run_Status := RunStatusFailed, run_CompletedAt := Some now\<rparr>
              else if acc_denied a then r\<lparr>run_Status := RunStatusDenied, run_CompletedAt := Some now\<rparr>
              else if acc_timedOut a then r\<lparr>run_Status := RunStatusTimedOut, run_CompletedAt := Some now\<rparr>
              else if acc_waiting a then r\<lparr>run_Status := RunStatusWaiting\<rparr>
              else if acc_allDone a \<and> acc_completed a = acc_expected a
              then r\<lparr>run_Status := RunStatusSucceeded, run_CompletedAt := Some now\<rparr>
              else r\<lparr>run_Status := RunStatusRunning\<rparr>)"

section \<open>Cancelling and timing out step runs\<close>

fun cancelStepRun :: "int \<Rightarrow> step_run \<Rightarrow> step_run" and cancelRuns :: "int \<Rightarrow> (string \<times> step_run) list \<Rightarrow> (string \<times> step_run) list" where
  "cancelStepRun now (StepRun f cs) =
     StepRun (if isTerminalStepStatus (sf_Status f) then f else f\<lparr>sf_Status := StepStatusCancelled, sf_CompletedAt := Some now\<rparr>) (cancelRuns now cs)"
| "cancelRuns now [] = []"
| "cancelRuns now ((i, c) # cs) = (i, cancelStepRun now c) # cancelRuns now cs"

fun timeoutStepRun :: "int \<Rightarrow> step_run \<Rightarrow> step_run" and timeoutRuns :: "int \<Rightarrow> (string \<times> step_run) list \<Rightarrow> (string \<times> step_run) list" where
  "timeoutStepRun now (StepRun f cs) =
     StepRun (if isTerminalStepStatus (sf_Status f) then f
              else f\<lparr>sf_Status := StepStatusTimedOut, sf_CompletedAt := Some now,
                     sf_Error := (if sf_Error f = [] then msg ''workflow run timed out'' else sf_Error f)\<rparr>) (timeoutRuns now cs)"
| "timeoutRuns now [] = []"
| "timeoutRuns now ((i, c) # cs) = (i, timeoutStepRun now c) # timeoutRuns now cs"

fun collectCancelableJobs :: "step_run \<Rightarrow> string list" and cancelableJobs :: "(string \<times> step_run) list \<Rightarrow> string list" where
  "collectCancelableJobs (StepRun f cs) =
     (if (sf_Status f = StepStatusRunning \<or> sf_Status f = StepStatusWaiting) \<and> sf_JobID f \<noteq> [] then [sf_JobID f] else []) @ cancelableJobs cs"
| "cancelableJobs [] = []"
| "cancelableJobs ((i, c) # cs) = collectCancelableJobs c @ cancelableJobs cs"

text \<open>Every step of the workflow has a step run.\<close>

definition fillSteps :: "workflow \<Rightarrow> workflow_run \<Rightarrow> workflow_run" where
  "fillSteps wfDef run =
     fold (\<lambda>(i, _) r. if map_of (run_Steps r) i = None then put_step i (new_run i StepStatusNone) r else r) (wf_Steps wfDef) run"

section \<open>Parallel children\<close>

definition summarizeParallelChildren :: "step_run \<Rightarrow> string list \<Rightarrow> int \<times> int \<times> int" where
  "summarizeParallelChildren parent ids =
     (let sts = List.map_filter (\<lambda>i. map_option sr_Status (map_of (sr_Children parent) i)) ids;
          count = (\<lambda>P. int (length (filter P sts)))
      in (count ((=) StepStatusSucceeded),
          count (\<lambda>st. st = StepStatusFailed \<or> st = StepStatusDenied \<or> st = StepStatusCancelled \<or> st = StepStatusTimedOut),
          count (\<lambda>st. st = StepStatusRunning \<or> st = StepStatusWaiting)))"

text \<open>Done with success, done without (and why), or not done.\<close>

definition evaluateParallelOutcome :: "strategy \<Rightarrow> int \<Rightarrow> int \<Rightarrow> int \<Rightarrow> int \<Rightarrow> (bool \<times> string) option" where
  "evaluateParallelOutcome strat required tot succeeded failed =
     (case strat of
        StrategyAll \<Rightarrow>
          if failed > 0 then Some (False, ''parallel strategy all failed because at least one child failed'')
          else if succeeded = tot then Some (True, []) else None
      | StrategyAny \<Rightarrow>
          if succeeded > 0 then Some (True, [])
          else if failed = tot then Some (False, ''parallel strategy any exhausted all children without success'') else None
      | StrategyNOfM \<Rightarrow>
          if succeeded \<ge> required then Some (True, [])
          else if tot - failed < required
          then Some (False, ''parallel strategy n_of_m cannot reach required successes ('' @ Itoa required @ ''/'' @ Itoa tot @ '')'')
          else None)"

definition aggregateParallelOutputs :: "workflow_run \<Rightarrow> string list \<Rightarrow> obj" where
  "aggregateParallelOutputs run ids =
     (if run_Context run = None then []
      else map (\<lambda>i. (i, case map_of (runSteps run) i of
                    Some entry \<Rightarrow> entry
                  | None \<Rightarrow>
                      (case map_of (run_Steps run) i of
                         None \<Rightarrow> VNil
                       | Some sr \<Rightarrow>
                           if sf_Output (sr_fields sr) \<noteq> VNil then sf_Output (sr_fields sr)
                           else if sr_Error sr \<noteq> [] then VMap [(''error'', VMap (sr_Error sr))] else VNil))) ids)"

section \<open>When a run succeeds\<close>

text \<open>A step that does not stand in the way of success.\<close>

definition settled :: "workflow \<Rightarrow> workflow_run \<Rightarrow> string \<Rightarrow> bool" where
  "settled wfDef run i \<longleftrightarrow>
     managed (collectParallelChildOwners wfDef) i \<or> managed (collectLoopBodyOwners wfDef) i \<or>
     (case map_of (run_Steps run) i of
        None \<Rightarrow> isOnErrorTarget wfDef i
      | Some sr \<Rightarrow> sr_Status sr = StepStatusSucceeded \<or> isSwitchBranchNotTaken sr \<or>
          sr_Status sr \<in> {StepStatusFailed, StepStatusDenied, StepStatusTimedOut} \<and> walkOnErrorChain wfDef run i = ChainRecovered)"

definition spoiled :: "status_acc \<Rightarrow> bool" where
  "spoiled a \<longleftrightarrow> acc_failed a \<or> acc_denied a \<or> acc_timedOut a \<or> acc_waiting a \<or> \<not> acc_allDone a"

lemma no_handler_exhausted: "handler wfDef i = None \<Longrightarrow> walkOnErrorChain wfDef run i = ChainExhausted"
  by (simp add: walkOnErrorChain_def)

lemma statusStep_spoiled: "spoiled a \<Longrightarrow> spoiled (statusStep wfDef p l now e a)"
  by (auto simp: statusStep_def badStep_def spoiled_def Let_def split: option.split step_status.split chain_outcome.split)

lemma fold_statusStep_spoiled: "spoiled a \<Longrightarrow> spoiled (fold (statusStep wfDef p l now) es a)"
  by (induction es arbitrary: a) (auto simp: statusStep_spoiled)

lemma statusStep_unsettled:
  assumes "\<not> settled wfDef (acc_run a) (fst e)"
  shows "spoiled (statusStep wfDef (collectParallelChildOwners wfDef) (collectLoopBodyOwners wfDef) now e a)"
  using assms no_handler_exhausted
  by (auto simp: statusStep_def badStep_def spoiled_def settled_def Let_def split: option.split step_status.split chain_outcome.split)

text \<open>The part of the count that a settled step adds: it completes, it is not expected, or it is left out.\<close>

definition owned :: "workflow \<Rightarrow> string \<Rightarrow> bool" where
  "owned wfDef i \<longleftrightarrow> managed (collectParallelChildOwners wfDef) i \<or> managed (collectLoopBodyOwners wfDef) i"

lemma statusStep_settled:
  assumes "settled wfDef (acc_run a) (fst e)"
  shows "statusStep wfDef (collectParallelChildOwners wfDef) (collectLoopBodyOwners wfDef) now e a =
    (if owned wfDef (fst e) then a
     else if map_of (run_Steps (acc_run a)) (fst e) = None then a\<lparr>acc_expected := acc_expected a - 1\<rparr>
     else a\<lparr>acc_completed := acc_completed a + 1\<rparr>)"
proof (cases "map_of (run_Steps (acc_run a)) (fst e)")
  case (Some sr)
  show ?thesis
  proof (cases "walkOnErrorChain wfDef (acc_run a) (fst e) = ChainRecovered")
    case True
    then have "handler wfDef (fst e) \<noteq> None" using no_handler_exhausted by force
    with assms True Some show ?thesis
      by (auto simp: statusStep_def badStep_def settled_def owned_def isSwitchBranchNotTaken_def Let_def split: step_status.split)
  next
    case False
    with assms Some show ?thesis
      by (auto simp: statusStep_def settled_def owned_def isSwitchBranchNotTaken_def Let_def split: step_status.split)
  qed
qed (use assms in \<open>auto simp: statusStep_def settled_def owned_def Let_def\<close>)

lemma fold_settled:
  assumes "\<forall>e \<in> set es. settled wfDef (acc_run a) (fst e)"
  shows "fold (statusStep wfDef (collectParallelChildOwners wfDef) (collectLoopBodyOwners wfDef) now) es a =
    a\<lparr>acc_completed := acc_completed a + int (length (filter (\<lambda>e. \<not> owned wfDef (fst e) \<and> map_of (run_Steps (acc_run a)) (fst e) \<noteq> None) es)),
      acc_expected := acc_expected a - int (length (filter (\<lambda>e. \<not> owned wfDef (fst e) \<and> map_of (run_Steps (acc_run a)) (fst e) = None) es))\<rparr>"
  using assms
proof (induction es arbitrary: a)
  case (Cons e es)
  have s: "settled wfDef (acc_run a) (fst e)" "\<forall>e \<in> set es. settled wfDef (acc_run a) (fst e)" using Cons.prems by simp_all
  show ?case
    using Cons.IH [of "statusStep wfDef (collectParallelChildOwners wfDef) (collectLoopBodyOwners wfDef) now e a"] s
    by (simp add: statusStep_settled [OF s(1)])
qed simp

lemma fold_unsettled:
  assumes "\<exists>e \<in> set es. \<not> settled wfDef (acc_run a) (fst e)"
  shows "spoiled (fold (statusStep wfDef (collectParallelChildOwners wfDef) (collectLoopBodyOwners wfDef) now) es a)"
  using assms
proof (induction es arbitrary: a)
  case (Cons e es)
  show ?case
  proof (cases "settled wfDef (acc_run a) (fst e)")
    case False
    then show ?thesis using statusStep_unsettled fold_statusStep_spoiled by simp
  next
    case True
    with Cons.prems have "\<exists>e \<in> set es. \<not> settled wfDef (acc_run a) (fst e)" by auto
    then show ?thesis
      using Cons.IH [of "statusStep wfDef (collectParallelChildOwners wfDef) (collectLoopBodyOwners wfDef) now e a"]
      by (simp add: statusStep_settled [OF True])
  qed
qed simp

lemma expectedSteps_count: "expectedSteps wfDef = int (length (filter (\<lambda>e. \<not> owned wfDef (fst e)) (wf_Steps wfDef)))"
  using sum_length_filter_compl [of "\<lambda>e. owned wfDef (fst e)" "wf_Steps wfDef"]
  unfolding expectedSteps_def Let_def case_prod_beta owned_def [symmetric] by linarith

lemma updateRunStatus_succeeded:
  assumes "run_Status run \<noteq> RunStatusCancelled" "run_Status run \<noteq> RunStatusTimedOut"
  shows "run_Status (updateRunStatus wfDef now run) = RunStatusSucceeded \<longleftrightarrow> (\<forall>e \<in> set (wf_Steps wfDef). settled wfDef run (fst e))"
proof -
  let ?init = "\<lparr>acc_run = run, acc_failed = False, acc_denied = False, acc_timedOut = False, acc_waiting = False, acc_allDone = True,
    acc_completed = 0, acc_expected = expectedSteps wfDef\<rparr>"
  let ?a = "fold (statusStep wfDef (collectParallelChildOwners wfDef) (collectLoopBodyOwners wfDef) now) (wf_Steps wfDef) ?init"
  show ?thesis
  proof (cases "\<forall>e \<in> set (wf_Steps wfDef). settled wfDef run (fst e)")
    case True
    let ?u = "filter (\<lambda>e. \<not> owned wfDef (fst e)) (wf_Steps wfDef)"
    have "length (filter (\<lambda>e. map_of (run_Steps run) (fst e) \<noteq> None) ?u) + length (filter (\<lambda>e. map_of (run_Steps run) (fst e) = None) ?u) = length ?u"
      using sum_length_filter_compl [of "\<lambda>e. map_of (run_Steps run) (fst e) \<noteq> None" ?u] by simp
    then have n: "int (length ?u) = int (length (filter (\<lambda>e. \<not> owned wfDef (fst e) \<and> map_of (run_Steps run) (fst e) \<noteq> None) (wf_Steps wfDef))) +
        int (length (filter (\<lambda>e. \<not> owned wfDef (fst e) \<and> map_of (run_Steps run) (fst e) = None) (wf_Steps wfDef)))"
      by (simp only: filter_filter conj_commute flip: of_nat_add)
    have a: "?a = ?init\<lparr>acc_completed := int (length (filter (\<lambda>e. \<not> owned wfDef (fst e) \<and> map_of (run_Steps run) (fst e) \<noteq> None) (wf_Steps wfDef))),
        acc_expected := expectedSteps wfDef - int (length (filter (\<lambda>e. \<not> owned wfDef (fst e) \<and> map_of (run_Steps run) (fst e) = None) (wf_Steps wfDef)))\<rparr>"
    proof -
      have "\<forall>e \<in> set (wf_Steps wfDef). settled wfDef (acc_run ?init) (fst e)" using True by simp
      from fold_settled [OF this, of now] show ?thesis by (simp only: status_acc.simps add_0)
    qed
    show ?thesis using True assms n expectedSteps_count [of wfDef] unfolding updateRunStatus_def Let_def a by simp
  next
    case False
    then have "spoiled ?a" using fold_unsettled [of "wf_Steps wfDef" wfDef ?init now] by auto
    with False assms show ?thesis by (auto simp: updateRunStatus_def Let_def spoiled_def)
  qed
qed

section \<open>What is skipped\<close>

text \<open>The pending steps below a failed one, over dependencies between pending steps.\<close>

definition pendingOn :: "workflow \<Rightarrow> workflow_run \<Rightarrow> string \<Rightarrow> string \<Rightarrow> bool" where
  "pendingOn wfDef run d i \<longleftrightarrow>
     (\<exists>s. (i, Some s) \<in> set (wf_Steps wfDef) \<and> d \<in> set (st_DependsOn s)) \<and> stepStatus run i = StepStatusPending"

inductive skippedBy :: "workflow \<Rightarrow> workflow_run \<Rightarrow> string \<Rightarrow> string \<Rightarrow> bool" for wfDef run failed where
  direct: "pendingOn wfDef run failed i \<Longrightarrow> i \<noteq> failed \<Longrightarrow> skippedBy wfDef run failed i"
| below: "skippedBy wfDef run failed d \<Longrightarrow> pendingOn wfDef run d i \<Longrightarrow> i \<noteq> failed \<Longrightarrow> skippedBy wfDef run failed i"

lemma stepStatus_markSkipped:
  "stepStatus run i = StepStatusPending \<Longrightarrow>
   stepStatus (markSkipped failed now i run) = (stepStatus run)(i := StepStatusSkipped)"
  by (auto simp: fun_eq_iff stepStatus_def markSkipped_def put_step_def skipStep_def upd_def split: option.splits)

text \<open>
  In the walk the steps visited, apart from the failed one, are skipped; the others are as they were.
  What a visited step may still reach is on the stack.
\<close>

definition cascade_inv :: "workflow \<Rightarrow> workflow_run \<Rightarrow> string \<Rightarrow> string list \<Rightarrow> (string \<times> (string \<times> step option) list) list \<Rightarrow> workflow_run \<Rightarrow> bool" where
  "cascade_inv wfDef run0 failed visited stack run \<longleftrightarrow>
     failed \<in> set visited \<and>
     (\<forall>v \<in> set visited. v = failed \<or> skippedBy wfDef run0 failed v) \<and>
     (\<forall>i. stepStatus run i = (if i \<in> set visited \<and> i \<noteq> failed then StepStatusSkipped else stepStatus run0 i)) \<and>
     (\<forall>(d, es) \<in> set stack. d \<in> set visited \<and> set es \<subseteq> set (wf_Steps wfDef)) \<and>
     (\<forall>v \<in> set visited. \<forall>i s. (i, Some s) \<in> set (wf_Steps wfDef) \<longrightarrow> v \<in> set (st_DependsOn s) \<longrightarrow> stepStatus run0 i = StepStatusPending \<longrightarrow>
        i \<in> set visited \<or> (\<exists>es. (v, es) \<in> set stack \<and> (i, Some s) \<in> set es))"

lemma cascade_invD:
  assumes "cascade_inv wfDef run0 failed visited stack run"
  shows "failed \<in> set visited" "v \<in> set visited \<Longrightarrow> v = failed \<or> skippedBy wfDef run0 failed v"
    "stepStatus run i = (if i \<in> set visited \<and> i \<noteq> failed then StepStatusSkipped else stepStatus run0 i)"
    "(d, es) \<in> set stack \<Longrightarrow> d \<in> set visited" "(d, es) \<in> set stack \<Longrightarrow> e \<in> set es \<Longrightarrow> e \<in> set (wf_Steps wfDef)"
    "v \<in> set visited \<Longrightarrow> (i, Some s) \<in> set (wf_Steps wfDef) \<Longrightarrow> v \<in> set (st_DependsOn s) \<Longrightarrow> stepStatus run0 i = StepStatusPending \<Longrightarrow>
      i \<in> set visited \<or> (\<exists>es. (v, es) \<in> set stack \<and> (i, Some s) \<in> set es)"
  using assms unfolding cascade_inv_def by blast+

lemma cascade_inv_stack:
  assumes "cascade_inv wfDef run0 failed visited ((dep, e # es) # stack) run"
  shows "dep \<in> set visited" "set es \<subseteq> set (wf_Steps wfDef)" "\<forall>(d, fs) \<in> set stack. d \<in> set visited \<and> set fs \<subseteq> set (wf_Steps wfDef)"
  using assms unfolding cascade_inv_def by auto

lemma cascade_inv_end:
  assumes "cascade_inv wfDef run0 failed visited [] run"
  shows "stepStatus run i = (if skippedBy wfDef run0 failed i then StepStatusSkipped else stepStatus run0 i)"
proof -
  note D = cascade_invD [OF assms]
  have closed: "i \<in> set visited" if "v \<in> set visited" "pendingOn wfDef run0 v i" for v i
    using that D(6) [of v i] by (auto simp: pendingOn_def)
  have "i \<in> set visited" if "skippedBy wfDef run0 failed i"
    using that by induction (auto intro: closed D(1))
  moreover have "i \<noteq> failed" if "skippedBy wfDef run0 failed i" using that by cases auto
  ultimately show ?thesis using D(2,3) [of i] by auto
qed

lemma cascade_inv_skip:
  assumes inv: "cascade_inv wfDef run0 failed visited ((dep, e # es) # stack) run" and skip: "toSkip visited run dep e"
  shows "cascade_inv wfDef run0 failed (visited @ [fst e]) ((fst e, wf_Steps wfDef) # (dep, es) # stack) (markSkipped failed now (fst e) run)"
proof -
  note D = cascade_invD [OF inv]
  obtain i s where e: "e = (i, Some s)" "i \<notin> set visited" "dep \<in> set (st_DependsOn s)" "stepStatus run i = StepStatusPending"
    using skip by (cases e) (auto simp: toSkip_def split: option.splits)
  have mem: "(i, Some s) \<in> set (wf_Steps wfDef)" "dep \<in> set visited" "i \<noteq> failed" "stepStatus run0 i = StepStatusPending"
    using D(5) [of dep "e # es" e] D(4) [of dep "e # es"] D(1) D(3) [of i] e by auto
  have "pendingOn wfDef run0 dep i" using e(3) mem by (auto simp: pendingOn_def)
  then have new: "skippedBy wfDef run0 failed i" using D(2) [OF mem(2)] mem(3) by (auto intro: skippedBy.intros)
  have status: "stepStatus (markSkipped failed now i run) = (stepStatus run)(i := StepStatusSkipped)" by (rule stepStatus_markSkipped [OF e(4)])
  show ?thesis
    unfolding cascade_inv_def e(1) fst_conv status
  proof (intro conjI ballI allI impI)
    fix v j t
    assume "v \<in> set (visited @ [i])" "(j, Some t) \<in> set (wf_Steps wfDef)" "v \<in> set (st_DependsOn t)" "stepStatus run0 j = StepStatusPending"
    note a = this
    show "j \<in> set (visited @ [i]) \<or> (\<exists>fs. (v, fs) \<in> set ((i, wf_Steps wfDef) # (dep, es) # stack) \<and> (j, Some t) \<in> set fs)"
    proof (cases "v = i")
      case False
      then consider "j \<in> set visited" | fs where "(v, fs) \<in> set stack" "(j, Some t) \<in> set fs" | "v = dep" "(j, Some t) = e \<or> (j, Some t) \<in> set es"
        using a D(6) [of v j t] by auto
      then show ?thesis by cases (use e(1) in auto)
    qed (use a in auto)
  next
    fix de assume "de \<in> set ((i, wf_Steps wfDef) # (dep, es) # stack)"
    then show "case de of (d, es) \<Rightarrow> d \<in> set (visited @ [i]) \<and> set es \<subseteq> set (wf_Steps wfDef)"
      using cascade_inv_stack [OF inv] mem(2) by auto
  qed (use D(1,2) D(3) mem(3) new in auto)
qed

lemma cascade_inv_next:
  assumes inv: "cascade_inv wfDef run0 failed visited ((dep, e # es) # stack) run" and stay: "\<not> toSkip visited run dep e"
  shows "cascade_inv wfDef run0 failed visited ((dep, es) # stack) run"
proof -
  note D = cascade_invD [OF inv]
  have v: "i \<in> set visited" if "e = (i, Some s)" "dep \<in> set (st_DependsOn s)" "stepStatus run0 i = StepStatusPending" for i s
    using stay that D(3) [of i] by (auto simp: toSkip_def split: if_splits)
  show ?thesis
    unfolding cascade_inv_def
  proof (intro conjI ballI allI impI)
    fix w j t
    assume "w \<in> set visited" "(j, Some t) \<in> set (wf_Steps wfDef)" "w \<in> set (st_DependsOn t)" "stepStatus run0 j = StepStatusPending"
    note a = this
    then consider "j \<in> set visited" | fs where "(w, fs) \<in> set stack" "(j, Some t) \<in> set fs" | "w = dep" "(j, Some t) = e \<or> (j, Some t) \<in> set es"
      using D(6) [of w j t] by auto
    then show "j \<in> set visited \<or> (\<exists>fs. (w, fs) \<in> set ((dep, es) # stack) \<and> (j, Some t) \<in> set fs)"
      by cases (use a v [of j t] in auto)
  next
    fix de assume "de \<in> set ((dep, es) # stack)"
    then show "case de of (d, es) \<Rightarrow> d \<in> set visited \<and> set es \<subseteq> set (wf_Steps wfDef)"
      using cascade_inv_stack [OF inv] by auto
  qed (use D(1,2) D(3) in auto)
qed

lemma cascade_inv_pop:
  assumes "cascade_inv wfDef run0 failed visited ((dep, []) # stack) run"
  shows "cascade_inv wfDef run0 failed visited stack run"
proof -
  note D = cascade_invD [OF assms]
  have "i \<in> set visited \<or> (\<exists>es. (v, es) \<in> set stack \<and> (i, Some s) \<in> set es)"
    if "v \<in> set visited" "(i, Some s) \<in> set (wf_Steps wfDef)" "v \<in> set (st_DependsOn s)" "stepStatus run0 i = StepStatusPending" for v i s
    using D(6) [OF that] by auto
  with assms show ?thesis unfolding cascade_inv_def by simp
qed

lemma cascade_status:
  "cascade_inv wfDef run0 failed visited stack run \<Longrightarrow>
   stepStatus (cascade wfDef failed now visited stack run) i = (if skippedBy wfDef run0 failed i then StepStatusSkipped else stepStatus run0 i)"
proof (induction wfDef failed now visited stack run rule: cascade.induct)
  case (1 wfDef failed now visited run)
  then show ?case by (simp add: cascade_inv_end)
next
  case (2 wfDef failed now visited dep stack run)
  from "2.IH" [OF cascade_inv_pop [OF "2.prems"]] show ?case by simp
next
  case (3 wfDef failed now visited dep e es stack run)
  have k: "fst e \<in> keys (wf_Steps wfDef)" using cascade_invD(5) [OF "3.prems", of dep "e # es" e] by (simp add: keys_def)
  show ?case
  proof (cases "toSkip visited run dep e")
    case True
    with k have c: "fst e \<in> keys (wf_Steps wfDef) \<and> toSkip visited run dep e" by simp
    from "3.IH"(1) [OF c cascade_inv_skip [OF "3.prems" True]] c show ?thesis by simp
  next
    case False
    then have c: "\<not> (fst e \<in> keys (wf_Steps wfDef) \<and> toSkip visited run dep e)" by simp
    from "3.IH"(2) [OF c cascade_inv_next [OF "3.prems" False]] False show ?thesis by simp
  qed
qed

lemma skipDependentSteps_status:
  "stepStatus (skipDependentSteps wfDef now failed run) i = (if skippedBy wfDef run failed i then StepStatusSkipped else stepStatus run i)"
  unfolding skipDependentSteps_def by (rule cascade_status) (auto simp: cascade_inv_def)

section \<open>Results, handlers and retries\<close>

lemma walkChain_recovered:
  "walkChain wfDef run visited i = ChainRecovered \<Longrightarrow>
   \<exists>h. (\<lambda>x y. handler wfDef x = Some y)\<^sup>+\<^sup>+ i h \<and> stepStatus run h = StepStatusSucceeded"
proof (induction wfDef run visited i rule: walkChain.induct)
  case (1 wfDef run visited i)
  from "1.prems" obtain h where h: "i \<notin> set visited" "handler wfDef i = Some h"
    by (simp split: if_splits option.splits)
  show ?case
  proof (cases "stepStatus run h = StepStatusSucceeded")
    case False
    then have "walkChain wfDef run (visited @ [i]) h = ChainRecovered"
      and n: "\<not> (stepStatus run h = StepStatusNone \<or> stepStatus run h = StepStatusPending \<or> stepStatus run h = StepStatusRunning)"
      using "1.prems" h by (auto simp: Let_def split: if_splits)
    with "1.IH" [OF h refl n False] h(2) show ?thesis by (meson tranclp_into_tranclp2)
  qed (use h(2) in blast)
qed

text \<open>A handler in status waiting, an approval for instance, is taken for one that failed.\<close>

lemma waiting_handler_exhausts:
  assumes "handler wfDef i = Some h" "handler wfDef h = None" "stepStatus run h = StepStatusWaiting" "i \<noteq> h"
  shows "walkOnErrorChain wfDef run i = ChainExhausted"
  using assms by (simp add: walkOnErrorChain_def)

text \<open>A handler that is no step of the workflow is waited for without end.\<close>

lemma missing_handler_pending:
  assumes "handler wfDef i = Some h" "map_of (run_Steps run) h = None"
  shows "walkOnErrorChain wfDef run i = ChainPending"
  using assms by (simp add: walkOnErrorChain_def stepStatus_def)

lemma applyResult_retry:
  assumes "applyResult E sr res s now = (sr', Some delay)"
  shows "res_Status res \<in> {JobStatusFailed, JobStatusTimeout, JobStatusFailedRetryable} \<and> sr_Status sr' = StepStatusPending \<and>
    sr_Attempts sr' = sr_Attempts sr \<and> (\<exists>st cfg. s = Some st \<and> st_Retry st = Some cfg \<and> sr_Attempts sr \<le> MaxRetries cfg)"
  using assms
  by (auto simp: applyResult_def upd_def shouldRetry_def Let_def bind_eq_Some_conv split: job_status.splits if_splits option.splits)

lemma applyResult_final:
  assumes "applyResult E sr res s now = (sr', None)"
  shows "isTerminalStepStatus (sr_Status sr') \<and> (sr_Status sr' = StepStatusSucceeded \<longleftrightarrow> res_Status res = JobStatusSucceeded) \<and>
    (sr_Status sr' = StepStatusDenied \<longleftrightarrow> res_Status res = JobStatusDenied)"
  using assms by (auto simp: applyResult_def upd_def isTerminalStepStatus_def Let_def split: job_status.splits if_splits)

section \<open>Examples\<close>

definition ex_run :: "(string \<times> step_run) list \<Rightarrow> workflow_run" where
  "ex_run srs = \<lparr>run_ID = ''r'', run_WorkflowID = ''w'', run_OrgID = ''acme'', run_TeamID = [], run_Input = [], run_Context = Some [],
     run_Status = RunStatusRunning, run_StartedAt = Some 0, run_CompletedAt = None, run_Output = [], run_Error = [], run_Steps = srs,
     run_TriggeredBy = [], run_CreatedAt = Some 0, run_Labels = [], run_Metadata = [], run_RerunOf = [], run_RerunStep = [],
     run_DryRun = False\<rparr>"

text \<open>
  Step \<open>a\<close> was denied; step \<open>c\<close> failed and its handler \<open>h\<close>, which depends on \<open>a\<close>, is pending. The run is
  denied or failed depending on which of \<open>a\<close> and \<open>c\<close> is looked at first.
\<close>

definition ex_a :: step where "ex_a = ex_step ''a'' StepTypeWorker"
definition ex_c :: step where "ex_c = (ex_step ''c'' StepTypeWorker)\<lparr>st_OnError := ''h''\<rparr>"
definition ex_h :: step where "ex_h = (ex_step ''h'' StepTypeWorker)\<lparr>st_DependsOn := [''a'']\<rparr>"

definition ex_mixed :: workflow_run where
  "ex_mixed = ex_run [(''a'', new_run ''a'' StepStatusDenied), (''c'', new_run ''c'' StepStatusFailed), (''h'', new_run ''h'' StepStatusPending)]"

lemma run_status_depends_on_order:
  "run_Status (updateRunStatus (ex_workflow [ex_a, ex_c, ex_h]) 0 ex_mixed) = RunStatusFailed"
  "run_Status (updateRunStatus (ex_workflow [ex_c, ex_a, ex_h]) 0 ex_mixed) = RunStatusDenied"
  by code_simp+

section \<open>Properties\<close>

text \<open>
  C21. A run that is not cancelled or timed out is set to succeeded exactly when every step of its
  workflow is settled: it belongs to a parallel or loop step, it succeeded, its switch branch was not
  taken, its failure was recovered by a handler, or it is a handler that was never needed.
\<close>

theorem run_succeeds_iff_settled:
  assumes "run_Status run \<noteq> RunStatusCancelled" "run_Status run \<noteq> RunStatusTimedOut"
  shows "run_Status (updateRunStatus wfDef now run) = RunStatusSucceeded \<longleftrightarrow> (\<forall>e \<in> set (wf_Steps wfDef). settled wfDef run (fst e))"
  by (rule updateRunStatus_succeeded [OF assms])

theorem run_succeeds_iff_settled_witness:
  "run_Status (updateRunStatus (ex_workflow [ex_c, ex_h]) 0
     (ex_run [(''c'', new_run ''c'' StepStatusFailed), (''h'', new_run ''h'' StepStatusSucceeded)])) = RunStatusSucceeded \<longleftrightarrow>
   (\<forall>e \<in> set (wf_Steps (ex_workflow [ex_c, ex_h])). settled (ex_workflow [ex_c, ex_h])
     (ex_run [(''c'', new_run ''c'' StepStatusFailed), (''h'', new_run ''h'' StepStatusSucceeded)]) (fst e))"
  by (rule run_succeeds_iff_settled) (simp_all add: ex_run_def)

text \<open>
  C22. When a step fails, exactly the pending steps that depend on it, directly or over other pending
  steps, are skipped; every other step keeps its status. The walk ends on cyclic workflows too.
\<close>

theorem skips_exactly_dependents:
  "stepStatus (skipDependentSteps wfDef now failed run) i = (if skippedBy wfDef run failed i then StepStatusSkipped else stepStatus run i)"
  by (rule skipDependentSteps_status)

end
