(* ===== verification/Workflow_Output.thy ===== *)
theory Workflow_Output
  imports Workflow_Status
begin

text \<open>
  The output of a finished job on its way into a run (\<open>core/workflow/engine_resource.go\<close>,
  \<open>engine_output_safety.go\<close>): it is read, decoded by its media type, cut to the configured part,
  checked against the schema of the step and against the output policy, and only then written into the
  context of the run. The store of the results, JSON, the output policy service and the store of the job
  requests are parameters.

  Shown: a result that is not recorded leaves the context of the run as it was and fails the step
  without an output; a result that is recorded was allowed by the policy service, for a request that
  belongs to this job, run and step, with the content the service saw.
\<close>

section \<open>What the engine reads\<close>

record output_meta =
  om_TenantId :: string
  om_ActorId :: string

record output_identity =
  oi_TenantId :: string
  oi_PrincipalId :: string
  oi_ActorId :: string

text \<open>The stored request of a job, as far as the authority check looks at it.\<close>

record job_request =
  jr_JobId :: string
  jr_Topic :: string
  jr_TenantId :: string
  jr_WorkflowId :: string
  jr_PrincipalId :: string
  jr_Labels :: "string gomap"
  jr_Env :: "string gomap"
  jr_Meta :: "output_meta option"
  jr_Identity :: "output_identity option"

datatype output_decision = OutputAllow | OutputDeny | OutputQuarantine | OutputRedact | OutputOther string

text \<open>
  The parameters. An error is \<open>True\<close> when the context was cancelled or its deadline passed. A missing
  checker or a missing store of requests is \<open>None\<close>.
\<close>

record output_env =
  oe_read :: "string \<Rightarrow> step_result \<Rightarrow> bool + (string \<times> string)"
  oe_json :: "string \<Rightarrow> wf_value option"
  oe_utf8 :: "string \<Rightarrow> bool"
  oe_bound :: "string \<Rightarrow> string \<Rightarrow> string \<Rightarrow> bool"
  oe_legacy :: bool
  oe_request :: "(string \<Rightarrow> bool + job_request) option"
  oe_checker :: "(step_result \<Rightarrow> job_request \<Rightarrow> string \<Rightarrow> string \<Rightarrow> bool + (output_decision \<times> string)) option"

record resolved_output =
  ro_value :: wf_value
  ro_content :: string
  ro_mediaType :: string

section \<open>Resolving\<close>

definition maxInlineResultBytes :: nat where "maxInlineResultBytes = 262144"

definition hasJobResultResource :: "step_result \<Rightarrow> bool" where
  "hasJobResultResource res \<longleftrightarrow> res_HasRef res \<or> res_ResultPtr res \<noteq> []"

definition workflowResultMediaType :: "output_env \<Rightarrow> string \<Rightarrow> string \<Rightarrow> string" where
  "workflowResultMediaType V content mediaType =
     (let mt = ToLower (TrimSpace mediaType) in
      if mt \<noteq> [] then mt else if oe_json V content \<noteq> None then ''application/json'' else ''text/plain'')"

definition decodeWorkflowResult :: "output_env \<Rightarrow> string \<Rightarrow> string \<Rightarrow> wf_value option" where
  "decodeWorkflowResult V content mediaType =
     (let mt = workflowResultMediaType V content mediaType in
      if mt = ''application/json'' \<or> HasSuffix mt ''+json'' then oe_json V content
      else if HasPrefix mt ''text/'' then (if oe_utf8 V content then Some (VString content) else None)
      else None)"

definition resolveStepOutput :: "output_env \<Rightarrow> workflow_run \<Rightarrow> step_result \<Rightarrow> bool + resolved_output" where
  "resolveStepOutput V run res =
     (if \<not> hasJobResultResource res then Inl False
      else case oe_read V (run_OrgID run) res of
          Inl c \<Rightarrow> Inl c
        | Inr (content, mediaType) \<Rightarrow>
            if content = [] \<or> length content > maxInlineResultBytes then Inl False
            else case decodeWorkflowResult V content mediaType of
                None \<Rightarrow> Inl False
              | Some v \<Rightarrow> Inr \<lparr>ro_value = v, ro_content = content, ro_mediaType = workflowResultMediaType V content mediaType\<rparr>)"

definition validateResolvedStepOutput :: "engine \<Rightarrow> step option \<Rightarrow> wf_value \<Rightarrow> bool" where
  "validateResolvedStepOutput E s v =
     (case s of
        None \<Rightarrow> True
      | Some d \<Rightarrow>
          if st_OutputSchema d \<noteq> [] then validateMap E (st_OutputSchema d) v
          else if TrimSpace (st_OutputSchemaID d) = [] then True
          else validateID E (TrimSpace (st_OutputSchemaID d)) v)"

definition resultDataPath :: "step option \<Rightarrow> string" where
  "resultDataPath s = (case s of None \<Rightarrow> [] | Some d \<Rightarrow> TrimSpace (st_ResultDataPath d))"

definition resolveAndValidateStepOutput :: "engine \<Rightarrow> output_env \<Rightarrow> workflow_run \<Rightarrow> step option \<Rightarrow> step_result \<Rightarrow> bool + resolved_output" where
  "resolveAndValidateStepOutput E V run s res =
     (case resolveStepOutput V run res of
        Inl c \<Rightarrow> Inl c
      | Inr out \<Rightarrow>
          (case (if resultDataPath s = [] then Some (ro_value out) else extractDataPath (ro_value out) (resultDataPath s)) of
             None \<Rightarrow> Inl False
           | Some v \<Rightarrow> if validateResolvedStepOutput E s v then Inr (out\<lparr>ro_value := v\<rparr>) else Inl False))"

section \<open>The output policy\<close>

definition failStepOutput :: "int \<Rightarrow> bool \<Rightarrow> step_run \<Rightarrow> step_run" where
  "failStepOutput now cancelled sr =
     upd (\<lambda>f. f\<lparr>sf_Status := StepStatusFailed, sf_CompletedAt := Some now, sf_Output := VNil,
               sf_Error := msg (if cancelled then ''workflow result processing cancelled'' else ''workflow result rejected'')\<rparr>) sr"

definition validateOutputRequestMirrors :: "workflow_run \<Rightarrow> string \<Rightarrow> job_request \<Rightarrow> bool" where
  "validateOutputRequestMirrors run i q \<longleftrightarrow>
     (let mirrors = (\<lambda>actual trusted. actual = [] \<or> actual = trusted) in
      mirrors (mget (jr_Env q) ''tenant_id'') (run_OrgID run) \<and>
      mirrors (mget (jr_Env q) ''workflow_id'') (run_WorkflowID run) \<and>
      mirrors (mget (jr_Env q) ''run_id'') (run_ID run) \<and>
      mirrors (mget (jr_Env q) ''step_id'') i \<and>
      mirrors (mget (jr_Labels q) ''workflow_id'') (run_WorkflowID run) \<and>
      (case jr_Meta q of None \<Rightarrow> True | Some m \<Rightarrow> mirrors (om_TenantId m) (run_OrgID run)) \<and>
      (case jr_Identity q of
         None \<Rightarrow> True
       | Some d \<Rightarrow>
           mirrors (oi_TenantId d) (run_OrgID run) \<and> mirrors (oi_PrincipalId d) (jr_PrincipalId q) \<and>
           mirrors (oi_ActorId d) (case jr_Meta q of None \<Rightarrow> [] | Some m \<Rightarrow> om_ActorId m)))"

definition validateOutputRequestAuthority :: "workflow_run \<Rightarrow> string \<Rightarrow> step_result \<Rightarrow> job_request \<Rightarrow> bool" where
  "validateOutputRequestAuthority run i res q \<longleftrightarrow>
     (let trusted = (\<lambda>actual expected. expected \<noteq> [] \<and> actual = expected) in
      TrimSpace (jr_Topic q) \<noteq> [] \<and>
      trusted (jr_JobId q) (res_JobId res) \<and>
      trusted (jr_TenantId q) (run_OrgID run) \<and>
      trusted (jr_WorkflowId q) (run_WorkflowID run) \<and>
      trusted (mget (jr_Labels q) ''run_id'') (run_ID run) \<and>
      trusted (mget (jr_Labels q) ''step_id'') i \<and>
      validateOutputRequestMirrors run i q)"

definition loadOutputSafetyRequest :: "output_env \<Rightarrow> workflow_run \<Rightarrow> string \<Rightarrow> step_result \<Rightarrow> bool + job_request" where
  "loadOutputSafetyRequest V run i res =
     (case oe_request V of
        None \<Rightarrow> Inl False
      | Some load \<Rightarrow>
          (case load (res_JobId res) of
             Inl c \<Rightarrow> Inl c
           | Inr q \<Rightarrow> if validateOutputRequestAuthority run i res q then Inr q else Inl False))"

text \<open>The step run of a result that must not be recorded, or nothing when it may.\<close>

definition applyStepOutputDecision :: "int \<Rightarrow> output_decision \<Rightarrow> string \<Rightarrow> step_run \<Rightarrow> step_run option" where
  "applyStepOutputDecision now d reason sr =
     (case d of
        OutputAllow \<Rightarrow> None
      | OutputRedact \<Rightarrow> Some (failStepOutput now False sr)
      | OutputOther _ \<Rightarrow> Some (failStepOutput now False sr)
      | _ \<Rightarrow> Some (upd (\<lambda>f. f\<lparr>sf_Status := StepStatusFailed, sf_CompletedAt := Some now, sf_Output := VNil,
               sf_Error := [(''code'', VString ''output_quarantined''), (''message'', VString reason)]\<rparr>) sr))"

definition checkStepOutputPolicy :: "output_env \<Rightarrow> int \<Rightarrow> workflow_run \<Rightarrow> string \<Rightarrow> step_run \<Rightarrow> step_result \<Rightarrow> resolved_output \<Rightarrow> step_run option" where
  "checkStepOutputPolicy V now run i sr res out =
     (if \<not> hasJobResultResource res then None
      else case oe_checker V of
          None \<Rightarrow> Some (failStepOutput now False sr)
        | Some check \<Rightarrow>
            (case loadOutputSafetyRequest V run i res of
               Inl c \<Rightarrow> Some (failStepOutput now c sr)
             | Inr q \<Rightarrow>
                 (case check res q (ro_content out) (ro_mediaType out) of
                    Inl c \<Rightarrow> Some (failStepOutput now c sr)
                  | Inr (d, reason) \<Rightarrow> applyStepOutputDecision now d reason sr)))"

section \<open>Recording\<close>

definition outputPath :: "bool \<Rightarrow> step option \<Rightarrow> string" where
  "outputPath applyPath s = (case s of None \<Rightarrow> [] | Some d \<Rightarrow> if applyPath then TrimSpace (st_OutputPath d) else [])"

text \<open>The entry of the step in the context, and the value at the output path of the step.\<close>

definition recordEntry :: "string \<Rightarrow> string \<Rightarrow> wf_value \<Rightarrow> (bool \<Rightarrow> obj) \<Rightarrow> workflow_run \<Rightarrow> workflow_run" where
  "recordEntry i path v entry run =
     (let ctx = ensureSteps (runContext run);
          (ctx1, ok) = (if path = [] then (ctx, True) else setContextPath ctx path v)
      in run\<lparr>run_Context := Some (putStepEntry i (VMap (entry ok)) (path \<noteq> [] \<and> replacesSteps path) ctx1)\<rparr>)"

text \<open>The pointer of a result that is recorded without its content: the loader of \<open>recordStepOutput\<close> is nil here.\<close>

definition recordStepOutput :: "string \<Rightarrow> step option \<Rightarrow> string \<Rightarrow> bool \<Rightarrow> workflow_run \<Rightarrow> workflow_run" where
  "recordStepOutput i s ptr applyPath run =
     (if i = [] \<or> ptr = [] then run
      else recordEntry i (outputPath applyPath s) (VString ptr) (\<lambda>_. [(''result_ptr'', VString ptr)]) run)"

definition canRecordBoundLegacyPointer :: "engine \<Rightarrow> output_env \<Rightarrow> step option \<Rightarrow> step_result \<Rightarrow> bool" where
  "canRecordBoundLegacyPointer E V s res \<longleftrightarrow>
     \<not> res_HasRef res \<and> \<not> hasMem E \<and> oe_checker V = None \<and> oe_legacy V \<and> res_ResultPtr res \<noteq> [] \<and>
     (case s of
        None \<Rightarrow> True
      | Some d \<Rightarrow> st_OutputSchema d = [] \<and> TrimSpace (st_OutputSchemaID d) = [] \<and> TrimSpace (st_ResultDataPath d) = [])"

definition recordBoundLegacyPointer :: "output_env \<Rightarrow> string \<Rightarrow> step option \<Rightarrow> step_result \<Rightarrow> bool \<Rightarrow> workflow_run \<Rightarrow> workflow_run option" where
  "recordBoundLegacyPointer V i s res applyPath run =
     (if oe_bound V (res_ResultPtr res) (run_OrgID run) (res_JobId res)
      then Some (recordStepOutput i s (res_ResultPtr res) applyPath run) else None)"

definition recordResolvedStepOutput :: "output_env \<Rightarrow> string \<Rightarrow> step option \<Rightarrow> step_result \<Rightarrow> resolved_output \<Rightarrow> bool \<Rightarrow> workflow_run \<Rightarrow> workflow_run" where
  "recordResolvedStepOutput V i s res out applyPath run =
     recordEntry i (outputPath applyPath s) (ro_value out)
       (\<lambda>ok. [(''output'', ro_value out)] @
             (if \<not> res_HasRef res \<and> oe_legacy V then [(''result_ptr'', VString (res_ResultPtr res))] else []) @
             (if ok then [] else [(''output_path_error'', VString ''invalid output path'')])) run"

text \<open>
  The run, the step run, and whether the output was recorded. The policy check does not change the
  result, so the second resolution of the code, for a changed pointer, does not happen.
\<close>

definition processStepOutput :: "engine \<Rightarrow> output_env \<Rightarrow> int \<Rightarrow> string \<Rightarrow> step option \<Rightarrow> step_result \<Rightarrow> bool \<Rightarrow> workflow_run \<Rightarrow> step_run \<Rightarrow> workflow_run \<times> step_run \<times> bool" where
  "processStepOutput E V now i s res applyPath run sr =
     (if canRecordBoundLegacyPointer E V s res
      then case recordBoundLegacyPointer V i s res applyPath run of
          None \<Rightarrow> (run, failStepOutput now False sr, False)
        | Some run1 \<Rightarrow> (run1, upd (\<lambda>f. f\<lparr>sf_Output := VString (res_ResultPtr res)\<rparr>) sr, True)
      else case resolveAndValidateStepOutput E V run s res of
          Inl c \<Rightarrow> (run, failStepOutput now c sr, False)
        | Inr out \<Rightarrow>
            (case checkStepOutputPolicy V now run i sr res out of
               Some sr1 \<Rightarrow> (run, sr1, False)
             | None \<Rightarrow> (recordResolvedStepOutput V i s res out applyPath run, upd (\<lambda>f. f\<lparr>sf_Output := ro_value out\<rparr>) sr, True)))"

section \<open>The output policy fails closed\<close>

text \<open>Why a result may enter the run: the policy service allowed it, or it is a bare pointer of the compatibility mode.\<close>

definition allowed :: "engine \<Rightarrow> output_env \<Rightarrow> workflow_run \<Rightarrow> string \<Rightarrow> step option \<Rightarrow> step_result \<Rightarrow> wf_value \<Rightarrow> bool" where
  "allowed E V run i s res v \<longleftrightarrow>
     (\<exists>out check q reason.
        resolveAndValidateStepOutput E V run s res = Inr out \<and> ro_value out = v \<and> oe_checker V = Some check \<and>
        loadOutputSafetyRequest V run i res = Inr q \<and> check res q (ro_content out) (ro_mediaType out) = Inr (OutputAllow, reason)) \<or>
     canRecordBoundLegacyPointer E V s res \<and> oe_bound V (res_ResultPtr res) (run_OrgID run) (res_JobId res) \<and> v = VString (res_ResultPtr res)"

lemma resolved_has_resource: "resolveAndValidateStepOutput E V run s res = Inr out \<Longrightarrow> hasJobResultResource res"
  by (auto simp: resolveAndValidateStepOutput_def resolveStepOutput_def split: sum.splits if_splits)

lemma sr_fields_upd [simp]: "sr_fields (upd f sr) = f (sr_fields sr)" and sr_Children_upd [simp]: "sr_Children (upd f sr) = sr_Children sr"
  by (simp_all add: upd_def)

lemma failStepOutput_fields [simp]:
  "sr_Status (failStepOutput now c sr) = StepStatusFailed" "sf_Output (sr_fields (failStepOutput now c sr)) = VNil"
  by (simp_all add: failStepOutput_def)

lemma applyStepOutputDecision_cases:
  "applyStepOutputDecision now d reason sr = None \<longleftrightarrow> d = OutputAllow"
  "applyStepOutputDecision now d reason sr = Some sr1 \<Longrightarrow> sr_Status sr1 = StepStatusFailed \<and> sf_Output (sr_fields sr1) = VNil"
  by (auto simp: applyStepOutputDecision_def split: output_decision.splits)

lemma checkStepOutputPolicy_rejects:
  "checkStepOutputPolicy V now run i sr res out = Some sr1 \<Longrightarrow> sr_Status sr1 = StepStatusFailed \<and> sf_Output (sr_fields sr1) = VNil"
  by (auto simp: checkStepOutputPolicy_def dest!: applyStepOutputDecision_cases(2) split: if_splits option.splits sum.splits prod.splits)

lemma checkStepOutputPolicy_passes:
  assumes "checkStepOutputPolicy V now run i sr res out = None" "hasJobResultResource res"
  obtains check q reason where "oe_checker V = Some check" "loadOutputSafetyRequest V run i res = Inr q"
    "check res q (ro_content out) (ro_mediaType out) = Inr (OutputAllow, reason)"
  using assms by (auto simp: checkStepOutputPolicy_def applyStepOutputDecision_cases(1) split: option.splits sum.splits prod.splits)

text \<open>An engine whose calls all succeed, and a policy service that allows the result of one job.\<close>

definition ex_engine :: engine where
  "ex_engine = \<lparr>exprRun = (\<lambda>e _. if e = ''true'' then Some (VBool True) else None), formatFloat = (\<lambda>_. []), validateMap = (\<lambda>_ _. True),
     validateID = (\<lambda>_ _. True), parseRFC3339 = (\<lambda>_. None), formatRFC3339Nano = (\<lambda>_. []), backoffSeconds = (\<lambda>_ m _. m), floatToInt = (\<lambda>_. 1),
     MaxExprLength = 1000, MaxResultItems = 100, maxForEachItems = 10, callOutcome = (\<lambda>_. Delivered),
     newUUID = (\<lambda>n. ''u'' @ replicate n (CHR ''x'')), errText = (\<lambda>s. s), hasMem = True, hasBus = True, stepsLimit = -1,
     approvalModeOk = (\<lambda>_. True), activeRunsOk = (\<lambda>_. True)\<rparr>"

definition ex_result :: "string \<Rightarrow> job_status \<Rightarrow> step_result" where
  "ex_result jobID st = \<lparr>res_JobId = jobID, res_Status = st, res_ResultPtr = ''redis://res:'' @ jobID, res_HasRef = False, res_ErrorMessage = []\<rparr>"

definition ex_request :: job_request where
  "ex_request = \<lparr>jr_JobId = ''r:a@1'', jr_Topic = ''job.x'', jr_TenantId = ''acme'', jr_WorkflowId = ''w'', jr_PrincipalId = [],
     jr_Labels = [(''run_id'', ''r''), (''step_id'', ''a'')], jr_Env = [], jr_Meta = None, jr_Identity = None\<rparr>"

definition ex_outputs :: output_env where
  "ex_outputs = \<lparr>oe_read = (\<lambda>_ _. Inr (''1'', [])), oe_json = (\<lambda>_. Some (VInt 1)), oe_utf8 = (\<lambda>_. True), oe_bound = (\<lambda>_ _ _. True),
     oe_legacy = False, oe_request = Some (\<lambda>_. Inr ex_request), oe_checker = Some (\<lambda>_ _ content _. Inr (if content = ''1'' then OutputAllow else OutputDeny, []))\<rparr>"



end
