(* ===== verification/Workflow_Engine.thy ===== *)
theory Workflow_Engine
  imports Workflow_Output
begin

text \<open>
  The scheduler of the workflow engine (\<open>core/workflow/engine.go\<close>, \<open>scheduleReady\<close>): one pass looks at
  every step of the workflow and, when it is ready, does what its type says - evaluates it on the spot,
  opens an approval gate, arms a timer, starts a child run, fans out over children, or dispatches a job.
  Passes are repeated until none of them completes a step.

  The store of runs and the bus are a record; every call to them is numbered and turns out as the
  engine's \<open>callOutcome\<close> says: delivered, refused, or delivered with the reply lost. Encoding errors and
  requests that cannot be built count as refused calls. The trace lists what left the engine. Timeline
  entries, callbacks, logging and the fields of a job request beyond its id are left out. Step runs and
  their copies among the children of a parent are separate values here, as they are when a run is read
  back from the store.
\<close>

section \<open>The store and the bus\<close>

text \<open>A dispatched job is listed with its run, its step and its id.\<close>

datatype wf_effect = Dispatched string string string | CancelSent string | AlertSent string | TimerArmed int

record wf_store =
  s_runs :: "workflow_run gomap"
  s_active :: "(string \<times> string) list"
  s_workflows :: "workflow gomap"
  s_calls :: nat
  s_trace :: "wf_effect list"

datatype 'a lookup = Found 'a | Missing | Unavailable

definition externalCall :: "engine \<Rightarrow> (wf_store \<Rightarrow> wf_store) \<Rightarrow> wf_store \<Rightarrow> bool \<times> wf_store" where
  "externalCall E effect s =
     (let s' = s\<lparr>s_calls := Suc (s_calls s)\<rparr> in
      case callOutcome E (s_calls s) of Delivered \<Rightarrow> (True, effect s') | Refused \<Rightarrow> (False, s') | Lost \<Rightarrow> (False, effect s'))"

definition readCall :: "engine \<Rightarrow> 'a gomap \<Rightarrow> string \<Rightarrow> wf_store \<Rightarrow> 'a lookup \<times> wf_store" where
  "readCall E m i s =
     (if i = [] then (Unavailable, s)
      else (if callOutcome E (s_calls s) = Delivered then (case map_of m i of None \<Rightarrow> Missing | Some x \<Rightarrow> Found x) else Unavailable,
            s\<lparr>s_calls := Suc (s_calls s)\<rparr>))"

definition GetRun :: "engine \<Rightarrow> string \<Rightarrow> wf_store \<Rightarrow> workflow_run lookup \<times> wf_store" where
  "GetRun E i s = readCall E (s_runs s) i s"

definition GetWorkflow :: "engine \<Rightarrow> string \<Rightarrow> wf_store \<Rightarrow> workflow lookup \<times> wf_store" where
  "GetWorkflow E i s = readCall E (s_workflows s) i s"

definition storeRun :: "workflow_run \<Rightarrow> wf_store \<Rightarrow> wf_store" where
  "storeRun run s = s\<lparr>s_runs := mput (run_ID run) run (s_runs s)\<rparr>"

text \<open>The index of the active runs of an organisation, written after a run and only logged when that fails.\<close>

definition isActiveRunStatus :: "run_status \<Rightarrow> bool" where
  "isActiveRunStatus st =
     (case st of
        RunStatusSucceeded \<Rightarrow> False | RunStatusFailed \<Rightarrow> False | RunStatusDenied \<Rightarrow> False | RunStatusCancelled \<Rightarrow> False
      | RunStatusTimedOut \<Rightarrow> False | _ \<Rightarrow> True)"

definition indexRun :: "string \<Rightarrow> string \<Rightarrow> run_status \<Rightarrow> wf_store \<Rightarrow> wf_store" where
  "indexRun org i st s =
     (if org = [] then s
      else s\<lparr>s_active := (if isActiveRunStatus st then List.insert (org, i) (s_active s) else removeAll (org, i) (s_active s))\<rparr>)"

definition UpdateRun :: "engine \<Rightarrow> workflow_run \<Rightarrow> wf_store \<Rightarrow> bool \<times> wf_store" where
  "UpdateRun E run s =
     (if run_ID run = [] \<or> run_WorkflowID run = [] then (False, s)
      else case externalCall E (storeRun run) s of
          (False, s1) \<Rightarrow> (False, s1)
        | (True, s1) \<Rightarrow> (case externalCall E (indexRun (run_OrgID run) (run_ID run) (run_Status run)) s1 of (_, s2) \<Rightarrow> (True, s2)))"

definition CreateRun :: "engine \<Rightarrow> int \<Rightarrow> workflow_run \<Rightarrow> wf_store \<Rightarrow> bool \<times> wf_store" where
  "CreateRun E now run s =
     (if run_ID run = [] \<or> run_WorkflowID run = [] then (False, s)
      else let run1 = (if run_CreatedAt run = None then run\<lparr>run_CreatedAt := Some now\<rparr> else run)
           in externalCall E (\<lambda>s. indexRun (run_OrgID run1) (run_ID run1) (run_Status run1) (storeRun run1 s)) s)"

definition publish :: "engine \<Rightarrow> wf_effect \<Rightarrow> wf_store \<Rightarrow> bool \<times> wf_store" where
  "publish E e s = externalCall E (\<lambda>s. s\<lparr>s_trace := s_trace s @ [e]\<rparr>) s"

definition putJobContext :: "engine \<Rightarrow> string \<Rightarrow> wf_store \<Rightarrow> string option \<times> wf_store" where
  "putJobContext E jobID s =
     (if \<not> hasMem E then (Some [], s)
      else case externalCall E (\<lambda>s. s) s of (ok, s1) \<Rightarrow> (if ok then Some (''redis://ctx:'' @ jobID) else None, s1))"

definition scheduleAfter :: "int \<Rightarrow> wf_store \<Rightarrow> wf_store" where
  "scheduleAfter delay s = (if delay \<le> 0 then s else s\<lparr>s_trace := s_trace s @ [TimerArmed delay]\<rparr>)"

definition scheduleAt :: "int \<Rightarrow> int \<Rightarrow> wf_store \<Rightarrow> wf_store" where
  "scheduleAt next' now s = scheduleAfter (next' - now) s"

text \<open>A cancellation is tried three times.\<close>

fun publishAttempts :: "engine \<Rightarrow> nat \<Rightarrow> wf_effect \<Rightarrow> wf_store \<Rightarrow> bool \<times> wf_store" where
  "publishAttempts E 0 e s = (False, s)"
| "publishAttempts E (Suc n) e s = (case publish E e s of (ok, s1) \<Rightarrow> if ok then (True, s1) else publishAttempts E n e s1)"

definition publishJobCancel :: "engine \<Rightarrow> string \<Rightarrow> wf_store \<Rightarrow> bool \<times> wf_store" where
  "publishJobCancel E jobID s = (if \<not> hasBus E \<or> jobID = [] then (True, s) else publishAttempts E 3 (CancelSent jobID) s)"

fun publishCancels :: "engine \<Rightarrow> string list \<Rightarrow> wf_store \<Rightarrow> string list \<times> wf_store" where
  "publishCancels E [] s = ([], s)"
| "publishCancels E (j # js) s =
     (case publishJobCancel E j s of
        (ok, s1) \<Rightarrow> (case publishCancels E js s1 of (bad, s2) \<Rightarrow> (if ok then bad else j # bad, s2)))"

section \<open>Timing out a run\<close>

text \<open>The jobs of the running and waiting step runs, each once.\<close>

definition cancelJobIDs :: "workflow_run \<Rightarrow> string list" where
  "cancelJobIDs run = rev (remdups (rev (concat (map (\<lambda>(_, sr). collectCancelableJobs sr) (run_Steps run)))))"

definition timeoutRun :: "engine \<Rightarrow> workflow \<Rightarrow> int \<Rightarrow> workflow_run \<Rightarrow> wf_store \<Rightarrow> bool \<times> workflow_run \<times> wf_store" where
  "timeoutRun E wfDef now run s =
     (let filled = fillSteps wfDef run;
          run1 = filled\<lparr>run_Steps := map (\<lambda>(i, sr). (i, timeoutStepRun now sr)) (run_Steps filled), run_Status := RunStatusTimedOut,
            run_CompletedAt := Some now, run_Error := mput ''message'' (VString ''workflow run timed out'') (run_Error filled)\<rparr>
      in case UpdateRun E run1 s of
           (False, s1) \<Rightarrow> (False, run1, s1)
         | (True, s1) \<Rightarrow> (case publishCancels E (cancelJobIDs filled) s1 of (bad, s2) \<Rightarrow> (bad = [], run1, s2)))"

text \<open>The instant from which the timeout of a run counts.\<close>

definition timeoutBase :: "workflow_run \<Rightarrow> int option" where
  "timeoutBase run =
     (case run_StartedAt run of
        Some t \<Rightarrow> Some t
      | None \<Rightarrow> if run_Status run = RunStatusPending then None else run_CreatedAt run)"

text \<open>Whether the run timed out; nothing on an error.\<close>

definition enforceWorkflowTimeout :: "engine \<Rightarrow> workflow \<Rightarrow> int \<Rightarrow> workflow_run \<Rightarrow> wf_store \<Rightarrow> bool option \<times> workflow_run \<times> wf_store" where
  "enforceWorkflowTimeout E wfDef now run s =
     (if wf_TimeoutSec wfDef \<le> 0 \<or> isTerminalRunStatus (run_Status run) then (Some False, run, s)
      else case timeoutBase run of
          None \<Rightarrow> (Some False, run, s)
        | Some t \<Rightarrow>
            if now < t + seconds (wf_TimeoutSec wfDef) then (Some False, run, s)
            else case timeoutRun E wfDef now run s of (ok, run1, s1) \<Rightarrow> (if ok then Some True else None, run1, s1))"

section \<open>Steps that complete on the spot\<close>

text \<open>One tick of the scheduler: the run, the children dispatched so far, and the store.\<close>

record tick =
  t_run :: workflow_run
  t_disp :: "string list"
  t_store :: wf_store

definition putT :: "string \<Rightarrow> step_run \<Rightarrow> tick \<Rightarrow> tick" where
  "putT i sr t = t\<lparr>t_run := put_step i sr (t_run t)\<rparr>"

definition isFresh :: "step_run \<Rightarrow> bool" where
  "isFresh sr \<longleftrightarrow> sr_Status sr = StepStatusNone \<or> sr_Status sr = StepStatusPending"

definition startSR :: "int \<Rightarrow> step_run \<Rightarrow> step_run" where
  "startSR now = upd (\<lambda>f. f\<lparr>sf_Status := StepStatusRunning, sf_StartedAt := Some now\<rparr>)"

definition started :: "int \<Rightarrow> step_run \<Rightarrow> step_run" where
  "started now = upd (\<lambda>f. f\<lparr>sf_StartedAt := (case sf_StartedAt f of None \<Rightarrow> Some now | Some t \<Rightarrow> Some t)\<rparr>)"

definition markFailed :: "string \<Rightarrow> step_run \<Rightarrow> step_run" where
  "markFailed m = upd (\<lambda>f. f\<lparr>sf_Status := StepStatusFailed, sf_Error := msg m\<rparr>)"

definition failSR :: "int \<Rightarrow> string \<Rightarrow> step_run \<Rightarrow> step_run" where
  "failSR now m = upd (\<lambda>f. f\<lparr>sf_Status := StepStatusFailed, sf_CompletedAt := Some now, sf_Error := msg m\<rparr>)"

definition succeedSR :: "int \<Rightarrow> step_run \<Rightarrow> step_run" where
  "succeedSR now = upd (\<lambda>f. f\<lparr>sf_Status := StepStatusSucceeded, sf_CompletedAt := Some now\<rparr>)"

definition outputSR :: "wf_value \<Rightarrow> step_run \<Rightarrow> step_run" where
  "outputSR v = upd (\<lambda>f. f\<lparr>sf_Output := v\<rparr>)"

definition clearError :: "step_run \<Rightarrow> step_run" where
  "clearError = upd (\<lambda>f. f\<lparr>sf_Error := []\<rparr>)"

definition inputSR :: "obj \<Rightarrow> step_run \<Rightarrow> step_run" where
  "inputSR m = upd (\<lambda>f. f\<lparr>sf_Input := m\<rparr>)"

definition quoted :: "string \<Rightarrow> string" where
  "quoted s = CHR 0x22 # s @ [CHR 0x22]"

text \<open>A step that ends with an output, which also goes into the context of the run.\<close>

definition completeT :: "int \<Rightarrow> string \<Rightarrow> step \<Rightarrow> wf_value \<Rightarrow> step_run \<Rightarrow> tick \<Rightarrow> tick" where
  "completeT now i s v sr t =
     (let t1 = putT i (outputSR v (succeedSR now sr)) t in t1\<lparr>t_run := recordStepInlineOutput i s v (t_run t1)\<rparr>)"

definition conditionGate :: "engine \<Rightarrow> int \<Rightarrow> string \<Rightarrow> step \<Rightarrow> step_run \<Rightarrow> tick \<Rightarrow> tick option" where
  "conditionGate E now i s sr t =
     (if st_Condition s = [] \<or> st_Type s = StepTypeCondition \<or> st_Type s = StepTypeSwitch then None
      else case evalCondition E (st_Condition s) (buildEvalScope (t_run t) VNil) of
          None \<Rightarrow> Some (putT i (failSR now (errText E (st_Condition s)) (started now sr)) t)
        | Some False \<Rightarrow> Some (putT i (succeedSR now (upd (\<lambda>f. f\<lparr>sf_StartedAt := Some now\<rparr>) sr)) t)
        | Some True \<Rightarrow> None)"

definition conditionStep :: "engine \<Rightarrow> int \<Rightarrow> string \<Rightarrow> step \<Rightarrow> step_run \<Rightarrow> tick \<Rightarrow> tick" where
  "conditionStep E now i s sr t =
     (let sr1 = startSR now sr; cond = TrimSpace (st_Condition s) in
      if \<not> isFresh sr then putT i sr t
      else if cond = [] then putT i (failSR now ''condition expression required'' sr1) t
      else case evalCondition E cond (buildEvalScope (t_run t) VNil) of
          None \<Rightarrow> putT i (failSR now (errText E cond) sr1) t
        | Some b \<Rightarrow>
            if validateInlineOutput E s (VBool b) then completeT now i s (VBool b) sr1 t
            else putT i (failSR now (errText E ''schema'') sr1) t)"

text \<open>A duration of the delay of a step, saturated like a subtraction of times.\<close>

definition delayForStep :: "engine \<Rightarrow> step \<Rightarrow> int \<Rightarrow> int option" where
  "delayForStep E s now =
     (if st_DelaySec s < 0 then None
      else if st_DelaySec s > 0 then Some (seconds (st_DelaySec s))
      else if TrimSpace (st_DelayUntil s) \<noteq> []
      then (case parseRFC3339 E (TrimSpace (st_DelayUntil s)) of
              None \<Rightarrow> None
            | Some target \<Rightarrow> Some (if target > now then min (target - now) (2 ^ 63 - 1) else 0))
      else if st_TimeoutSec s > 0 then Some (seconds (st_TimeoutSec s))
      else Some 0)"

definition delayStep :: "engine \<Rightarrow> int \<Rightarrow> string \<Rightarrow> step \<Rightarrow> step_run \<Rightarrow> tick \<Rightarrow> tick" where
  "delayStep E now i s sr t =
     (let next' = (\<lambda>n. upd (\<lambda>f. f\<lparr>sf_NextAttemptAt := n\<rparr>)) in
      case delayForStep E s now of
        None \<Rightarrow> putT i (failSR now (errText E ''delay'') sr) t
      | Some delay \<Rightarrow>
          if isFresh sr
          then if delay \<le> 0 then putT i (next' None (succeedSR now (startSR now sr))) t
               else (putT i (next' (Some (now + delay)) (startSR now sr)) t)\<lparr>t_store := scheduleAfter delay (t_store t)\<rparr>
          else if sr_Status sr \<noteq> StepStatusRunning then putT i sr t
          else case sr_NextAttemptAt sr of
              None \<Rightarrow> putT i sr t
            | Some n \<Rightarrow>
                if n \<le> now then putT i (next' None (succeedSR now sr)) t
                else (putT i sr t)\<lparr>t_store := scheduleAt n now (t_store t)\<rparr>)"

definition notifyStep :: "engine \<Rightarrow> int \<Rightarrow> string \<Rightarrow> step \<Rightarrow> step_run \<Rightarrow> tick \<Rightarrow> tick" where
  "notifyStep E now i s sr t =
     (if \<not> isFresh sr then t
      else case evalEntries E (buildEvalScope (t_run t) VNil) (stepInput s) of
          None \<Rightarrow> putT i (failSR now (errText E ''input'') sr) t
        | Some payload \<Rightarrow>
            if \<not> hasBus E then putT i (failSR now ''bus unavailable'' sr) t
            else case publish E (AlertSent i) (t_store t) of
                (False, st) \<Rightarrow> (putT i (failSR now (errText E ''publish'') sr) t)\<lparr>t_store := st\<rparr>
              | (True, st) \<Rightarrow> (putT i (succeedSR now (upd (\<lambda>f. f\<lparr>sf_StartedAt := Some now\<rparr>) sr)) t)\<lparr>t_store := st\<rparr>)"

definition transformStep :: "engine \<Rightarrow> int \<Rightarrow> string \<Rightarrow> step \<Rightarrow> step_run \<Rightarrow> tick \<Rightarrow> tick" where
  "transformStep E now i s sr t =
     (let sr1 = startSR now sr in
      if \<not> isFresh sr then putT i sr t
      else if st_Input s = None then completeT now i s (VMap []) sr1 t
      else case evalEntries E (buildEvalScope (t_run t) VNil) (stepInput s) of
          None \<Rightarrow> putT i (failSR now (''transform expression error: '' @ errText E ''input'') sr1) t
        | Some m \<Rightarrow>
            if validateInlineOutput E s (VMap m) then completeT now i s (VMap m) sr1 t
            else putT i (failSR now (errText E ''schema'') sr1) t)"

text \<open>The value of a storage operation: an error, or the context afterwards and the output.\<close>

definition storageOp :: "obj \<Rightarrow> obj \<Rightarrow> string + (obj \<times> obj)" where
  "storageOp input ctx =
     (let str = (\<lambda>k. case map_of input k of Some (VString v) \<Rightarrow> v | _ \<Rightarrow> []);
          operation = str ''operation''; key = str ''key''; val = (case map_of input ''value'' of Some v \<Rightarrow> v | None \<Rightarrow> VNil);
          out = (\<lambda>rest. [(''operation'', VString operation), (''key'', VString key)] @ rest)
      in if operation = ''read''
         then if key = [] then Inl ''storage read: key is required''
              else (case getContextPath ctx key of
                      None \<Rightarrow> Inl (''storage read: key '' @ quoted key @ '' not found'')
                    | Some v \<Rightarrow> Inr (ctx, out [(''value'', v)]))
         else if operation = ''write''
         then if key = [] then Inl ''storage write: key is required''
              else Inr (fst (setContextPath ctx key val), out [(''value'', val)])
         else if operation = ''delete''
         then if key = [] then Inl ''storage delete: key is required'' else Inr (deleteContextPath ctx key, out [])
         else Inl (''unknown storage operation: '' @ quoted operation))"

definition storageStep :: "engine \<Rightarrow> int \<Rightarrow> string \<Rightarrow> step \<Rightarrow> step_run \<Rightarrow> tick \<Rightarrow> tick" where
  "storageStep E now i s sr t =
     (let sr1 = startSR now sr; withCtx = (\<lambda>ctx. t\<lparr>t_run := (t_run t)\<lparr>run_Context := Some ctx\<rparr>\<rparr>) in
      if \<not> isFresh sr then putT i sr t
      else case evalEntries E (buildEvalScope (t_run t) VNil) (stepInput s) of
          None \<Rightarrow> putT i (failSR now (''storage input expression error: '' @ errText E ''input'') sr1) t
        | Some input \<Rightarrow>
            (case storageOp input (runContext (t_run t)) of
               Inl m \<Rightarrow> putT i (failSR now m sr1) (withCtx (runContext (t_run t)))
             | Inr (ctx, out) \<Rightarrow>
                 if validateInlineOutput E s (VMap out) then completeT now i s (VMap out) sr1 (withCtx ctx)
                 else putT i (failSR now (errText E ''schema'') sr1) (withCtx ctx)))"

section \<open>Switches\<close>

definition stepRunOf :: "workflow_run \<Rightarrow> string \<Rightarrow> step_run" where
  "stepRunOf run i = (case map_of (run_Steps run) i of None \<Rightarrow> new_run i StepStatusNone | Some sr \<Rightarrow> sr)"

definition switchInvalid :: "workflow \<Rightarrow> switch_case list \<Rightarrow> string \<Rightarrow> string option" where
  "switchInvalid wfDef cases dflt =
     (case find (\<lambda>c. step_def wfDef (sc_StepID c) = None) cases of
        Some c \<Rightarrow> Some (''switch case target step '' @ quoted (sc_StepID c) @ '' not found'')
      | None \<Rightarrow>
          if dflt \<noteq> [] \<and> step_def wfDef dflt = None then Some (''switch default target step '' @ quoted dflt @ '' not found'') else None)"

text \<open>The chosen step and the name of the case.\<close>

definition switchTarget :: "engine \<Rightarrow> wf_value \<Rightarrow> switch_case list \<Rightarrow> string \<Rightarrow> string \<times> string" where
  "switchTarget E v cases dflt =
     (case find (\<lambda>c. switchValueEquals E v (sc_MatchValue c)) cases of
        Some c \<Rightarrow> (if sc_StepID c = [] then dflt else sc_StepID c, Sprint E (sc_MatchValue c))
      | None \<Rightarrow> (dflt, ''default''))"

definition switchOthers :: "switch_case list \<Rightarrow> string \<Rightarrow> string \<Rightarrow> string list" where
  "switchOthers cases dflt target = remdups (filter (\<lambda>i. i \<noteq> [] \<and> i \<noteq> target) (map sc_StepID cases @ [dflt]))"

definition notTaken :: "int \<Rightarrow> string \<Rightarrow> workflow_run \<Rightarrow> workflow_run" where
  "notTaken now i run =
     (let sr = stepRunOf run i in
      if isTerminalStepStatus (sr_Status sr) then run
      else put_step i (upd (\<lambda>f. f\<lparr>sf_Status := StepStatusCancelled, sf_CompletedAt := Some now,
             sf_Error := [(''message'', VString ''branch not taken''), (''reason'', VString switchBranchNotTakenReason)]\<rparr>) (started now sr)) run)"

definition openTarget :: "string \<Rightarrow> workflow_run \<Rightarrow> workflow_run" where
  "openTarget i run =
     (let sr = stepRunOf run i in
      put_step i (if sr_Status sr = StepStatusNone then upd (\<lambda>f. f\<lparr>sf_Status := StepStatusPending\<rparr>) sr else sr) run)"

definition takeBranch :: "engine \<Rightarrow> int \<Rightarrow> string \<Rightarrow> step \<Rightarrow> step_run \<Rightarrow> wf_value \<Rightarrow> switch_case list \<Rightarrow> string \<Rightarrow> tick \<Rightarrow> tick" where
  "takeBranch E now i s sr v cases dflt t =
     (case switchTarget E v cases dflt of
        (target, matched) \<Rightarrow>
          if TrimSpace target = [] then putT i (failSR now ''no matching case'' sr) t
          else let t1 = t\<lparr>t_run := fold (notTaken now) (switchOthers cases dflt target) (t_run t)\<rparr>;
                   out = VMap [(''matched_case'', VString matched), (''matched_value'', v), (''target_step'', VString target)]
               in if \<not> validateInlineOutput E s out then putT i (failSR now (errText E ''schema'') sr) t1
                  else let t2 = completeT now i s out (clearError sr) t1 in t2\<lparr>t_run := openTarget target (t_run t2)\<rparr>)"

definition switchStep :: "engine \<Rightarrow> workflow \<Rightarrow> int \<Rightarrow> string \<Rightarrow> step \<Rightarrow> step_run \<Rightarrow> tick \<Rightarrow> tick" where
  "switchStep E wfDef now i s sr t =
     (let sr1 = (if isFresh sr then startSR now sr else sr); failed = (\<lambda>m. putT i (failSR now m sr1) t);
          cond = TrimSpace (st_Condition s); scope = buildEvalScope (t_run t) VNil
      in if cond = [] then failed ''switch expression required''
         else case Eval E cond scope of
             None \<Rightarrow> failed (errText E cond)
           | Some v \<Rightarrow>
               (case (parseSwitchCases E s scope, parseSwitchDefault E s scope) of
                  (None, _) \<Rightarrow> failed (errText E ''cases'')
                | (Some cases, None) \<Rightarrow> failed (errText E ''default'')
                | (Some cases, Some dflt) \<Rightarrow>
                    (case switchInvalid wfDef cases dflt of
                       Some m \<Rightarrow> failed m
                     | None \<Rightarrow> takeBranch E now i s sr1 v cases dflt t)))"

section \<open>Jobs\<close>

text \<open>Keys of the earlier input of a step, such as the error of a handler, are kept.\<close>

definition mergeInput :: "obj \<Rightarrow> obj \<Rightarrow> obj" where
  "mergeInput payload old = fold (\<lambda>(k, v) m. if map_of m k = None then mput k v m else m) old payload"

text \<open>
  A step run is written to the store before its job is published. When either fails the step run goes
  back to pending; \<open>attempts\<close> is the number of attempts it goes back to.
\<close>

definition revertSR :: "int \<Rightarrow> step_run \<Rightarrow> step_run" where
  "revertSR attempts = upd (\<lambda>f. f\<lparr>sf_Status := StepStatusPending, sf_JobID := [], sf_Attempts := attempts, sf_StartedAt := None\<rparr>)"

definition persistAndPublish :: "engine \<Rightarrow> string \<Rightarrow> int \<Rightarrow> step_run \<Rightarrow> workflow_run \<Rightarrow> tick \<Rightarrow> tick" where
  "persistAndPublish E i attempts sr run t =
     (let run1 = put_step i sr run; back = put_step i (revertSR attempts sr) run1 in
      case UpdateRun E run1 (t_store t) of
        (False, st) \<Rightarrow> t\<lparr>t_run := back, t_store := st\<rparr>
      | (True, st) \<Rightarrow>
          (case publish E (Dispatched (run_ID run) i (sr_JobID sr)) st of
             (True, st1) \<Rightarrow> t\<lparr>t_run := run1, t_store := st1\<rparr>
           | (False, st1) \<Rightarrow> t\<lparr>t_run := back, t_store := snd (UpdateRun E back st1)\<rparr>))"

definition approvalStep :: "engine \<Rightarrow> workflow \<Rightarrow> int \<Rightarrow> string \<Rightarrow> step \<Rightarrow> step_run \<Rightarrow> tick \<Rightarrow> tick" where
  "approvalStep E wfDef now i s sr t =
     (let jobID = jobIDFor (run_ID (t_run t)) i 1 in
      if \<not> isFresh sr then putT i sr t
      else case buildApprovalPayload E wfDef (t_run t) s i now of
          None \<Rightarrow> putT i (markFailed (errText E ''approval'') sr) t
        | Some payload \<Rightarrow>
            (case putJobContext E jobID (t_store t) of
               (ptr, st) \<Rightarrow>
                 if ptr = None \<or> ptr = Some []
                 then (putT i (inputSR payload (markFailed (if ptr = None then errText E ''context'' else ''approval context store unavailable'') sr)) t)\<lparr>t_store := st\<rparr>
                 else persistAndPublish E i 0
                        (upd (\<lambda>f. f\<lparr>sf_Status := StepStatusWaiting, sf_StartedAt := Some now, sf_JobID := jobID, sf_Attempts := 1,
                                   sf_Input := mergeInput payload (sf_Input f)\<rparr>) sr)
                        ((t_run t)\<lparr>run_Status := RunStatusWaiting\<rparr>) (t\<lparr>t_store := st\<rparr>)))"

definition dispatchJob :: "engine \<Rightarrow> int \<Rightarrow> string \<Rightarrow> step \<Rightarrow> step_run \<Rightarrow> string \<Rightarrow> tick \<Rightarrow> tick" where
  "dispatchJob E now i s sr jobID t =
     (case buildJobPayload E (t_run t) s VNil of
        None \<Rightarrow> putT i (markFailed (errText E ''input'') sr) t
      | Some payload \<Rightarrow>
          (case putJobContext E jobID (t_store t) of
             (None, st) \<Rightarrow> (putT i (inputSR payload (markFailed (errText E ''context'') sr)) t)\<lparr>t_store := st\<rparr>
           | (Some _, st) \<Rightarrow>
               persistAndPublish E i (sr_Attempts sr)
                 (upd (\<lambda>f. f\<lparr>sf_Status := StepStatusRunning, sf_StartedAt := Some now, sf_Attempts := sf_Attempts f + 1, sf_JobID := jobID,
                            sf_Input := mergeInput payload (sf_Input f)\<rparr>) sr) (t_run t) (t\<lparr>t_store := st\<rparr>)))"

definition dispatchStep :: "engine \<Rightarrow> int \<Rightarrow> string \<Rightarrow> step \<Rightarrow> step_run \<Rightarrow> tick \<Rightarrow> tick" where
  "dispatchStep E now i s sr t =
     (let jobID = jobIDFor (run_ID (t_run t)) i (sr_Attempts sr + 1) in
      case sr_NextAttemptAt sr of
        Some n \<Rightarrow> if n > now then (putT i sr t)\<lparr>t_store := scheduleAt n now (t_store t)\<rparr> else dispatchJob E now i s sr jobID t
      | None \<Rightarrow> dispatchJob E now i s sr jobID t)"

section \<open>Loops\<close>

text \<open>Publishing the job of a child of a parallel or loop step: the child afterwards and whether it runs.\<close>

definition launchChild :: "engine \<Rightarrow> int \<Rightarrow> string \<Rightarrow> string \<Rightarrow> obj option \<Rightarrow> step_run \<Rightarrow> wf_store \<Rightarrow> step_run \<times> bool \<times> wf_store" where
  "launchChild E now runID c payload child st =
     (let jobID = jobIDFor runID c (sr_Attempts child + 1) in
      case payload of
        None \<Rightarrow> (markFailed (errText E ''input'') child, False, st)
      | Some m \<Rightarrow>
          (case putJobContext E jobID st of
             (None, st1) \<Rightarrow> (inputSR m (markFailed (errText E ''context'') child), False, st1)
           | (Some _, st1) \<Rightarrow>
               (case publish E (Dispatched runID c jobID) st1 of
                  (False, st2) \<Rightarrow> (markFailed (errText E ''publish'') child, False, st2)
                | (True, st2) \<Rightarrow>
                    (upd (\<lambda>f. f\<lparr>sf_Status := StepStatusRunning, sf_StartedAt := Some now, sf_Attempts := sf_Attempts f + 1,
                               sf_JobID := jobID, sf_Input := m\<rparr>) child, True, st2))))"

definition notDue :: "int \<Rightarrow> step_run \<Rightarrow> int option" where
  "notDue now sr = (case sr_NextAttemptAt sr of Some n \<Rightarrow> if n > now then Some n else None | None \<Rightarrow> None)"

definition putChildT :: "string \<Rightarrow> string \<Rightarrow> step_run \<Rightarrow> step_run \<Rightarrow> tick \<Rightarrow> tick" where
  "putChildT i c child parent t = putT i (put_child c child parent) (putT c child t)"

definition loopContinues :: "engine \<Rightarrow> loop_config \<Rightarrow> obj \<Rightarrow> bool option" where
  "loopContinues E cfg scope =
     (case (if lc_condition cfg = [] then Some True else evalCondition E (lc_condition cfg) scope) of
        None \<Rightarrow> None
      | Some c \<Rightarrow>
          (case (if lc_until cfg = [] then Some False else evalCondition E (lc_until cfg) scope) of
             None \<Rightarrow> None
           | Some u \<Rightarrow> Some (c \<and> \<not> u)))"

definition loopIteration :: "engine \<Rightarrow> int \<Rightarrow> string \<Rightarrow> step \<Rightarrow> obj \<Rightarrow> nat \<Rightarrow> step_run \<Rightarrow> tick \<Rightarrow> tick" where
  "loopIteration E now i body scope n sr t =
     (let c = childID i n;
          child = (case map_of (sr_Children sr) c of None \<Rightarrow> new_run c StepStatusPending | Some x \<Rightarrow> x)
      in case notDue now child of
           Some d \<Rightarrow> (putChildT i c child sr t)\<lparr>t_store := scheduleAt d now (t_store t)\<rparr>
         | None \<Rightarrow>
             (case launchChild E now (run_ID (t_run t)) c (buildLoopPayload E (t_run t) body scope) child (t_store t) of
                (child1, _, st) \<Rightarrow> (putChildT i c child1 sr t)\<lparr>t_store := st\<rparr>))"

definition loopNext :: "engine \<Rightarrow> int \<Rightarrow> string \<Rightarrow> step \<Rightarrow> loop_config \<Rightarrow> step \<Rightarrow> step_run \<Rightarrow> tick \<Rightarrow> tick" where
  "loopNext E now i s cfg body sr t =
     (let n = length (sr_Children sr);
          prev = (if n > 0 then loopPreviousOutput (t_run t) (childID i (n - 1)) else VNil);
          scope = buildLoopEvalScope (t_run t) n prev;
          finished = completeT now i s (VMap [(''iterations'', VInt (int n)), (''last_output'', prev)]) (clearError sr) t
      in if int n \<ge> lc_max cfg
         then if lc_condition cfg \<noteq> [] \<or> lc_until cfg \<noteq> []
              then putT i (failSR now (''loop max_iterations exceeded ('' @ Itoa (lc_max cfg) @ '')'') sr) t
              else finished
         else case loopContinues E cfg scope of
             None \<Rightarrow> putT i (failSR now (errText E ''loop'') sr) t
           | Some False \<Rightarrow> finished
           | Some True \<Rightarrow> loopIteration E now i body scope n sr t)"

definition loopStep :: "engine \<Rightarrow> workflow \<Rightarrow> int \<Rightarrow> string \<Rightarrow> step \<Rightarrow> step_run \<Rightarrow> tick \<Rightarrow> tick" where
  "loopStep E wfDef now i s sr t =
     (case resolveLoopConfig s of
        None \<Rightarrow> putT i (failSR now (errText E ''loop'') (started now sr)) t
      | Some cfg \<Rightarrow>
          (case (if lc_body cfg = [] then Some s else step_def wfDef (lc_body cfg)) of
             None \<Rightarrow> putT i (failSR now (''loop body_step '' @ quoted (lc_body cfg) @ '' not found'') (started now sr)) t
           | Some body \<Rightarrow>
               (let sr1 = (if isFresh sr then upd (\<lambda>f. f\<lparr>sf_Status := StepStatusRunning\<rparr>) (started now sr) else sr);
                    sts = map (\<lambda>(_, c). sr_Status c) (sr_Children sr1)
                in if list_ex (\<lambda>st. st = StepStatusFailed \<or> st = StepStatusCancelled \<or> st = StepStatusTimedOut) sts
                   then putT i (upd (\<lambda>f. f\<lparr>sf_Status := StepStatusFailed, sf_CompletedAt := Some now,
                          sf_Error := (if sf_Error f = [] then msg ''loop child iteration failed'' else sf_Error f)\<rparr>) sr1) t
                   else if list_ex (\<lambda>st. st = StepStatusRunning \<or> st = StepStatusWaiting \<or> st = StepStatusPending) sts then putT i sr1 t
                   else loopNext E now i s cfg body sr1 t)))"

section \<open>Fan-out\<close>

text \<open>The state of a fan-out: the run, the parent, how many children run, the dispatched children and the store.\<close>

record fan =
  f_run :: workflow_run
  f_parent :: step_run
  f_running :: int
  f_disp :: "string list"
  f_store :: wf_store

definition putFan :: "string \<Rightarrow> step_run \<Rightarrow> fan \<Rightarrow> fan" where
  "putFan c child w = w\<lparr>f_run := put_step c child (f_run w), f_parent := put_child c child (f_parent w)\<rparr>"

definition launchedFan :: "string \<Rightarrow> bool \<Rightarrow> wf_store \<Rightarrow> fan \<Rightarrow> fan" where
  "launchedFan c ok st w =
     w\<lparr>f_running := (if ok then f_running w + 1 else f_running w), f_disp := (if ok then c # f_disp w else f_disp w), f_store := st\<rparr>"

definition childProblem :: "workflow \<Rightarrow> string gomap \<Rightarrow> string \<Rightarrow> string \<Rightarrow> string option" where
  "childProblem wfDef owners i c =
     (if step_def wfDef c = None then Some (''parallel child step '' @ quoted c @ '' not found'')
      else case map_of owners c of
          Some owner \<Rightarrow> if owner \<noteq> i then Some (''parallel child step '' @ quoted c @ '' is reserved by '' @ quoted owner) else None
        | None \<Rightarrow> None)"

definition pendingChild :: "workflow_run \<Rightarrow> string \<Rightarrow> step_run" where
  "pendingChild run c =
     (let sr = stepRunOf run c in if sr_Status sr = StepStatusNone then upd (\<lambda>f. f\<lparr>sf_Status := StepStatusPending\<rparr>) sr else sr)"

text \<open>
  The children of a parallel step before it starts: the ids looked at, what is wrong, the run and the
  parent.
\<close>

fun initChildren :: "workflow \<Rightarrow> string gomap \<Rightarrow> string \<Rightarrow> string list \<Rightarrow> workflow_run \<Rightarrow> step_run \<Rightarrow> string list \<times> string option \<times> workflow_run \<times> step_run" where
  "initChildren wfDef owners i [] run sr = ([], None, run, sr)"
| "initChildren wfDef owners i (c # cs) run sr =
     (case childProblem wfDef owners i c of
        Some m \<Rightarrow> ([c], Some m, run, sr)
      | None \<Rightarrow>
          (let child = pendingChild run c in
           case initChildren wfDef owners i cs (put_step c child run) (put_child c child sr) of
             (active, err, run1, sr1) \<Rightarrow> (c # active, err, run1, sr1)))"

definition keepChildren :: "string list \<Rightarrow> step_run \<Rightarrow> step_run" where
  "keepChildren active sr = StepRun (sr_fields sr) (filter (\<lambda>(c, _). c \<in> set active) (sr_Children sr))"

definition cancelChild :: "engine \<Rightarrow> int \<Rightarrow> string \<Rightarrow> fan \<Rightarrow> fan" where
  "cancelChild E now c w =
     (case (case map_of (sr_Children (f_parent w)) c of Some x \<Rightarrow> Some x | None \<Rightarrow> map_of (run_Steps (f_run w)) c) of
        None \<Rightarrow> w
      | Some child \<Rightarrow>
          if isTerminalStepStatus (sr_Status child) then w
          else (putFan c (upd (\<lambda>f. f\<lparr>sf_Status := StepStatusCancelled, sf_CompletedAt := Some now,
                   sf_Error := (if sf_Error f = [] then msg ''cancelled by parallel strategy'' else sf_Error f)\<rparr>) child) w)
                 \<lparr>f_store := snd (publishJobCancel E (sr_JobID child) (f_store w))\<rparr>)"

definition cancelParallelChildren :: "engine \<Rightarrow> int \<Rightarrow> string list \<Rightarrow> fan \<Rightarrow> fan" where
  "cancelParallelChildren E now ids w = fold (cancelChild E now) ids w"

definition atCapacity :: "step \<Rightarrow> fan \<Rightarrow> bool" where
  "atCapacity s w \<longleftrightarrow> st_MaxParallel s > 0 \<and> f_running w \<ge> st_MaxParallel s"

text \<open>
  One child of the dispatch loop. The loop of the code stops at capacity; the number of running children
  does not go down in it, so skipping the rest is the same.
\<close>

definition parallelChild :: "engine \<Rightarrow> workflow \<Rightarrow> int \<Rightarrow> step \<Rightarrow> string \<Rightarrow> fan \<Rightarrow> fan" where
  "parallelChild E wfDef now s c w =
     (let child = (case map_of (run_Steps (f_run w)) c of None \<Rightarrow> new_run c StepStatusPending | Some x \<Rightarrow> x) in
      case step_def wfDef c of
        None \<Rightarrow> w
      | Some d \<Rightarrow>
          if atCapacity s w \<or> \<not> isFresh child \<or> c \<in> set (f_disp w) then w
          else case notDue now child of
              Some n \<Rightarrow> w\<lparr>f_store := scheduleAt n now (f_store w)\<rparr>
            | None \<Rightarrow>
                (case launchChild E now (run_ID (f_run w)) c (buildJobPayload E (f_run w) d VNil) child (f_store w) of
                   (child1, ok, st) \<Rightarrow> launchedFan c ok st (putFan c child1 w)))"

definition endFan :: "string \<Rightarrow> fan \<Rightarrow> tick" where
  "endFan i w = \<lparr>t_run = put_step i (f_parent w) (f_run w), t_disp = f_disp w, t_store = f_store w\<rparr>"

text \<open>The end of a parallel step: the children that still run are cancelled.\<close>

definition parallelDone :: "engine \<Rightarrow> int \<Rightarrow> string \<Rightarrow> step \<Rightarrow> string list \<Rightarrow> bool \<Rightarrow> string \<Rightarrow> fan \<Rightarrow> tick" where
  "parallelDone E now i s ids success m w0 =
     (let w = cancelParallelChildren E now ids w0; sr = f_parent w; out = VMap (aggregateParallelOutputs (f_run w) ids);
          t = \<lparr>t_run = f_run w, t_disp = f_disp w, t_store = f_store w\<rparr>
      in if \<not> success then putT i (failSR now m sr) t
         else if validateInlineOutput E s out then completeT now i s out (clearError sr) t
         else putT i (failSR now (errText E ''schema'') sr) t)"

definition parallelStep :: "engine \<Rightarrow> workflow \<Rightarrow> string gomap \<Rightarrow> int \<Rightarrow> string \<Rightarrow> step \<Rightarrow> step_run \<Rightarrow> tick \<Rightarrow> tick" where
  "parallelStep E wfDef owners now i s sr t =
     (case resolveParallelConfig E s (buildEvalScope (t_run t) VNil) of
        None \<Rightarrow> putT i (failSR now (errText E ''parallel'') (started now sr)) t
      | Some (ids, strat, required) \<Rightarrow>
          if managed owners i
          then putT i (failSR now (''parallel step id '' @ quoted i @ '' is reserved as child of '' @ quoted (mget owners i)) (started now sr)) t
          else if ids = [] then completeT now i s (VMap []) (upd (\<lambda>f. f\<lparr>sf_StartedAt := Some now\<rparr>) sr) t
          else let sr1 = (if isFresh sr then upd (\<lambda>f. f\<lparr>sf_Status := StepStatusRunning\<rparr>) (started now sr) else sr) in
            (case initChildren wfDef owners i ids (t_run t) sr1 of
               (active, err, run1, sr2) \<Rightarrow>
                 (let sr3 = keepChildren active sr2 in
                  case err of
                    Some m \<Rightarrow> putT i (failSR now m (started now sr3)) (t\<lparr>t_run := run1\<rparr>)
                  | None \<Rightarrow>
                      (case summarizeParallelChildren sr3 ids of
                         (succeeded, failed, running) \<Rightarrow>
                           (let w = \<lparr>f_run = run1, f_parent = sr3, f_running = running, f_disp = t_disp t, f_store = t_store t\<rparr> in
                            case evaluateParallelOutcome strat required (int (length ids)) succeeded failed of
                              Some (success, m) \<Rightarrow> parallelDone E now i s ids success m w
                            | None \<Rightarrow>
                                (let w1 = fold (parallelChild E wfDef now s) ids w
                                 in endFan i (w1\<lparr>f_parent := upd (\<lambda>f. f\<lparr>sf_Status := StepStatusRunning\<rparr>) (f_parent w1)\<rparr>)))))))"

section \<open>For each\<close>

text \<open>The items of a step, evaluated once and kept; or what is wrong with them.\<close>

definition forEachItems :: "engine \<Rightarrow> step \<Rightarrow> step_run \<Rightarrow> workflow_run \<Rightarrow> string + wf_value list" where
  "forEachItems E s sr run =
     (case sf_ResolvedItems (sr_fields sr) of
        Some items \<Rightarrow> Inr items
      | None \<Rightarrow>
          (case evalForEach E (st_ForEach s) (buildEvalScope run VNil) of
             None \<Rightarrow> Inl (errText E (st_ForEach s))
           | Some items \<Rightarrow>
               if maxForEachItems E > 0 \<and> int (length items) > maxForEachItems E
               then Inl (''for_each fan-out exceeds limit ('' @ Itoa (int (length items)) @ '' > '' @ Itoa (maxForEachItems E) @ '')'')
               else Inr items))"

definition precreate :: "string \<Rightarrow> nat \<Rightarrow> fan \<Rightarrow> fan" where
  "precreate i n w =
     (let c = childID i n in
      if map_of (sr_Children (f_parent w)) c = None then putFan c (new_run c StepStatusPending) w else w)"

definition runningChildren :: "step_run \<Rightarrow> int" where
  "runningChildren sr = int (length (filter (\<lambda>(_, c). sr_Status c = StepStatusRunning) (sr_Children sr)))"

text \<open>The job of an item. The attempt is reserved before the job is published and given back when that fails.\<close>

definition launchItem :: "engine \<Rightarrow> int \<Rightarrow> string \<Rightarrow> step \<Rightarrow> wf_value \<Rightarrow> step_run \<Rightarrow> fan \<Rightarrow> fan" where
  "launchItem E now c s item child w =
     (let jobID = jobIDFor (run_ID (f_run w)) c (sr_Attempts child + 1) in
      case buildJobPayload E (f_run w) s item of
        None \<Rightarrow> putFan c (markFailed (errText E ''input'') child) w
      | Some m \<Rightarrow>
          (case putJobContext E jobID (f_store w) of
             (None, st) \<Rightarrow> launchedFan c False st (putFan c (inputSR m (markFailed (errText E ''context'') child)) w)
           | (Some _, st) \<Rightarrow>
               (let child1 = upd (\<lambda>f. f\<lparr>sf_StartedAt := Some now, sf_Attempts := sf_Attempts f + 1, sf_JobID := jobID, sf_Input := m,
                      sf_Item := item\<rparr>) child
                in case publish E (Dispatched (run_ID (f_run w)) c jobID) st of
                     (False, st1) \<Rightarrow> launchedFan c False st1 (putFan c (revertSR (sr_Attempts child) child1) w)
                   | (True, st1) \<Rightarrow> launchedFan c True st1 (putFan c (upd (\<lambda>f. f\<lparr>sf_Status := StepStatusRunning\<rparr>) child1) w))))"

definition forEachChild :: "engine \<Rightarrow> int \<Rightarrow> string \<Rightarrow> step \<Rightarrow> nat \<times> wf_value \<Rightarrow> fan \<Rightarrow> fan" where
  "forEachChild E now i s e w =
     (let c = childID i (fst e);
          child = (case map_of (sr_Children (f_parent w)) c of None \<Rightarrow> new_run c StepStatusPending | Some x \<Rightarrow> x)
      in if atCapacity s w \<or> \<not> isFresh child \<or> c \<in> set (f_disp w) then w
         else case notDue now child of
             Some n \<Rightarrow> w\<lparr>f_store := scheduleAt n now (f_store w)\<rparr>
           | None \<Rightarrow> launchItem E now c s (snd e) child w)"

definition forEachStep :: "engine \<Rightarrow> int \<Rightarrow> string \<Rightarrow> step \<Rightarrow> step_run \<Rightarrow> tick \<Rightarrow> tick" where
  "forEachStep E now i s sr t =
     (case forEachItems E s sr (t_run t) of
        Inl m \<Rightarrow> putT i (failSR now m (started now sr)) t
      | Inr items \<Rightarrow>
          (let sr1 = upd (\<lambda>f. f\<lparr>sf_ResolvedItems := Some items\<rparr>) sr in
           if items = [] then putT i (outputSR (VList []) (succeedSR now (upd (\<lambda>f. f\<lparr>sf_StartedAt := Some now\<rparr>) sr1))) t
           else let w0 = \<lparr>f_run = t_run t, f_parent = sr1, f_running = 0, f_disp = t_disp t, f_store = t_store t\<rparr>;
                    w1 = fold (precreate i) [0..<length items] w0;
                    parent = upd (\<lambda>f. f\<lparr>sf_Status := StepStatusRunning\<rparr>) (started now (f_parent w1));
                    w2 = w1\<lparr>f_parent := parent, f_running := runningChildren parent\<rparr>
                in endFan i (fold (forEachChild E now i s) (zip [0..<length items] items) w2)))"

section \<open>Sub-workflows\<close>

definition childMetadata :: "workflow_run \<Rightarrow> string \<Rightarrow> string \<Rightarrow> string gomap" where
  "childMetadata run i wid =
     (let stack = normalizeCallStackForRun run @ [wid];
          m = mput ''call_stack'' (encodeCallStack stack) (mput ''parent_step_id'' i (mput ''parent_run_id'' (run_ID run) (run_Metadata run)))
      in if run_DryRun run \<or> mget (run_Metadata run) ''dry_run'' = ''true'' then mput ''dry_run'' ''true'' m else m)"

definition childRun :: "int \<Rightarrow> string \<Rightarrow> string \<Rightarrow> string \<Rightarrow> obj \<Rightarrow> workflow_run \<Rightarrow> workflow_run" where
  "childRun now i wid rid input run =
     (let dry = (run_DryRun run \<or> mget (run_Metadata run) ''dry_run'' = ''true'') in
      \<lparr>run_ID = rid, run_WorkflowID = wid, run_OrgID = run_OrgID run, run_TeamID = run_TeamID run, run_Input = input,
       run_Context = Some [], run_Status = RunStatusPending, run_StartedAt = None, run_CompletedAt = None, run_Output = [], run_Error = [],
       run_Steps = [], run_TriggeredBy = run_TriggeredBy run, run_CreatedAt = Some now,
       run_Labels = (if dry then mput ''dry_run'' ''true'' (run_Labels run) else run_Labels run),
       run_Metadata = childMetadata run i wid, run_RerunOf = [], run_RerunStep = [], run_DryRun = dry\<rparr>)"

definition childInfo :: "string \<Rightarrow> string \<Rightarrow> run_status \<Rightarrow> wf_value" where
  "childInfo wid rid st = VMap [(''workflow_id'', VString wid), (''run_id'', VString rid), (''status'', VString (runStatusString st))]"

text \<open>Starting a child run. Starting a run is an argument, since it comes back here for the child.\<close>

definition startChild :: "engine \<Rightarrow> (string \<Rightarrow> string \<Rightarrow> wf_store \<Rightarrow> bool \<times> wf_store) \<Rightarrow> int \<Rightarrow> string \<Rightarrow> sub_config \<Rightarrow> step_run \<Rightarrow> tick \<Rightarrow> tick" where
  "startChild E start now i cfg sr t =
     (let failed = (\<lambda>m st. (putT i (failSR now m (started now sr)) t)\<lparr>t_store := st\<rparr>); wid = sub_workflowID cfg; st0 = t_store t in
      if containsString (normalizeCallStackForRun (t_run t)) wid then failed (''circular workflow reference detected: '' @ wid) st0
      else case normalizeSubWorkflowInput (t_run t) (sub_input cfg) of
          None \<Rightarrow> failed (errText E ''input_mapping'') st0
        | Some input \<Rightarrow>
            (case GetWorkflow E wid st0 of
               (Found _, st) \<Rightarrow>
                 (let rid = newUUID E (s_calls st) in
                  case CreateRun E now (childRun now i wid rid input (t_run t)) st of
                    (False, st1) \<Rightarrow> failed (''create child run: '' @ errText E ''create'') st1
                  | (True, st1) \<Rightarrow>
                      (case start wid rid st1 of
                         (False, st2) \<Rightarrow> failed (''start child run: '' @ errText E ''start'') st2
                       | (True, st2) \<Rightarrow>
                           (putT i (upd (\<lambda>f. f\<lparr>sf_Status := StepStatusRunning, sf_CompletedAt := None, sf_JobID := rid, sf_Error := [],
                                              sf_Output := childInfo wid rid RunStatusRunning\<rparr>) (started now sr)) t)\<lparr>t_store := st2\<rparr>))
             | (_, st) \<Rightarrow> failed (''get child workflow: '' @ errText E ''workflow'') st))"

definition childFailure :: "string \<Rightarrow> workflow_run \<Rightarrow> string" where
  "childFailure rid child =
     (if subWorkflowChildErrorMessage (run_Steps child) \<noteq> [] then subWorkflowChildErrorMessage (run_Steps child)
      else if errorMessage (run_Error child) \<noteq> [] then errorMessage (run_Error child)
      else ''child run '' @ rid @ '' ended with status '' @ runStatusString (run_Status child))"

definition pollChild :: "engine \<Rightarrow> int \<Rightarrow> string \<Rightarrow> step \<Rightarrow> sub_config \<Rightarrow> string \<Rightarrow> step_run \<Rightarrow> tick \<Rightarrow> tick" where
  "pollChild E now i s cfg rid sr t =
     (case GetRun E rid (t_store t) of
        (Found child, st) \<Rightarrow>
          (let t1 = t\<lparr>t_store := st\<rparr>; sr1 = outputSR (childInfo (sub_workflowID cfg) rid (run_Status child)) sr in
           if \<not> isTerminalRunStatus (run_Status child) then putT i (upd (\<lambda>f. f\<lparr>sf_Status := StepStatusRunning\<rparr>) sr1) t1
           else if run_Status child = RunStatusSucceeded
           then (case buildSubWorkflowOutput E (t_run t) child (sub_output cfg) of
                   None \<Rightarrow> putT i (failSR now (errText E ''output_mapping'') sr1) t1
                 | Some out \<Rightarrow>
                     if validateInlineOutput E s (VMap out) then completeT now i s (VMap out) (clearError sr1) t1
                     else putT i (failSR now (errText E ''schema'') sr1) t1)
           else putT i (upd (\<lambda>f. f\<lparr>sf_Status := subWorkflowTerminalStatus (run_Status child), sf_CompletedAt := Some now,
                  sf_Error := [(''message'', VString (childFailure rid child)), (''child_run_id'', VString rid),
                               (''child_status'', VString (runStatusString (run_Status child)))]\<rparr>) sr1) t1)
      | (_, st) \<Rightarrow> (putT i (failSR now (''get child run: '' @ errText E ''run'') (started now sr)) t)\<lparr>t_store := st\<rparr>)"

definition subWorkflowStep :: "engine \<Rightarrow> (string \<Rightarrow> string \<Rightarrow> wf_store \<Rightarrow> bool \<times> wf_store) \<Rightarrow> int \<Rightarrow> string \<Rightarrow> step \<Rightarrow> step_run \<Rightarrow> tick \<Rightarrow> tick" where
  "subWorkflowStep E start now i s sr t =
     (case resolveSubWorkflowConfig E s (buildEvalScope (t_run t) VNil) of
        None \<Rightarrow> putT i (failSR now (errText E ''subworkflow'') (started now sr)) t
      | Some cfg \<Rightarrow>
          if TrimSpace (sr_JobID sr) = [] then startChild E start now i cfg sr t
          else pollChild E now i s cfg (TrimSpace (sr_JobID sr)) sr t)"

section \<open>One tick\<close>

definition activateOnErrorHandler :: "workflow \<Rightarrow> string \<Rightarrow> step_run \<Rightarrow> workflow_run \<Rightarrow> workflow_run" where
  "activateOnErrorHandler wfDef i sr run =
     (case handler wfDef i of
        None \<Rightarrow> run
      | Some h \<Rightarrow>
          if map_of (wf_Steps wfDef) h = None \<or> \<not> isFresh (stepRunOf run h) then run
          else put_step h (upd (\<lambda>f. f\<lparr>sf_Status := StepStatusPending,
                 sf_Input := mput ''error'' (VMap (mput ''step_id'' (VString i) (sr_Error sr))) (sf_Input f)\<rparr>) (stepRunOf run h)) run)"

text \<open>A step whose status lets the scheduler look at it again.\<close>

definition statusOpen :: "step \<Rightarrow> step_run \<Rightarrow> bool" where
  "statusOpen s sr \<longleftrightarrow>
     sr_Status sr \<in> {StepStatusNone, StepStatusPending, StepStatusWaiting} \<or>
     (if st_ForEach s = [] \<and> st_Type s \<noteq> StepTypeParallel \<and> st_Type s \<noteq> StepTypeLoop \<and> st_Type s \<noteq> StepTypeSubWorkflow
      then st_Type s = StepTypeDelay else sr_Status sr = StepStatusRunning)"

definition notActivated :: "workflow \<Rightarrow> string \<Rightarrow> step_run \<Rightarrow> bool" where
  "notActivated wfDef i sr \<longleftrightarrow>
     isOnErrorTarget wfDef i \<and>
     (sr_Status sr = StepStatusNone \<or> (case map_of (sr_Input sr) ''error'' of None \<Rightarrow> True | Some v \<Rightarrow> v = VNil))"

text \<open>What the type of a ready step asks for.\<close>

definition runStep :: "engine \<Rightarrow> (string \<Rightarrow> string \<Rightarrow> wf_store \<Rightarrow> bool \<times> wf_store) \<Rightarrow> int \<Rightarrow> workflow \<Rightarrow> string gomap \<Rightarrow> string \<Rightarrow> step \<Rightarrow> step_run \<Rightarrow> tick \<Rightarrow> tick" where
  "runStep E start now wfDef owners i s sr t =
     (let other = (if st_ForEach s \<noteq> [] then forEachStep E now i s sr t
                   else if st_Type s = StepTypeStorage then storageStep E now i s sr t
                   else dispatchStep E now i s sr t)
      in case st_Type s of
           StepTypeCondition \<Rightarrow> conditionStep E now i s sr t
         | StepTypeApproval \<Rightarrow> approvalStep E wfDef now i s sr t
         | StepTypeDelay \<Rightarrow> delayStep E now i s sr t
         | StepTypeNotify \<Rightarrow> notifyStep E now i s sr t
         | StepTypeTransform \<Rightarrow> transformStep E now i s sr t
         | StepTypeSwitch \<Rightarrow> switchStep E wfDef now i s sr t
         | StepTypeSubWorkflow \<Rightarrow> subWorkflowStep E start now i s sr t
         | StepTypeParallel \<Rightarrow> parallelStep E wfDef owners now i s sr t
         | StepTypeLoop \<Rightarrow> loopStep E wfDef now i s sr t
         | _ \<Rightarrow> other)"

text \<open>One step of the workflow in one pass. Entries without a definition are skipped.\<close>

definition processStep :: "engine \<Rightarrow> (string \<Rightarrow> string \<Rightarrow> wf_store \<Rightarrow> bool \<times> wf_store) \<Rightarrow> int \<Rightarrow> workflow \<Rightarrow> string \<times> step option \<Rightarrow> tick \<Rightarrow> tick" where
  "processStep E start now wfDef e t =
     (let i = fst e; owners = collectParallelChildOwners wfDef; sr = stepRunOf (t_run t) i in
      case snd e of
        None \<Rightarrow> t
      | Some s \<Rightarrow>
          if managed owners i \<or> managed (collectLoopBodyOwners wfDef) i \<or> \<not> statusOpen s sr \<or>
             \<not> depsSatisfied s (t_run t) wfDef \<or> notActivated wfDef i sr
          then t
          else case conditionGate E now i s sr t of
              Some t1 \<Rightarrow> t1
            | None \<Rightarrow> runStep E start now wfDef owners i s sr t)"

definition countTerminalSteps :: "workflow_run \<Rightarrow> nat" where
  "countTerminalSteps run = length (filter (\<lambda>(_, sr). isTerminalStepStatus (sr_Status sr)) (run_Steps run))"

text \<open>The handlers of the steps that failed in a pass.\<close>

definition activateFailed :: "workflow \<Rightarrow> workflow_run \<Rightarrow> workflow_run" where
  "activateFailed wfDef run =
     fold (\<lambda>i r. let sr = stepRunOf r i in
              if sr_Status sr = StepStatusFailed \<or> sr_Status sr = StepStatusTimedOut then activateOnErrorHandler wfDef i sr r else r)
          (map fst (run_Steps run)) run"

definition onePass :: "engine \<Rightarrow> (string \<Rightarrow> string \<Rightarrow> wf_store \<Rightarrow> bool \<times> wf_store) \<Rightarrow> int \<Rightarrow> workflow \<Rightarrow> tick \<Rightarrow> tick" where
  "onePass E start now wfDef t =
     (let t1 = fold (processStep E start now wfDef) (wf_Steps wfDef) t in t1\<lparr>t_run := activateFailed wfDef (t_run t1)\<rparr>)"

fun passes :: "engine \<Rightarrow> (string \<Rightarrow> string \<Rightarrow> wf_store \<Rightarrow> bool \<times> wf_store) \<Rightarrow> int \<Rightarrow> workflow \<Rightarrow> nat \<Rightarrow> tick \<Rightarrow> tick" where
  "passes E start now wfDef 0 t = t"
| "passes E start now wfDef (Suc n) t =
     (let t1 = onePass E start now wfDef t in
      if countTerminalSteps (t_run t1) \<le> countTerminalSteps (t_run t) then t1 else passes E start now wfDef n t1)"

definition scheduleReady :: "engine \<Rightarrow> (string \<Rightarrow> string \<Rightarrow> wf_store \<Rightarrow> bool \<times> wf_store) \<Rightarrow> int \<Rightarrow> workflow \<Rightarrow> workflow_run \<Rightarrow> wf_store \<Rightarrow> bool \<times> workflow_run \<times> wf_store" where
  "scheduleReady E start now wfDef run s =
     (if isTerminalRunStatus (run_Status run) then (True, run, s)
      else let run1 = (if run_Status run = RunStatusPending then run\<lparr>run_Status := RunStatusRunning, run_StartedAt := Some now\<rparr> else run) in
        case enforceWorkflowTimeout E wfDef now run1 s of
          (None, run2, s1) \<Rightarrow> (False, run2, s1)
        | (Some True, run2, s1) \<Rightarrow> (True, run2, s1)
        | (Some False, run2, s1) \<Rightarrow>
            (let t = passes E start now wfDef (max 1 (length (wf_Steps wfDef))) \<lparr>t_run = run2, t_disp = [], t_store = s1\<rparr>;
                 run3 = updateRunStatus wfDef now (t_run t)
             in case UpdateRun E run3 (t_store t) of (ok, s2) \<Rightarrow> (ok, run3, s2)))"

end
