(* ===== verification/Workflow_Runs.thy ===== *)
theory Workflow_Runs
  imports Workflow_Engine
begin

text \<open>
  The operations on workflow runs (\<open>core/workflow/engine_state.go\<close>, \<open>engine.go\<close>): starting and advancing
  a run, taking in the result of a job, approving a step, cancelling, rerunning. Each one holds the lock
  of its run, so it is one step of the system; the calls it makes to the store and the bus can fail or
  lose their reply at any point.
\<close>

section \<open>Starting\<close>

definition approvalIDs :: "workflow \<Rightarrow> string list" where
  "approvalIDs wfDef = List.map_filter (\<lambda>(i, s). case s of Some d \<Rightarrow> if st_Type d = StepTypeApproval then Some i else None | None \<Rightarrow> None) (wf_Steps wfDef)"

definition requestedApprovalModeForWorkflow :: "workflow \<Rightarrow> string" where
  "requestedApprovalModeForWorkflow wfDef =
     (let ids = approvalIDs wfDef;
          nested = (\<lambda>i. case step_def wfDef i of
                      None \<Rightarrow> False
                    | Some d \<Rightarrow> list_ex (\<lambda>dep. TrimSpace dep \<in> set ids) (st_DependsOn d) \<or> (TrimSpace (st_OnError d) \<noteq> [] \<and> TrimSpace (st_OnError d) \<in> set ids))
      in if ids = [] then []
         else if length ids = 1 then ''single''
         else if list_ex nested ids then ''custom'' else ''multi'')"

definition validateWorkflowDefinition :: "engine \<Rightarrow> workflow \<Rightarrow> bool" where
  "validateWorkflowDefinition E wfDef \<longleftrightarrow>
     (stepsLimit E = -1 \<or> int (length (wf_Steps wfDef)) \<le> stepsLimit E) \<and>
     (let m = requestedApprovalModeForWorkflow wfDef in m = [] \<or> approvalModeOk E m)"

text \<open>The size of the index of active runs; nothing when the store does not answer.\<close>

definition CountActiveRuns :: "engine \<Rightarrow> string \<Rightarrow> wf_store \<Rightarrow> int option \<times> wf_store" where
  "CountActiveRuns E org s =
     (if org = [] then (None, s)
      else (if callOutcome E (s_calls s) = Delivered then Some (int (length (filter (\<lambda>e. fst e = org) (s_active s)))) else None,
            s\<lparr>s_calls := Suc (s_calls s)\<rparr>))"

type_synonym starter = "string \<Rightarrow> string \<Rightarrow> wf_store \<Rightarrow> bool \<times> wf_store"

text \<open>The limits a pending run has to meet.\<close>

definition admitRun :: "engine \<Rightarrow> workflow \<Rightarrow> workflow_run \<Rightarrow> wf_store \<Rightarrow> bool \<times> wf_store" where
  "admitRun E wfDef run s =
     (if run_Status run \<noteq> RunStatusPending then (True, s)
      else if \<not> validateWorkflowDefinition E wfDef then (False, s)
      else if TrimSpace (run_OrgID run) = [] then (True, s)
      else case CountActiveRuns E (run_OrgID run) s of
          (None, s1) \<Rightarrow> (False, s1)
        | (Some n, s1) \<Rightarrow> (activeRunsOk E n, s1))"

definition advanceRun :: "engine \<Rightarrow> starter \<Rightarrow> int \<Rightarrow> workflow \<Rightarrow> workflow_run \<Rightarrow> wf_store \<Rightarrow> bool \<times> wf_store" where
  "advanceRun E start now wfDef run s =
     (if isTerminalRunStatus (run_Status run) then (True, s)
      else case admitRun E wfDef run s of
          (False, s1) \<Rightarrow> (False, s1)
        | (True, s1) \<Rightarrow> (case scheduleReady E start now wfDef run s1 of (ok, _, s2) \<Rightarrow> (ok, s2)))"

text \<open>A run whose workflow is gone, also on a second look, is failed.\<close>

definition orphanRun :: "engine \<Rightarrow> starter \<Rightarrow> int \<Rightarrow> string \<Rightarrow> workflow_run \<Rightarrow> wf_store \<Rightarrow> bool \<times> wf_store" where
  "orphanRun E start now wid run s =
     (case GetWorkflow E wid s of
        (Found wfDef, s1) \<Rightarrow> advanceRun E start now wfDef run s1
      | (Unavailable, s1) \<Rightarrow> (False, s1)
      | (Missing, s1) \<Rightarrow>
          UpdateRun E (run\<lparr>run_Status := RunStatusFailed, run_CompletedAt := Some now, run_Error := msg ''workflow deleted''\<rparr>) s1)"

definition startRunLocked :: "engine \<Rightarrow> starter \<Rightarrow> int \<Rightarrow> starter" where
  "startRunLocked E start now wid rid s =
     (case GetWorkflow E wid s of
        (Unavailable, s1) \<Rightarrow> (False, s1)
      | (Missing, s1) \<Rightarrow>
          (case GetRun E rid s1 of
             (Found run, s2) \<Rightarrow> orphanRun E start now wid run s2
           | (_, s2) \<Rightarrow> (False, s2))
      | (Found wfDef, s1) \<Rightarrow>
          (case GetRun E rid s1 of
             (Found run, s2) \<Rightarrow> advanceRun E start now wfDef run s2
           | (_, s2) \<Rightarrow> (False, s2)))"

text \<open>
  Child runs are started from inside their parents. The depth bounds how far. The call stack of a run
  grows with every level and a workflow on it is refused, so the number of workflows is enough as long
  as their ids contain no separator of the stack.
\<close>

fun StartRun :: "engine \<Rightarrow> int \<Rightarrow> nat \<Rightarrow> starter" where
  "StartRun E now 0 = (\<lambda>wid rid s. (False, s))"
| "StartRun E now (Suc n) = startRunLocked E (StartRun E now n) now"

section \<open>Results\<close>

text \<open>
  A result for the current job of a step run: the run and the step run afterwards, and the delay of a
  retry. Nothing when the result belongs to another job or was processed before.
\<close>

definition takeResult :: "engine \<Rightarrow> output_env \<Rightarrow> int \<Rightarrow> string \<Rightarrow> step option \<Rightarrow> step_result \<Rightarrow> bool \<Rightarrow> workflow_run \<Rightarrow> step_run \<Rightarrow>
    (workflow_run \<times> step_run \<times> int option) option" where
  "takeResult E V now i s res applyPath run sr =
     (if sr_JobID sr \<noteq> [] \<and> sr_JobID sr \<noteq> res_JobId res then None
      else let sr1 = upd (\<lambda>f. f\<lparr>sf_JobID := res_JobId res, sf_Attempts := max (sf_Attempts f) (parseAttempt (res_JobId res))\<rparr>) sr in
        if shouldIgnoreProcessedResult sr1 then None
        else case applyResult E sr1 res s now of
            (sr2, Some delay) \<Rightarrow> Some (run, sr2, Some delay)
          | (sr2, None) \<Rightarrow>
              if sr_Status sr2 = StepStatusSucceeded \<and> hasJobResultResource res
              then (case processStepOutput E V now i s res applyPath run sr2 of (run1, sr3, _) \<Rightarrow> Some (run1, sr3, None))
              else Some (run, sr2, None))"

definition failedStatus :: "step_status \<Rightarrow> bool" where
  "failedStatus st \<longleftrightarrow> st = StepStatusFailed \<or> st = StepStatusDenied \<or> st = StepStatusTimedOut"

definition cancelSibling :: "engine \<Rightarrow> int \<Rightarrow> string \<times> step_run \<Rightarrow> fan \<Rightarrow> fan" where
  "cancelSibling E now e w =
     (case e of (c, child) \<Rightarrow>
        if isTerminalStepStatus (sr_Status child) then w
        else (putFan c (upd (\<lambda>f. f\<lparr>sf_Status := StepStatusCancelled, sf_CompletedAt := Some now,
                 sf_Error := (if sf_Error f = [] then msg ''cancelled: forEach sibling failed'' else sf_Error f)\<rparr>) child) w)
               \<lparr>f_store := snd (publishJobCancel E (sr_JobID child) (f_store w))\<rparr>)"

definition cancelForEachSiblings :: "engine \<Rightarrow> int \<Rightarrow> fan \<Rightarrow> fan" where
  "cancelForEachSiblings E now w = fold (cancelSibling E now) (sr_Children (f_parent w)) w"

definition parentStatus :: "step option \<Rightarrow> int \<Rightarrow> step_run \<Rightarrow> step_run" where
  "parentStatus s now parent =
     (if Option.bind s (\<lambda>d. Some (st_Type d)) = Some StepTypeLoop
      then upd (\<lambda>f. f\<lparr>sf_Status := StepStatusRunning, sf_CompletedAt := None\<rparr>) parent
      else let st = aggregateChildren parent in
        upd (\<lambda>f. f\<lparr>sf_Status := st, sf_CompletedAt := (if st = StepStatusSucceeded \<or> failedStatus st then Some now else sf_CompletedAt f)\<rparr>) parent)"

definition armRetry :: "int option \<Rightarrow> wf_store \<Rightarrow> wf_store" where
  "armRetry d s = (case d of None \<Rightarrow> s | Some delay \<Rightarrow> scheduleAfter delay s)"

text \<open>The result of a child of a for-each or loop step.\<close>

definition childResult :: "engine \<Rightarrow> output_env \<Rightarrow> workflow \<Rightarrow> int \<Rightarrow> string \<Rightarrow> string \<Rightarrow> step_result \<Rightarrow> workflow_run \<Rightarrow> wf_store \<Rightarrow> (workflow_run \<times> wf_store) option" where
  "childResult E V wfDef now base i res run s =
     (let d = step_def wfDef base; parent = stepRunOf run base;
          child = (case map_of (sr_Children parent) i of Some c \<Rightarrow> c | None \<Rightarrow> stepRunOf run i)
      in case takeResult E V now i d res False run child of
           None \<Rightarrow> None
         | Some (run1, child1, delay) \<Rightarrow>
             (let parent1 = parentStatus d now (put_child i child1 parent);
                  w0 = \<lparr>f_run = put_step i child1 run1, f_parent = parent1, f_running = 0, f_disp = [], f_store = s\<rparr>;
                  bad = failedStatus (sr_Status parent1);
                  w1 = (if bad \<and> (case d of None \<Rightarrow> False | Some x \<Rightarrow> st_ForEach x \<noteq> []) then cancelForEachSiblings E now w0 else w0);
                  run2 = put_step base (f_parent w1) (f_run w1);
                  run3 = (if bad then activateOnErrorHandler wfDef base (f_parent w1) run2 else run2)
              in Some (run3, armRetry delay (f_store w1))))"

definition stepResult :: "engine \<Rightarrow> output_env \<Rightarrow> workflow \<Rightarrow> int \<Rightarrow> string \<Rightarrow> step_result \<Rightarrow> workflow_run \<Rightarrow> wf_store \<Rightarrow> (workflow_run \<times> wf_store) option" where
  "stepResult E V wfDef now i res run s =
     (case takeResult E V now i (step_def wfDef i) res True run (stepRunOf run i) of
        None \<Rightarrow> None
      | Some (run1, sr, delay) \<Rightarrow>
          (let run2 = put_step i sr run1;
               run3 = (if delay = None \<and> failedStatus (sr_Status sr) then activateOnErrorHandler wfDef i sr run2 else run2)
           in Some (run3, armRetry delay s)))"

text \<open>Writing the run back is tried twice.\<close>

definition updateTwice :: "engine \<Rightarrow> workflow_run \<Rightarrow> wf_store \<Rightarrow> bool \<times> wf_store" where
  "updateTwice E run s = (case UpdateRun E run s of (True, s1) \<Rightarrow> (True, s1) | (False, s1) \<Rightarrow> UpdateRun E run s1)"

definition resumeRun :: "engine \<Rightarrow> starter \<Rightarrow> int \<Rightarrow> workflow \<Rightarrow> workflow_run \<Rightarrow> wf_store \<Rightarrow> bool \<times> wf_store" where
  "resumeRun E start now wfDef run s =
     (if run_Status run = RunStatusRunning
      then (case scheduleReady E start now wfDef run s of (ok, _, s1) \<Rightarrow> (ok, s1)) else (True, s))"

definition finishResult :: "engine \<Rightarrow> starter \<Rightarrow> int \<Rightarrow> workflow \<Rightarrow> workflow_run \<Rightarrow> wf_store \<Rightarrow> bool \<times> wf_store" where
  "finishResult E start now wfDef run s =
     (let run1 = updateRunStatus wfDef now run in
      case updateTwice E run1 s of
        (False, s1) \<Rightarrow> (False, s1)
      | (True, s1) \<Rightarrow> (True, snd (resumeRun E start now wfDef run1 s1)))"

definition applyJobResult :: "engine \<Rightarrow> output_env \<Rightarrow> starter \<Rightarrow> int \<Rightarrow> workflow \<Rightarrow> step_result \<Rightarrow> string \<Rightarrow> workflow_run \<Rightarrow> wf_store \<Rightarrow> bool \<times> wf_store" where
  "applyJobResult E V start now wfDef res i run s =
     (case enforceWorkflowTimeout E wfDef now run s of
        (Some False, run1, s1) \<Rightarrow>
          (case splitForEachStep i of
             (base, child) \<Rightarrow>
               (case (if child \<noteq> [] then childResult E V wfDef now base i res run1 s1 else stepResult E V wfDef now i res run1 s1) of
                  None \<Rightarrow> (True, s1)
                | Some (run2, s2) \<Rightarrow> finishResult E start now wfDef run2 s2))
      | (_, _, s1) \<Rightarrow> (True, s1))"

definition handleJobResultLocked :: "engine \<Rightarrow> output_env \<Rightarrow> starter \<Rightarrow> int \<Rightarrow> step_result \<Rightarrow> string \<Rightarrow> string \<Rightarrow> wf_store \<Rightarrow> bool \<times> wf_store" where
  "handleJobResultLocked E V start now res rid i s =
     (case GetRun E rid s of
        (Found run, s1) \<Rightarrow>
          if isTerminalRunStatus (run_Status run) then (True, s1)
          else (case GetWorkflow E (run_WorkflowID run) s1 of
                  (Found wfDef, s2) \<Rightarrow> applyJobResult E V start now wfDef res i run s2
                | (_, s2) \<Rightarrow> (False, s2))
      | (_, s1) \<Rightarrow> (False, s1))"

definition HandleJobResult :: "engine \<Rightarrow> output_env \<Rightarrow> starter \<Rightarrow> int \<Rightarrow> step_result \<Rightarrow> wf_store \<Rightarrow> bool \<times> wf_store" where
  "HandleJobResult E V start now res s =
     (case splitJobID (res_JobId res) of
        (rid, i) \<Rightarrow> if res_JobId res = [] \<or> rid = [] \<or> i = [] then (True, s) else handleJobResultLocked E V start now res rid i s)"

section \<open>Approving, cancelling, rerunning\<close>

definition decidedRun :: "workflow \<Rightarrow> int \<Rightarrow> string \<Rightarrow> bool \<Rightarrow> step_run \<Rightarrow> workflow_run \<Rightarrow> workflow_run" where
  "decidedRun wfDef now i approved sr run =
     (let sr1 = upd (\<lambda>f. f\<lparr>sf_Status := (if approved then StepStatusSucceeded else StepStatusFailed), sf_CompletedAt := Some now\<rparr>) sr;
          run1 = put_step i sr1 run;
          denied = upd (\<lambda>f. f\<lparr>sf_Error := msg ''approval denied''\<rparr>) sr1
      in updateRunStatus wfDef now (if approved then run1 else activateOnErrorHandler wfDef i denied run1))"

definition decideStep :: "engine \<Rightarrow> starter \<Rightarrow> int \<Rightarrow> workflow \<Rightarrow> string \<Rightarrow> bool \<Rightarrow> workflow_run \<Rightarrow> wf_store \<Rightarrow> bool \<times> wf_store" where
  "decideStep E start now wfDef i approved run s =
     (case enforceWorkflowTimeout E wfDef now run s of
        (Some False, run1, s1) \<Rightarrow>
          if isTerminalRunStatus (run_Status run1) then (False, s1)
          else (case map_of (run_Steps run1) i of
                  None \<Rightarrow> (False, s1)
                | Some sr \<Rightarrow>
                    if sr_Status sr \<noteq> StepStatusWaiting then (False, s1)
                    else let run2 = decidedRun wfDef now i approved sr run1 in
                      case UpdateRun E run2 s1 of
                        (False, s2) \<Rightarrow> (False, s2)
                      | (True, s2) \<Rightarrow> resumeRun E start now wfDef run2 s2)
      | (_, _, s1) \<Rightarrow> (False, s1))"

definition ApproveStep :: "engine \<Rightarrow> starter \<Rightarrow> int \<Rightarrow> string \<Rightarrow> string \<Rightarrow> bool \<Rightarrow> wf_store \<Rightarrow> bool \<times> wf_store" where
  "ApproveStep E start now rid i approved s =
     (case GetRun E rid s of
        (Found run, s1) \<Rightarrow>
          (case GetWorkflow E (run_WorkflowID run) s1 of
             (Found wfDef, s2) \<Rightarrow> decideStep E start now wfDef i approved run s2
           | (_, s2) \<Rightarrow> (False, s2))
      | (_, s1) \<Rightarrow> (False, s1))"

definition cancelledRun :: "workflow \<Rightarrow> int \<Rightarrow> workflow_run \<Rightarrow> workflow_run" where
  "cancelledRun wfDef now run =
     (let filled = fillSteps wfDef run in
      filled\<lparr>run_Steps := map (\<lambda>(i, sr). (i, cancelStepRun now sr)) (run_Steps filled), run_Status := RunStatusCancelled, run_CompletedAt := Some now\<rparr>)"

definition CancelRun :: "engine \<Rightarrow> int \<Rightarrow> string \<Rightarrow> wf_store \<Rightarrow> bool \<times> wf_store" where
  "CancelRun E now rid s =
     (case GetRun E rid s of
        (Found run, s1) \<Rightarrow>
          if isTerminalRunStatus (run_Status run) then (True, s1)
          else (case GetWorkflow E (run_WorkflowID run) s1 of
                  (Found wfDef, s2) \<Rightarrow>
                    (case UpdateRun E (cancelledRun wfDef now run) s2 of
                       (False, s3) \<Rightarrow> (False, s3)
                     | (True, s3) \<Rightarrow> (case publishCancels E (cancelJobIDs (fillSteps wfDef run)) s3 of (bad, s4) \<Rightarrow> (bad = [], s4)))
                | (_, s2) \<Rightarrow> (False, s2))
      | (_, s1) \<Rightarrow> (False, s1))"

definition rerun :: "int \<Rightarrow> string \<Rightarrow> string \<Rightarrow> bool \<Rightarrow> string list \<Rightarrow> workflow_run \<Rightarrow> workflow_run" where
  "rerun now newID i dry deps run =
     (let meta = mput ''rerun_of'' (run_ID run) (run_Metadata run);
          meta1 = (if i \<noteq> [] then mput ''rerun_step'' i meta else meta)
      in \<lparr>run_ID = newID, run_WorkflowID = run_WorkflowID run, run_OrgID = run_OrgID run, run_TeamID = run_TeamID run, run_Input = run_Input run,
          run_Context = map_option (\<lambda>ctx. cloneContextForDeps ctx deps) (run_Context run), run_Status = RunStatusPending,
          run_StartedAt = None, run_CompletedAt = None, run_Output = [], run_Error = [],
          run_Steps = map (\<lambda>d. (d, stepRunOf run d)) deps, run_TriggeredBy = run_TriggeredBy run, run_CreatedAt = Some now,
          run_Labels = (if dry then mput ''dry_run'' ''true'' (run_Labels run) else run_Labels run),
          run_Metadata = (if dry then mput ''dry_run'' ''true'' meta1 else meta1),
          run_RerunOf = run_ID run, run_RerunStep = i, run_DryRun = dry\<rparr>)"

definition RerunFrom :: "engine \<Rightarrow> int \<Rightarrow> string \<Rightarrow> string \<Rightarrow> bool \<Rightarrow> wf_store \<Rightarrow> string option \<times> wf_store" where
  "RerunFrom E now rid i dry s =
     (if rid = [] then (None, s)
      else case GetRun E rid s of
          (Found run, s1) \<Rightarrow>
            (case GetWorkflow E (run_WorkflowID run) s1 of
               (Found wfDef, s2) \<Rightarrow>
                 (let deps = (if i = [] then [] else collectDependencies wfDef i); newID = newUUID E (s_calls s2) in
                  if i \<noteq> [] \<and> map_of (wf_Steps wfDef) i = None then (None, s2)
                  else if \<not> list_all (\<lambda>d. stepStatus run d = StepStatusSucceeded) deps then (None, s2)
                  else case CreateRun E now (rerun now newID i dry deps run) s2 of
                      (ok, s3) \<Rightarrow> (if ok then Some newID else None, s3))
             | (_, s2) \<Rightarrow> (None, s2))
        | (_, s1) \<Rightarrow> (None, s1))"

end
