(* ===== verification/Workflow_Invariants.thy ===== *)
theory Workflow_Invariants
  imports Workflow_Engine
begin

text \<open>
  What a tick of the scheduler cannot do. Every step handler of \<open>Workflow_Engine\<close> is built from a few
  primitive changes: putting the step run of its own step, putting step runs of its children, cancelling
  or opening the branches of a switch, writing the context, numbering a call, saving the run, sending an
  effect, starting a child run. The locale \<open>step_moves\<close> states that a predicate on ticks survives these
  primitives and shows once that it then survives every handler. It is interpreted twice: for well-formed
  runs together with the frame of the store, and for the steps behind an approval.
\<close>

section \<open>Well-formed runs\<close>

text \<open>
  A step run carries the id it is stored under, and so do its children; no id occurs twice. The ids of
  children are in the set \<open>C\<close>.
\<close>

fun good :: "string set \<Rightarrow> string \<Rightarrow> step_run \<Rightarrow> bool" and goods :: "string set \<Rightarrow> (string \<times> step_run) list \<Rightarrow> bool" where
  "good C i (StepRun f cs) = (sf_StepID f = i \<and> wf_map cs \<and> keys cs \<subseteq> C \<and> goods C cs)"
| "goods C [] = True"
| "goods C ((c, x) # cs) = (good C c x \<and> goods C cs)"

definition wf_run :: "string set \<Rightarrow> workflow_run \<Rightarrow> bool" where
  "wf_run C run \<longleftrightarrow> wf_map (run_Steps run) \<and> goods C (run_Steps run)"

lemma goods_iff: "goods C cs \<longleftrightarrow> (\<forall>(c, x) \<in> set cs. good C c x)"
  by (induction cs) auto

lemma goods_map_of: "goods C cs \<Longrightarrow> map_of cs c = Some x \<Longrightarrow> good C c x"
  by (auto simp: goods_iff dest!: map_of_SomeD)

lemma goods_mput: "goods C cs \<Longrightarrow> good C c x \<Longrightarrow> goods C (mput c x cs)"
  by (induction cs) auto

lemma good_iff: "good C i sr \<longleftrightarrow> sf_StepID (sr_fields sr) = i \<and> wf_map (sr_Children sr) \<and> keys (sr_Children sr) \<subseteq> C \<and> goods C (sr_Children sr)"
  by (cases sr) simp

lemma good_new [simp]: "good C i (new_run i st)"
  by (simp add: new_run_def new_fields_def)

lemma good_upd [simp]: "(\<And>x. sf_StepID (f x) = sf_StepID x) \<Longrightarrow> good C i (upd f sr) = good C i sr"
  by (simp add: good_iff)

lemma good_put_child [intro]: "good C i sr \<Longrightarrow> c \<in> C \<Longrightarrow> good C c child \<Longrightarrow> good C i (put_child c child sr)"
  by (cases sr) (auto simp: put_child_def goods_mput)

lemma good_child: "good C i sr \<Longrightarrow> map_of (sr_Children sr) c = Some x \<Longrightarrow> good C c x"
  using goods_map_of good_iff by blast

lemma good_changes [simp]:
  "good C i (startSR now sr) = good C i sr" "good C i (started now sr) = good C i sr" "good C i (markFailed m sr) = good C i sr"
  "good C i (failSR now m sr) = good C i sr" "good C i (succeedSR now sr) = good C i sr" "good C i (outputSR v sr) = good C i sr"
  "good C i (clearError sr) = good C i sr" "good C i (inputSR p sr) = good C i sr" "good C i (revertSR a sr) = good C i sr"
  by (simp_all add: startSR_def started_def markFailed_def failSR_def succeedSR_def outputSR_def clearError_def inputSR_def revertSR_def)

lemma good_keepChildren [simp]: "good C i sr \<Longrightarrow> good C i (keepChildren active sr)"
  by (cases sr) (auto simp: keepChildren_def wf_map_def goods_iff distinct_map_filter keys_def)

lemma good_stepRunOf [intro]: "wf_run C run \<Longrightarrow> good C i (stepRunOf run i)"
  by (auto simp: wf_run_def stepRunOf_def split: option.split intro: goods_map_of)

lemma wf_run_put_step [intro]: "wf_run C run \<Longrightarrow> good C i sr \<Longrightarrow> wf_run C (put_step i sr run)"
  by (auto simp: wf_run_def put_step_def goods_mput)

lemma wf_run_fields [simp]:
  "wf_run C (run\<lparr>run_Context := c\<rparr>) = wf_run C run" "wf_run C (run\<lparr>run_Status := st\<rparr>) = wf_run C run"
  "wf_run C (run\<lparr>run_CompletedAt := x\<rparr>) = wf_run C run" "wf_run C (run\<lparr>run_StartedAt := x\<rparr>) = wf_run C run"
  "wf_run C (run\<lparr>run_Error := e\<rparr>) = wf_run C run"
  by (simp_all add: wf_run_def)

lemma put_step_fields [simp]:
  "run_ID (put_step i sr run) = run_ID run" "run_WorkflowID (put_step i sr run) = run_WorkflowID run"
  "run_Steps (put_step i sr run) = mput i sr (run_Steps run)" "run_Status (put_step i sr run) = run_Status run"
  by (simp_all add: put_step_def)

lemma stepRunOf_put [simp]: "stepRunOf (put_step i sr run) k = (if k = i then sr else stepRunOf run k)"
  by (simp add: stepRunOf_def)

lemma recordStepInlineOutput_form: "\<exists>c. recordStepInlineOutput i s v run = run\<lparr>run_Context := c\<rparr>"
proof (cases "i = []")
  case True
  then show ?thesis by (intro exI [of _ "run_Context run"]) (simp add: recordStepInlineOutput_def)
next
  case False
  then show ?thesis by (auto simp: recordStepInlineOutput_def Let_def)
qed

lemma putT_fields [simp]:
  "t_run (putT i sr t) = put_step i sr (t_run t)" "t_store (putT i sr t) = t_store t" "t_disp (putT i sr t) = t_disp t"
  "(putT i sr t)\<lparr>t_store := st\<rparr> = putT i sr (t\<lparr>t_store := st\<rparr>)"
  by (simp_all add: putT_def)

lemma tick_swap [simp]: "t\<lparr>t_store := st, t_run := r\<rparr> = t\<lparr>t_run := r, t_store := st\<rparr>"
  by simp

definition fanTick :: "fan \<Rightarrow> tick" where
  "fanTick w = \<lparr>t_run = f_run w, t_disp = f_disp w, t_store = f_store w\<rparr>"

lemma fanTick_fields [simp]:
  "t_run (fanTick w) = f_run w" "t_disp (fanTick w) = f_disp w" "t_store (fanTick w) = f_store w"
  "fanTick (w\<lparr>f_store := st\<rparr>) = (fanTick w)\<lparr>t_store := st\<rparr>"
  by (simp_all add: fanTick_def)

lemma endFan_putT: "endFan i w = putT i (f_parent w) (fanTick w)"
  by (simp add: endFan_def putT_def fanTick_def)

section \<open>The primitives of the handlers\<close>

definition bump :: "wf_store \<Rightarrow> wf_store" where
  "bump s = s\<lparr>s_calls := Suc (s_calls s)\<rparr>"

text \<open>
  A change of the run that neither starts nor finishes a step: it stays well formed, the inputs of the
  steps stay, and no step becomes succeeded.
\<close>

definition calm :: "string set \<Rightarrow> workflow_run \<Rightarrow> workflow_run \<Rightarrow> bool" where
  "calm C r r' \<longleftrightarrow> (wf_run C r \<longrightarrow> wf_run C r') \<and> run_ID r' = run_ID r \<and> run_WorkflowID r' = run_WorkflowID r \<and>
     (\<forall>k. sr_Input (stepRunOf r' k) = sr_Input (stepRunOf r k) \<and>
          (sr_Status (stepRunOf r' k) = StepStatusSucceeded \<longrightarrow> sr_Status (stepRunOf r k) = StepStatusSucceeded))"

lemma calm_refl [simp]: "calm C r r"
  by (simp add: calm_def)

lemma calm_trans: "calm C r r' \<Longrightarrow> calm C r' r'' \<Longrightarrow> calm C r r''"
  by (simp add: calm_def)

lemma calm_fields [simp]:
  "calm C r (r'\<lparr>run_Context := c\<rparr>) = calm C r r'" "calm C r (r'\<lparr>run_Status := st\<rparr>) = calm C r r'"
  "calm C r (r'\<lparr>run_CompletedAt := x\<rparr>) = calm C r r'" "calm C r (r'\<lparr>run_StartedAt := x\<rparr>) = calm C r r'"
  "calm C r (r'\<lparr>run_Error := e\<rparr>) = calm C r r'"
  by (simp_all add: calm_def stepRunOf_def)

lemma calm_put:
  assumes "good C k (stepRunOf r k) \<Longrightarrow> good C k sr" "sr_Input sr = sr_Input (stepRunOf r k)"
    "sr_Status sr = StepStatusSucceeded \<Longrightarrow> sr_Status (stepRunOf r k) = StepStatusSucceeded"
  shows "calm C r (put_step k sr r)"
  using assms by (auto simp: calm_def)

lemma calm_fold: "(\<And>x r. calm C r (f x r)) \<Longrightarrow> calm C r (fold f xs r)"
  by (induction xs arbitrary: r) (auto intro: calm_trans)

lemma calm_markSkipped: "calm C r (markSkipped failed now i r)"
  by (auto simp: markSkipped_def skipStep_def stepRunOf_def intro!: calm_put split: option.split)

lemma calm_cascade: "calm C r (cascade wfDef failed now visited stack r)"
  by (induction wfDef failed now visited stack r rule: cascade.induct) (auto intro: calm_trans [OF calm_markSkipped])

lemma calm_badStep: "(\<And>a. acc_run (raise' a) = acc_run a) \<Longrightarrow> calm C (acc_run a) (acc_run (badStep wfDef skips now i raise' a))"
  by (auto simp: badStep_def Let_def skipDependentSteps_def calm_cascade split: chain_outcome.split)

lemma calm_statusStep: "calm C (acc_run a) (acc_run (statusStep wfDef p l now e a))"
  by (auto simp: statusStep_def Let_def calm_badStep split: option.split step_status.split)

lemma calm_fold_status: "calm C (acc_run a) (acc_run (fold (statusStep wfDef p l now) es a))"
proof (induction es arbitrary: a)
  case (Cons e es)
  show ?case using calm_trans [OF calm_statusStep Cons.IH] by simp
qed simp

lemma calm_updateRunStatus: "calm C r (updateRunStatus wfDef now r)"
proof -
  let ?a = "\<lparr>acc_run = r, acc_failed = False, acc_denied = False, acc_timedOut = False, acc_waiting = False, acc_allDone = True,
    acc_completed = 0, acc_expected = expectedSteps wfDef\<rparr>"
  show ?thesis
    using calm_fold_status [of C ?a wfDef "collectParallelChildOwners wfDef" "collectLoopBodyOwners wfDef" now "wf_Steps wfDef"]
    by (simp add: updateRunStatus_def Let_def)
qed

lemma calm_fillSteps: "calm C r (fillSteps wfDef r)"
  unfolding fillSteps_def by (rule calm_fold) (auto simp: stepRunOf_def intro!: calm_put split: option.split)

lemma good_timeoutStepRun:
  "good C i (timeoutStepRun now sr) = good C i sr" "goods C (timeoutRuns now cs) = goods C cs \<and> map fst (timeoutRuns now cs) = map fst cs"
proof (induction now sr and now cs arbitrary: i rule: timeoutStepRun_timeoutRuns.induct)
  case (1 now f cs)
  have "keys (timeoutRuns now cs) = keys cs" using 1 by (metis keys_def set_map)
  with 1 show ?case by (simp add: wf_map_def)
qed auto

lemma good_cancelStepRun:
  "good C i (cancelStepRun now sr) = good C i sr" "goods C (cancelRuns now cs) = goods C cs \<and> map fst (cancelRuns now cs) = map fst cs"
proof (induction now sr and now cs arbitrary: i rule: cancelStepRun_cancelRuns.induct)
  case (1 now f cs)
  have "keys (cancelRuns now cs) = keys cs" using 1 by (metis keys_def set_map)
  with 1 show ?case by (simp add: wf_map_def)
qed auto

text \<open>All step runs of a run changed alike.\<close>

lemma calm_map:
  assumes "\<And>i sr. good C i (f sr) = good C i sr" "\<And>sr. sr_Input (f sr) = sr_Input sr"
    "\<And>sr. sr_Status (f sr) = StepStatusSucceeded \<Longrightarrow> sr_Status sr = StepStatusSucceeded"
  shows "calm C r (r\<lparr>run_Steps := map (\<lambda>(i, sr). (i, f sr)) (run_Steps r)\<rparr>)"
proof -
  have m: "map_of (map (\<lambda>(i, sr). (i, f sr)) xs) k = map_option f (map_of xs k)" for xs k by (induction xs) auto
  have "wf_map (map (\<lambda>(i, sr). (i, f sr)) xs) = wf_map xs" for xs :: "step_run gomap"
    by (simp add: wf_map_def comp_def case_prod_beta')
  moreover have "goods C (map (\<lambda>(i, sr). (i, f sr)) xs) = goods C xs" for xs using assms(1) by (induction xs) auto
  ultimately show ?thesis using assms by (auto simp: calm_def wf_run_def stepRunOf_def m split: option.splits)
qed

lemma timeoutStepRun_calm [simp]:
  "sr_Input (timeoutStepRun now sr) = sr_Input sr"
  "sr_Status (timeoutStepRun now sr) = (if isTerminalStepStatus (sr_Status sr) then sr_Status sr else StepStatusTimedOut)"
  by (cases sr; simp)+

lemma cancelStepRun_calm [simp]:
  "sr_Input (cancelStepRun now sr) = sr_Input sr"
  "sr_Status (cancelStepRun now sr) = (if isTerminalStepStatus (sr_Status sr) then sr_Status sr else StepStatusCancelled)"
  by (cases sr; simp)+

lemma calm_timeoutSteps: "calm C r (r\<lparr>run_Steps := map (\<lambda>(i, sr). (i, timeoutStepRun now sr)) (run_Steps r)\<rparr>)"
  by (rule calm_map) (auto simp: good_timeoutStepRun split: if_splits)

lemma calm_cancelSteps: "calm C r (r\<lparr>run_Steps := map (\<lambda>(i, sr). (i, cancelStepRun now sr)) (run_Steps r)\<rparr>)"
  by (rule calm_map) (auto simp: good_cancelStepRun split: if_splits)

definition isDispatch :: "wf_effect \<Rightarrow> bool" where
  "isDispatch e = (case e of Dispatched _ _ _ \<Rightarrow> True | _ \<Rightarrow> False)"

definition trace :: "wf_effect \<Rightarrow> tick \<Rightarrow> tick" where
  "trace e t = t\<lparr>t_store := (t_store t)\<lparr>s_trace := s_trace (t_store t) @ [e]\<rparr>\<rparr>"

text \<open>What every operation may do to a run it has loaded.\<close>

locale tick_moves =
  fixes E :: engine and C :: "string set" and base :: nat and I :: "tick \<Rightarrow> bool"
  assumes wf: "I t \<Longrightarrow> wf_run C (t_run t)"
    and base: "I t \<Longrightarrow> base \<le> s_calls (t_store t)"
    and settle: "I t \<Longrightarrow> calm C (t_run t) r \<Longrightarrow> I (t\<lparr>t_run := r\<rparr>)"
    and put_child_of: "I t \<Longrightarrow> k \<in> C \<Longrightarrow> good C k sr \<Longrightarrow> I (putT k sr t)"
    and put_disp: "I t \<Longrightarrow> I (t\<lparr>t_disp := ds\<rparr>)"
    and called: "I t \<Longrightarrow> I (t\<lparr>t_store := bump (t_store t)\<rparr>)"
    and saved: "I t \<Longrightarrow> I (t\<lparr>t_store := storeRun (t_run t) (t_store t)\<rparr>)"
    and indexed: "I t \<Longrightarrow> I (t\<lparr>t_store := (t_store t)\<lparr>s_active := a\<rparr>\<rparr>)"
    and noted: "I t \<Longrightarrow> \<not> isDispatch e \<Longrightarrow> I (trace e t)"
begin

lemma own_good [intro]: "I t \<Longrightarrow> good C i (stepRunOf (t_run t) i)"
  using wf by blast

text \<open>Calls.\<close>

lemma external_I:
  assumes "I t" "\<And>u. I u \<Longrightarrow> t_run u = t_run t \<Longrightarrow> I (u\<lparr>t_store := effect (t_store u)\<rparr>)"
  shows "I (t\<lparr>t_store := snd (externalCall E effect (t_store t))\<rparr>)"
  using called [OF assms(1)] assms(2) [OF called [OF assms(1)]]
  by (auto simp: externalCall_def bump_def Let_def split: outcome.split)

lemma publish_I:
  assumes "I t" "\<And>u. I u \<Longrightarrow> t_run u = t_run t \<Longrightarrow> I (trace e u)"
  shows "I (t\<lparr>t_store := snd (publish E e (t_store t))\<rparr>)"
  unfolding publish_def by (rule external_I [OF assms(1)]) (use assms(2) in \<open>simp add: trace_def\<close>)

lemma indexRun_I: "I t \<Longrightarrow> I (t\<lparr>t_store := indexRun org i st (t_store t)\<rparr>)"
  using indexed [of t] by (simp add: indexRun_def)

lemma UpdateRun_I:
  assumes "I t" shows "I (t\<lparr>t_store := snd (UpdateRun E (t_run t) (t_store t))\<rparr>)"
proof -
  obtain ok s1 where c: "externalCall E (storeRun (t_run t)) (t_store t) = (ok, s1)" by fastforce
  have "I (t\<lparr>t_store := snd (externalCall E (storeRun (t_run t)) (t_store t))\<rparr>)"
  proof (rule external_I [OF assms])
    fix u assume "I u" "t_run u = t_run t"
    then show "I (u\<lparr>t_store := storeRun (t_run t) (t_store u)\<rparr>)" using saved [of u] by simp
  qed
  then have I1: "I (t\<lparr>t_store := s1\<rparr>)" using c by simp
  have "I (t\<lparr>t_store := snd (externalCall E (indexRun (run_OrgID (t_run t)) (run_ID (t_run t)) (run_Status (t_run t))) s1)\<rparr>)"
    using external_I [OF I1, of "indexRun (run_OrgID (t_run t)) (run_ID (t_run t)) (run_Status (t_run t))"] indexRun_I by simp
  with I1 show ?thesis using assms by (simp add: UpdateRun_def c case_prod_beta split: bool.split)
qed

lemma putJobContext_I: "I t \<Longrightarrow> I (t\<lparr>t_store := snd (putJobContext E jobID (t_store t))\<rparr>)"
  using external_I [of t "\<lambda>s. s"] by (auto simp: putJobContext_def split: prod.split)

lemma readCall_I: "I t \<Longrightarrow> I (t\<lparr>t_store := snd (readCall E m i (t_store t))\<rparr>)"
  using called [of t] by (auto simp: readCall_def bump_def)

lemma scheduleAfter_I: "I t \<Longrightarrow> I (t\<lparr>t_store := scheduleAfter d (t_store t)\<rparr>)"
  using noted [of t "TimerArmed d"] by (auto simp: scheduleAfter_def trace_def isDispatch_def)

lemma publishAttempts_I: "I t \<Longrightarrow> I (t\<lparr>t_store := snd (publishAttempts E n (CancelSent x) (t_store t))\<rparr>)"
proof (induction n arbitrary: t)
  case (Suc n)
  have I1: "I (t\<lparr>t_store := snd (publish E (CancelSent x) (t_store t))\<rparr>)" by (rule publish_I [OF Suc.prems]) (simp add: noted isDispatch_def)
  show ?case using I1 Suc.IH [OF I1] by (auto split: prod.split)
qed simp

lemma publishJobCancel_I: "I t \<Longrightarrow> I (t\<lparr>t_store := snd (publishJobCancel E x (t_store t))\<rparr>)"
  using publishAttempts_I [of t 3 x] by (simp add: publishJobCancel_def)

lemma note_store: "I t \<Longrightarrow> publish E e (t_store t) = (ok, st) \<Longrightarrow> \<not> isDispatch e \<Longrightarrow> I (t\<lparr>t_store := st\<rparr>)"
  using publish_I [of t e] noted by simp

lemma UpdateRun_store: "I t \<Longrightarrow> UpdateRun E (t_run t) (t_store t) = (ok, st) \<Longrightarrow> I (t\<lparr>t_store := st\<rparr>)"
  using UpdateRun_I [of t] by simp

lemma context_store: "I t \<Longrightarrow> putJobContext E jobID (t_store t) = (p, st) \<Longrightarrow> I (t\<lparr>t_store := st\<rparr>)"
  using putJobContext_I [of t jobID] by simp

lemma GetRun_store: "I t \<Longrightarrow> GetRun E i (t_store t) = (p, st) \<Longrightarrow> I (t\<lparr>t_store := st\<rparr>)"
  using readCall_I [of t "s_runs (t_store t)" i] by (simp add: GetRun_def)

lemma GetWorkflow_store: "I t \<Longrightarrow> GetWorkflow E i (t_store t) = (p, st) \<Longrightarrow> I (t\<lparr>t_store := st\<rparr>)"
  using readCall_I [of t "s_workflows (t_store t)" i] by (simp add: GetWorkflow_def)

text \<open>Changes of the run alone.\<close>

lemma put_side:
  "I t \<Longrightarrow> good C k sr \<Longrightarrow> sr_Input sr = sr_Input (stepRunOf (t_run t) k) \<Longrightarrow>
   sr_Status sr \<noteq> StepStatusSucceeded \<or> sr_Status sr = sr_Status (stepRunOf (t_run t) k) \<Longrightarrow> I (putT k sr t)"
  unfolding putT_def by (rule settle, assumption, rule calm_put) auto

lemma put_context: "I t \<Longrightarrow> I (t\<lparr>t_run := (t_run t)\<lparr>run_Context := c\<rparr>\<rparr>)"
  by (rule settle) simp_all

lemma put_waiting: "I t \<Longrightarrow> I (t\<lparr>t_run := (t_run t)\<lparr>run_Status := RunStatusWaiting\<rparr>\<rparr>)"
  by (rule settle) simp_all

lemma record_I: "I t \<Longrightarrow> I (t\<lparr>t_run := recordStepInlineOutput i s v (t_run t)\<rparr>)"
  using recordStepInlineOutput_form [of i s v "t_run t"] settle [of t] by auto

text \<open>Fan-out: the invariant of the state between the parent and its children.\<close>

definition J :: "string \<Rightarrow> fan \<Rightarrow> bool" where
  "J p w \<longleftrightarrow> I (fanTick w) \<and> good C p (f_parent w)"

lemma fold_J: "(\<And>x w. x \<in> set xs \<Longrightarrow> J p w \<Longrightarrow> J p (f x w)) \<Longrightarrow> J p w \<Longrightarrow> J p (fold f xs w)"
  by (induction xs arbitrary: w) auto

lemma putFan_J: "J p w \<Longrightarrow> c \<in> C \<Longrightarrow> good C c child \<Longrightarrow> J p (putFan c child w)"
  using put_child_of [of "fanTick w" c child] by (auto simp: J_def putFan_def fanTick_def putT_def)

lemma store_J: "J p w \<Longrightarrow> I ((fanTick w)\<lparr>t_store := st\<rparr>) \<Longrightarrow> J p (w\<lparr>f_store := st\<rparr>)"
  by (simp add: J_def fanTick_def)

lemma launchedFan_J: "J p (w\<lparr>f_store := st\<rparr>) \<Longrightarrow> J p (launchedFan c ok st w)"
  using put_disp [of "fanTick (w\<lparr>f_store := st\<rparr>)" "if ok then c # f_disp w else f_disp w"] by (auto simp: J_def launchedFan_def fanTick_def)

lemma J_good [intro]: "J p w \<Longrightarrow> good C c (stepRunOf (f_run w) c)"
  using wf [of "fanTick w"] by (auto simp: J_def)

lemma timer_J: "J p w \<Longrightarrow> J p (w\<lparr>f_store := scheduleAt n now (f_store w)\<rparr>)"
  using scheduleAfter_I [of "fanTick w"] by (auto intro!: store_J simp: scheduleAt_def J_def)

lemma cancel_J: "J p w \<Longrightarrow> J p (w\<lparr>f_store := snd (publishJobCancel E x (f_store w))\<rparr>)"
  using publishJobCancel_I [of "fanTick w" x] by (auto intro!: store_J simp: J_def)

text \<open>Cancelling jobs, timing out.\<close>

lemma publishCancels_I: "I t \<Longrightarrow> publishCancels E js (t_store t) = (bad, st) \<Longrightarrow> I (t\<lparr>t_store := st\<rparr>)"
proof (induction js arbitrary: t bad)
  case (Cons x js)
  obtain ok st1 where p: "publishJobCancel E x (t_store t) = (ok, st1)" by fastforce
  have "I (t\<lparr>t_store := st1\<rparr>)" using publishJobCancel_I [OF Cons.prems(1), of x] p by simp
  from Cons.IH [OF this] Cons.prems(2) p show ?case by (auto split: prod.splits)
qed auto

definition K :: "workflow_run \<Rightarrow> wf_store \<Rightarrow> bool" where
  "K r s \<longleftrightarrow> I \<lparr>t_run = r, t_disp = [], t_store = s\<rparr>"

lemma K_settle: "K r s \<Longrightarrow> calm C r r' \<Longrightarrow> K r' s"
  using settle [of "\<lparr>t_run = r, t_disp = [], t_store = s\<rparr>" r'] by (simp add: K_def)

lemma K_UpdateRun: "K r s \<Longrightarrow> UpdateRun E r s = (ok, s') \<Longrightarrow> K r s'"
  using UpdateRun_store [of "\<lparr>t_run = r, t_disp = [], t_store = s\<rparr>" ok s'] by (simp add: K_def)

lemma K_publishCancels: "K r s \<Longrightarrow> publishCancels E js s = (bad, s') \<Longrightarrow> K r s'"
  using publishCancels_I [of "\<lparr>t_run = r, t_disp = [], t_store = s\<rparr>" js bad s'] by (simp add: K_def)

lemma K_GetRun: "K r s \<Longrightarrow> GetRun E i s = (p, s') \<Longrightarrow> K r s'"
  using GetRun_store [of "\<lparr>t_run = r, t_disp = [], t_store = s\<rparr>" i p s'] by (simp add: K_def)

lemma K_GetWorkflow: "K r s \<Longrightarrow> GetWorkflow E i s = (p, s') \<Longrightarrow> K r s'"
  using GetWorkflow_store [of "\<lparr>t_run = r, t_disp = [], t_store = s\<rparr>" i p s'] by (simp add: K_def)

lemma K_called: "K r s \<Longrightarrow> K r (s\<lparr>s_calls := Suc (s_calls s)\<rparr>)"
  using called [of "\<lparr>t_run = r, t_disp = [], t_store = s\<rparr>"] by (simp add: K_def bump_def)

lemma K_scheduleAfter: "K r s \<Longrightarrow> K r (scheduleAfter d s)"
  using scheduleAfter_I [of "\<lparr>t_run = r, t_disp = [], t_store = s\<rparr>"] by (simp add: K_def)

lemma K_timeoutRun:
  assumes "K r s" "timeoutRun E wfDef now r s = (ok, r', s')" shows "K r' s'"
proof -
  let ?f = "fillSteps wfDef r"
  let ?r = "?f\<lparr>run_Steps := map (\<lambda>(i, sr). (i, timeoutStepRun now sr)) (run_Steps ?f), run_Status := RunStatusTimedOut,
    run_CompletedAt := Some now, run_Error := mput ''message'' (VString ''workflow run timed out'') (run_Error ?f)\<rparr>"
  have c: "calm C r ?r" using calm_trans [OF calm_fillSteps calm_timeoutSteps] by simp
  obtain ok1 s1 where u: "UpdateRun E ?r s = (ok1, s1)" by fastforce
  have k: "K ?r s1" by (rule K_UpdateRun [OF K_settle [OF assms(1) c] u])
  obtain bad s2 where p: "publishCancels E (cancelJobIDs ?f) s1 = (bad, s2)" by fastforce
  show ?thesis using assms(2) k K_publishCancels [OF k p] by (simp add: timeoutRun_def Let_def u p split: bool.splits)
qed

lemma K_timeout:
  assumes "K r s" "enforceWorkflowTimeout E wfDef now r s = (b, r', s')" shows "K r' s'"
proof -
  obtain ok r1 s1 where e: "timeoutRun E wfDef now r s = (ok, r1, s1)" by (metis prod_cases3)
  show ?thesis using assms K_timeoutRun [OF assms(1) e]
    by (simp add: enforceWorkflowTimeout_def e split: if_splits option.splits)
qed

end

text \<open>
  What the handler of the step \<open>j\<close> may do: dispatch jobs of the step and of children in \<open>L\<close>, and
  succeed the step when \<open>may\<close> holds.
\<close>

locale step_moves = tick_moves +
  fixes L :: "string set" and start :: "string \<Rightarrow> string \<Rightarrow> wf_store \<Rightarrow> bool \<times> wf_store" and j :: string and may :: bool
  assumes L_C: "L \<subseteq> C"
    and put_own: "I t \<Longrightarrow> good C j sr \<Longrightarrow> (sr_Status sr = StepStatusSucceeded \<Longrightarrow> may) \<Longrightarrow> I (putT j sr t)"
    and sent: "I t \<Longrightarrow> c = j \<or> c \<in> L \<Longrightarrow> I (trace (Dispatched (run_ID (t_run t)) c job) t)"
    and created: "I t \<Longrightarrow> wf_run {} r \<Longrightarrow> run_ID r = newUUID E (s_calls (t_store t)) \<Longrightarrow> I (t\<lparr>t_store := storeRun r (bump (t_store t))\<rparr>)"
    and started_child: "I t \<Longrightarrow> base \<le> n \<Longrightarrow> n < s_calls (t_store t) \<Longrightarrow> I (t\<lparr>t_store := snd (start wid (newUUID E n) (t_store t))\<rparr>)"
begin

lemma in_C [intro, simp]: "c \<in> L \<Longrightarrow> c \<in> C"
  using L_C by blast

lemma publish_store:
  assumes "I t" "publish E (Dispatched (run_ID (t_run t)) c job) (t_store t) = (ok, st)" "c = j \<or> c \<in> L"
  shows "I (t\<lparr>t_store := st\<rparr>)"
proof -
  have "I (t\<lparr>t_store := snd (publish E (Dispatched (run_ID (t_run t)) c job) (t_store t))\<rparr>)"
  proof (rule publish_I [OF assms(1)])
    fix u assume "I u" "t_run u = t_run t"
    then show "I (trace (Dispatched (run_ID (t_run t)) c job) u)" using sent [of u c job] assms(3) by simp
  qed
  then show ?thesis using assms(2) by simp
qed

text \<open>Steps that complete on the spot.\<close>

lemma completeT_I: "I t \<Longrightarrow> may \<Longrightarrow> good C j sr \<Longrightarrow> I (completeT now j s v sr t)"
  unfolding completeT_def Let_def by (rule record_I, rule put_own) simp_all

lemma own_I: "I t \<Longrightarrow> may \<Longrightarrow> good C j sr \<Longrightarrow> I (putT j sr t)"
  by (rule put_own)

lemma conditionGate_I: "I t \<Longrightarrow> may \<Longrightarrow> conditionGate E now j s (stepRunOf (t_run t) j) t = Some t' \<Longrightarrow> I t'"
  by (auto simp: conditionGate_def intro!: own_I split: if_splits option.splits bool.splits)

lemma conditionStep_I: "I t \<Longrightarrow> may \<Longrightarrow> I (conditionStep E now j s (stepRunOf (t_run t) j) t)"
  by (auto simp: conditionStep_def Let_def intro!: own_I completeT_I split: option.split)

lemma delayStep_I: "I t \<Longrightarrow> may \<Longrightarrow> I (delayStep E now j s (stepRunOf (t_run t) j) t)"
  by (auto simp: delayStep_def scheduleAt_def Let_def intro!: own_I scheduleAfter_I split: option.split)

lemma notifyStep_I: "I t \<Longrightarrow> may \<Longrightarrow> I (notifyStep E now j s (stepRunOf (t_run t) j) t)"
  by (auto simp: notifyStep_def isDispatch_def intro!: own_I elim!: note_store split: option.split prod.split bool.split)

lemma transformStep_I: "I t \<Longrightarrow> may \<Longrightarrow> I (transformStep E now j s (stepRunOf (t_run t) j) t)"
  by (auto simp: transformStep_def Let_def intro!: own_I completeT_I split: option.split)

lemma storageStep_I: "I t \<Longrightarrow> may \<Longrightarrow> I (storageStep E now j s (stepRunOf (t_run t) j) t)"
  by (auto simp: storageStep_def Let_def intro!: own_I completeT_I put_context split: option.split sum.split)

text \<open>Switches.\<close>

lemma notTaken_I: "I t \<Longrightarrow> I (t\<lparr>t_run := notTaken now k (t_run t)\<rparr>)"
  using put_side [of t k "upd (\<lambda>f. f\<lparr>sf_Status := StepStatusCancelled, sf_CompletedAt := Some now,
      sf_Error := [(''message'', VString ''branch not taken''), (''reason'', VString switchBranchNotTakenReason)]\<rparr>) (started now (stepRunOf (t_run t) k))"]
  by (auto simp: notTaken_def putT_def started_def Let_def)

lemma fold_notTaken_I: "I t \<Longrightarrow> I (t\<lparr>t_run := fold (notTaken now) ks (t_run t)\<rparr>)"
proof (induction ks arbitrary: t)
  case (Cons k ks)
  from Cons.IH [OF notTaken_I [OF Cons.prems]] show ?case by simp
qed simp

lemma openTarget_I: "I t \<Longrightarrow> I (t\<lparr>t_run := openTarget k (t_run t)\<rparr>)"
  using put_side [of t k "if sr_Status (stepRunOf (t_run t) k) = StepStatusNone
      then upd (\<lambda>f. f\<lparr>sf_Status := StepStatusPending\<rparr>) (stepRunOf (t_run t) k) else stepRunOf (t_run t) k"] own_good [of t k]
  by (simp add: openTarget_def putT_def Let_def)

lemma takeBranch_I:
  assumes "I t" may "good C j sr"
  shows "I (takeBranch E now j s sr v cases dflt t)"
proof -
  obtain target matched where tg: "switchTarget E v cases dflt = (target, matched)" by fastforce
  note I1 = fold_notTaken_I [OF assms(1), of now "switchOthers cases dflt target"]
  show ?thesis
    using own_I [OF assms(1,2)] own_I [OF I1 assms(2)] openTarget_I [OF completeT_I [OF I1 assms(2)]] assms(3)
    by (simp add: takeBranch_def tg Let_def)
qed

lemma switchStep_I: "I t \<Longrightarrow> may \<Longrightarrow> I (switchStep E wfDef now j s (stepRunOf (t_run t) j) t)"
  by (auto simp: switchStep_def Let_def intro!: own_I takeBranch_I split: option.split)

text \<open>Jobs.\<close>

lemma persistAndPublish_I:
  assumes "I (t\<lparr>t_run := run\<rparr>)" "good C j sr" "sr_Status sr \<noteq> StepStatusSucceeded"
  shows "I (persistAndPublish E j a sr run t)"
proof -
  let ?u = "putT j sr (t\<lparr>t_run := run\<rparr>)"
  have u: "I ?u" using put_own [OF assms(1,2)] assms(3) by simp
  obtain ok st where up: "UpdateRun E (put_step j sr run) (t_store t) = (ok, st)" by fastforce
  have u1: "I (?u\<lparr>t_store := st\<rparr>)" by (rule UpdateRun_store [OF u]) (simp add: up)
  obtain ok1 st1 where pub: "publish E (Dispatched (run_ID run) j (sr_JobID sr)) st = (ok1, st1)" by fastforce
  have u2: "I (?u\<lparr>t_store := st1\<rparr>)"
    using publish_store [OF u1, of j "sr_JobID sr" ok1 st1] pub by simp
  have undone: "I (putT j (revertSR a sr) v)" if "I v" for v
    using that assms(2) by (intro put_own) (simp_all add: revertSR_def)
  obtain ok2 st2 where up2: "UpdateRun E (put_step j (revertSR a sr) (put_step j sr run)) st1 = (ok2, st2)" by fastforce
  have "I (putT j (revertSR a sr) (?u\<lparr>t_store := st1\<rparr>)\<lparr>t_store := st2\<rparr>)"
    by (rule UpdateRun_store [OF undone [OF u2]]) (simp add: up2)
  with u1 u2 undone [OF u1] show ?thesis
    by (simp add: persistAndPublish_def up pub up2 putT_def Let_def split: bool.split)
qed

lemma approvalStep_I:
  assumes "I t" shows "I (approvalStep E wfDef now j s (stepRunOf (t_run t) j) t)"
proof -
  obtain p st where c: "putJobContext E (jobIDFor (run_ID (t_run t)) j 1) (t_store t) = (p, st)" by fastforce
  have I1: "I (t\<lparr>t_store := st\<rparr>)" by (rule context_store [OF assms c])
  have I2: "I ((t\<lparr>t_store := st\<rparr>)\<lparr>t_run := (t_run t)\<lparr>run_Status := RunStatusWaiting\<rparr>\<rparr>)" using put_waiting [OF I1] by simp
  have g: "good C j (stepRunOf (t_run t) j)" using own_good [OF assms] .
  have failed: "I (putT j (markFailed m (stepRunOf (t_run t) j)) t)" "I (putT j (inputSR q (markFailed m (stepRunOf (t_run t) j))) (t\<lparr>t_store := st\<rparr>))" for m q
    using g assms I1 by (auto intro!: put_own simp: markFailed_def inputSR_def)
  have same: "I (putT j (stepRunOf (t_run t) j) t)" using g assms by (intro put_side) simp_all
  show ?thesis
    using failed same I2 g
    by (auto simp: approvalStep_def Let_def c intro!: persistAndPublish_I split: option.split)
qed

lemma dispatchJob_I:
  assumes "I t" shows "I (dispatchJob E now j s (stepRunOf (t_run t) j) jobID t)"
proof -
  obtain p st where c: "putJobContext E jobID (t_store t) = (p, st)" by fastforce
  have I1: "I (t\<lparr>t_store := st\<rparr>)" by (rule context_store [OF assms c])
  have g: "good C j (stepRunOf (t_run t) j)" using own_good [OF assms] .
  have failed: "I (putT j (markFailed m (stepRunOf (t_run t) j)) t)" "I (putT j (inputSR q (markFailed m (stepRunOf (t_run t) j))) (t\<lparr>t_store := st\<rparr>))" for m q
    using g assms I1 by (auto intro!: put_own simp: markFailed_def inputSR_def)
  show ?thesis using failed I1 g
    by (auto simp: dispatchJob_def c intro!: persistAndPublish_I split: option.split)
qed

lemma dispatchStep_I: "I t \<Longrightarrow> I (dispatchStep E now j s (stepRunOf (t_run t) j) t)"
  by (auto simp: dispatchStep_def scheduleAt_def Let_def intro!: dispatchJob_I put_side scheduleAfter_I split: option.split)

text \<open>Loops.\<close>

lemma launchChild_I:
  assumes "I t" "c \<in> L" "good C c child" "launchChild E now (run_ID (t_run t)) c payload child (t_store t) = (child1, ok, st)"
  shows "I (t\<lparr>t_store := st\<rparr>)" "good C c child1"
proof -
  let ?job = "jobIDFor (run_ID (t_run t)) c (sr_Attempts child + 1)"
  obtain p st1 where c: "putJobContext E ?job (t_store t) = (p, st1)" by fastforce
  have I1: "I (t\<lparr>t_store := st1\<rparr>)" by (rule context_store [OF assms(1) c])
  obtain ok2 st2 where pub: "publish E (Dispatched (run_ID (t_run t)) c ?job) st1 = (ok2, st2)" by fastforce
  have I2: "I (t\<lparr>t_store := st2\<rparr>)"
    using publish_store [OF I1, of c ?job ok2 st2] pub assms(2) by simp
  show "I (t\<lparr>t_store := st\<rparr>)" "good C c child1"
    using assms I1 I2 by (auto simp: launchChild_def Let_def c pub split: option.splits bool.splits)
qed

lemma putChildT_I: "I t \<Longrightarrow> may \<Longrightarrow> c \<in> L \<Longrightarrow> good C c child \<Longrightarrow> good C j sr \<Longrightarrow> I (putChildT j c child sr t)"
  unfolding putChildT_def by (rule own_I, rule put_child_of) auto

lemma loopIteration_I:
  assumes "I t" may "childID j n \<in> L" "good C j sr"
  shows "I (loopIteration E now j body scope n sr t)"
proof -
  define child where "child = (case map_of (sr_Children sr) (childID j n) of None \<Rightarrow> new_run (childID j n) StepStatusPending | Some x \<Rightarrow> x)"
  have g: "good C (childID j n) child" using assms(4) by (auto simp: child_def intro: good_child split: option.split)
  obtain child1 ok st where l: "launchChild E now (run_ID (t_run t)) (childID j n) (buildLoopPayload E (t_run t) body scope) child (t_store t) = (child1, ok, st)"
    by (cases "launchChild E now (run_ID (t_run t)) (childID j n) (buildLoopPayload E (t_run t) body scope) child (t_store t)") auto
  have "I ((putChildT j (childID j n) child sr t)\<lparr>t_store := scheduleAfter d (t_store t)\<rparr>)" for d
    using scheduleAfter_I [OF putChildT_I [OF assms(1-3) g assms(4)], of d] by (simp add: putChildT_def)
  moreover have "I ((putChildT j (childID j n) child1 sr t)\<lparr>t_store := st\<rparr>)"
    using putChildT_I [OF launchChild_I(1) [OF assms(1,3) g l] assms(2,3) launchChild_I(2) [OF assms(1,3) g l] assms(4)] by (simp add: putChildT_def)
  ultimately show ?thesis
    unfolding loopIteration_def Let_def child_def [symmetric] by (simp add: l scheduleAt_def split: option.split)
qed

lemma loopNext_I: "I t \<Longrightarrow> may \<Longrightarrow> (\<And>n. childID j n \<in> L) \<Longrightarrow> good C j sr \<Longrightarrow> I (loopNext E now j s cfg body sr t)"
  by (auto simp: loopNext_def Let_def intro!: own_I completeT_I loopIteration_I split: option.split bool.split)

lemma loopStep_I:
  assumes "I t" may "\<And>n. childID j n \<in> L"
  shows "I (loopStep E wfDef now j s (stepRunOf (t_run t) j) t)"
  using assms own_good [OF assms(1), of j]
  by (auto simp: loopStep_def Let_def intro!: own_I loopNext_I split: option.split)

text \<open>Fan-out.\<close>

lemma put_launched_J:
  assumes "J j w" "c \<in> L" "good C c x" "I ((fanTick w)\<lparr>t_store := st\<rparr>)" shows "J j (launchedFan c ok st (putFan c x w))"
proof (rule launchedFan_J)
  have "J j (w\<lparr>f_store := st\<rparr>)" using assms by (intro store_J) simp_all
  from putFan_J [OF this in_C [OF assms(2)] assms(3)] show "J j ((putFan c x w)\<lparr>f_store := st\<rparr>)" by (cases w) (simp add: putFan_def)
qed

lemma launch_J:
  assumes "J j w" "c \<in> L" "good C c child" "launchChild E now (run_ID (f_run w)) c payload child (f_store w) = (child1, ok, st)"
  shows "J j (launchedFan c ok st (putFan c child1 w))"
proof -
  have I0: "I (fanTick w)" using assms(1) by (simp add: J_def)
  have l: "launchChild E now (run_ID (t_run (fanTick w))) c payload child (t_store (fanTick w)) = (child1, ok, st)" using assms(4) by simp
  show ?thesis using put_launched_J [OF assms(1,2)] launchChild_I [OF I0 assms(2,3) l] by blast
qed

lemma parallelChild_J:
  assumes "J j w" "c \<in> L" shows "J j (parallelChild E wfDef now s c w)"
proof -
  define child where "child = (case map_of (run_Steps (f_run w)) c of None \<Rightarrow> new_run c StepStatusPending | Some x \<Rightarrow> x)"
  have g: "good C c child" using J_good [OF assms(1), of c] by (auto simp: child_def stepRunOf_def split: option.splits)
  show ?thesis
    unfolding parallelChild_def Let_def child_def [symmetric]
    using assms timer_J launch_J [OF assms g] by (auto split: option.split prod.split)
qed

lemma cancelChild_J:
  assumes "J j w" "c \<in> L" shows "J j (cancelChild E now c w)"
proof (cases "case map_of (sr_Children (f_parent w)) c of Some x \<Rightarrow> Some x | None \<Rightarrow> map_of (run_Steps (f_run w)) c")
  case (Some child)
  have g: "good C c child" using Some assms(1) J_good [OF assms(1), of c] by (auto simp: J_def stepRunOf_def dest: good_child split: option.splits)
  let ?x = "upd (\<lambda>f. f\<lparr>sf_Status := StepStatusCancelled, sf_CompletedAt := Some now,
      sf_Error := (if sf_Error f = [] then msg ''cancelled by parallel strategy'' else sf_Error f)\<rparr>) child"
  have "J j (putFan c ?x w)" using putFan_J [OF assms(1) in_C [OF assms(2)]] g by simp
  from cancel_J [OF this, of "sr_JobID child"] show ?thesis using assms(1) Some by (simp add: cancelChild_def putFan_def)
qed (use assms in \<open>simp add: cancelChild_def\<close>)

lemma cancelParallelChildren_J: "J j w \<Longrightarrow> set ids \<subseteq> L \<Longrightarrow> J j (cancelParallelChildren E now ids w)"
  unfolding cancelParallelChildren_def by (rule fold_J) (auto intro: cancelChild_J)

lemma initChildren_I:
  assumes "initChildren wfDef owners j ids (t_run t) sr = (active, err, run1, sr1)" "I t" "good C j sr" "set ids \<subseteq> L"
  shows "I (t\<lparr>t_run := run1\<rparr>) \<and> good C j sr1"
  using assms
proof (induction ids arbitrary: t sr active)
  case (Cons c cs)
  show ?case
  proof (cases "childProblem wfDef owners j c")
    case None
    let ?child = "pendingChild (t_run t) c"
    have g: "good C c ?child" using own_good [OF Cons.prems(2), of c] by (simp add: pendingChild_def Let_def)
    have "I (putT c ?child t)" using Cons.prems(2,4) g by (intro put_child_of) auto
    moreover obtain a where "initChildren wfDef owners j cs (put_step c ?child (t_run t)) (put_child c ?child sr) = (a, err, run1, sr1)"
      using Cons.prems(1) None by (auto simp: Let_def split: prod.splits)
    ultimately show ?thesis
      using Cons.IH [of "putT c ?child t" "put_child c ?child sr" a] Cons.prems(3,4) good_put_child [OF Cons.prems(3) _ g] by (simp add: putT_def)
  qed (use Cons.prems in auto)
qed auto

lemma parallelDone_I:
  assumes "J j w" may "set ids \<subseteq> L" shows "I (parallelDone E now j s ids success m w)"
  using cancelParallelChildren_J [OF assms(1,3), of now] assms(2)
  by (auto simp: parallelDone_def J_def Let_def fanTick_def [symmetric] intro!: own_I completeT_I)

lemma parallelStep_I:
  assumes "I t" may "\<And>ids st n. resolveParallelConfig E s (buildEvalScope (t_run t) VNil) = Some (ids, st, n) \<Longrightarrow> set ids \<subseteq> L"
  shows "I (parallelStep E wfDef owners now j s (stepRunOf (t_run t) j) t)"
proof (cases "resolveParallelConfig E s (buildEvalScope (t_run t) VNil)")
  case None
  then show ?thesis using assms own_good [OF assms(1), of j] by (auto simp: parallelStep_def intro!: own_I)
next
  case (Some cfg)
  obtain ids strat n where cfg: "cfg = (ids, strat, n)" by (cases cfg) auto
  let ?sr = "stepRunOf (t_run t) j"
  let ?sr1 = "if isFresh ?sr then upd (\<lambda>f. f\<lparr>sf_Status := StepStatusRunning\<rparr>) (started now ?sr) else ?sr"
  obtain active err run1 sr2 where init: "initChildren wfDef owners j ids (t_run t) ?sr1 = (active, err, run1, sr2)"
    by (cases "initChildren wfDef owners j ids (t_run t) ?sr1") auto
  have sub: "set ids \<subseteq> L" using assms(3) Some cfg by simp
  have g: "good C j ?sr" using own_good [OF assms(1)] .
  have "I (t\<lparr>t_run := run1\<rparr>) \<and> good C j sr2" using initChildren_I [OF init assms(1) _ sub] g by simp
  then have I1: "I (t\<lparr>t_run := run1\<rparr>)" and g2: "good C j (keepChildren active sr2)" by simp_all
  obtain a b r where sum: "summarizeParallelChildren (keepChildren active sr2) ids = (a, b, r)" by (metis prod_cases3)
  let ?w = "\<lparr>f_run = run1, f_parent = keepChildren active sr2, f_running = r, f_disp = t_disp t, f_store = t_store t\<rparr>"
  have Jw: "J j ?w" using I1 g2 by (cases t) (simp add: J_def fanTick_def)
  let ?w1 = "fold (parallelChild E wfDef now s) ids ?w"
  have J1: "J j ?w1" by (rule fold_J) (use Jw sub parallelChild_J in auto)
  then have "I (endFan j (?w1\<lparr>f_parent := upd (\<lambda>f. f\<lparr>sf_Status := StepStatusRunning\<rparr>) (f_parent ?w1)\<rparr>))"
    using assms(2) by (auto simp: endFan_def J_def fanTick_def putT_def [symmetric] intro!: own_I [unfolded putT_def, of "fanTick ?w1", simplified])
  with parallelDone_I [OF Jw assms(2) sub] own_I [OF I1 assms(2)] own_I [OF assms(1,2)] completeT_I [OF assms(1,2)] g g2 show ?thesis
    unfolding parallelStep_def Some cfg by (simp add: init sum Let_def split: option.split)
qed

text \<open>For-each steps.\<close>

lemma precreate_J: "J j w \<Longrightarrow> childID j n \<in> L \<Longrightarrow> J j (precreate j n w)"
  by (auto simp: precreate_def Let_def intro: putFan_J)

lemma launchItem_J:
  assumes "J j w" "c \<in> L" "good C c child" shows "J j (launchItem E now c s item child w)"
proof -
  have I0: "I (fanTick w)" using assms(1) by (simp add: J_def)
  let ?job = "jobIDFor (run_ID (f_run w)) c (sr_Attempts child + 1)"
  obtain p st where c: "putJobContext E ?job (f_store w) = (p, st)" by fastforce
  have I1: "I ((fanTick w)\<lparr>t_store := st\<rparr>)" using context_store [OF I0, of ?job p st] c by simp
  obtain ok st1 where pub: "publish E (Dispatched (run_ID (f_run w)) c ?job) st = (ok, st1)" by fastforce
  have I2: "I ((fanTick w)\<lparr>t_store := st1\<rparr>)"
    using publish_store [OF I1, of c ?job ok st1] pub assms(2) by simp
  show ?thesis using put_launched_J [OF assms(1,2) _ I1] put_launched_J [OF assms(1,2) _ I2] putFan_J [OF assms(1) in_C [OF assms(2)]] assms(3)
    by (simp add: launchItem_def c pub Let_def split: option.split bool.split)
qed

lemma forEachChild_J:
  assumes "J j w" "childID j (fst e) \<in> L" shows "J j (forEachChild E now j s e w)"
proof -
  let ?c = "childID j (fst e)"
  have "good C ?c (case map_of (sr_Children (f_parent w)) ?c of None \<Rightarrow> new_run ?c StepStatusPending | Some x \<Rightarrow> x)"
    using assms(1) by (auto simp: J_def dest: good_child split: option.split)
  with launchItem_J [OF assms] timer_J [OF assms(1)] assms(1) show ?thesis
    unfolding forEachChild_def Let_def by (auto split: option.split)
qed

lemma J_parent: "J j w \<Longrightarrow> good C j p \<Longrightarrow> J j (w\<lparr>f_parent := p, f_running := r\<rparr>)"
  by (simp add: J_def fanTick_def)

lemma forEachStep_I:
  assumes "I t" may "\<And>n. childID j n \<in> L" shows "I (forEachStep E now j s (stepRunOf (t_run t) j) t)"
proof (cases "forEachItems E s (stepRunOf (t_run t) j) (t_run t)")
  case (Inr items)
  let ?sr1 = "upd (\<lambda>f. f\<lparr>sf_ResolvedItems := Some items\<rparr>) (stepRunOf (t_run t) j)"
  let ?w0 = "\<lparr>f_run = t_run t, f_parent = ?sr1, f_running = 0, f_disp = t_disp t, f_store = t_store t\<rparr>"
  let ?w1 = "fold (precreate j) [0..<length items] ?w0"
  let ?parent = "upd (\<lambda>f. f\<lparr>sf_Status := StepStatusRunning\<rparr>) (started now (f_parent ?w1))"
  let ?w2 = "?w1\<lparr>f_parent := ?parent, f_running := runningChildren ?parent\<rparr>"
  have g: "good C j ?sr1" using own_good [OF assms(1), of j] by simp
  then have "J j ?w0" using assms(1) by (cases t) (simp add: J_def fanTick_def)
  then have "J j ?w1" using assms(3) by (intro fold_J precreate_J)
  then have "J j ?w2" by (intro J_parent) (auto simp: J_def)
  then have "J j (fold (forEachChild E now j s) (zip [0..<length items] items) ?w2)" using assms(3) by (intro fold_J forEachChild_J)
  then have "I (endFan j (fold (forEachChild E now j s) (zip [0..<length items] items) ?w2))"
    using assms(2) by (auto simp: endFan_putT J_def intro!: own_I)
  with own_I [OF assms(1,2)] g show ?thesis by (simp add: forEachStep_def Inr Let_def)
qed (use own_I [OF assms(1,2)] own_good [OF assms(1), of j] in \<open>simp add: forEachStep_def\<close>)

text \<open>Sub-workflows.\<close>

lemma started_store: "I t \<Longrightarrow> base \<le> n \<Longrightarrow> n < s_calls (t_store t) \<Longrightarrow> start wid (newUUID E n) (t_store t) = (ok, st) \<Longrightarrow> I (t\<lparr>t_store := st\<rparr>)"
  using started_child [of t n wid] by simp

lemma CreateRun_store:
  assumes "I t" "wf_run {} r" "run_ID r = newUUID E (s_calls (t_store t))" "run_CreatedAt r \<noteq> None" "CreateRun E now r (t_store t) = (ok, st)"
  shows "I (t\<lparr>t_store := st\<rparr>) \<and> (ok \<longrightarrow> s_calls (t_store t) < s_calls st)"
  using assms(5) called [OF assms(1)] indexRun_I [OF created [OF assms(1-3)], of "run_OrgID r" "run_ID r" "run_Status r"] assms(1,4)
  by (auto simp: CreateRun_def externalCall_def bump_def storeRun_def indexRun_def Let_def split: if_splits outcome.splits)

lemma startChild_I:
  assumes "I t" may shows "I (startChild E start now j cfg (stepRunOf (t_run t) j) t)"
proof -
  have g: "good C j (stepRunOf (t_run t) j)" using own_good [OF assms(1)] .
  have fin: "I (putT j sr (t\<lparr>t_store := st\<rparr>))" if "I (t\<lparr>t_store := st\<rparr>)" "good C j sr" for st sr
    using own_I [OF that(1) assms(2)] that(2) by simp
  obtain p st where gw: "GetWorkflow E (sub_workflowID cfg) (t_store t) = (p, st)" by fastforce
  have I1: "I (t\<lparr>t_store := st\<rparr>)" by (rule GetWorkflow_store [OF assms(1) gw])
  have made: "I (t\<lparr>t_store := st1\<rparr>) \<and> (ok \<longrightarrow> s_calls st < s_calls st1)"
    if "CreateRun E now (childRun now j (sub_workflowID cfg) (newUUID E (s_calls st)) input (t_run t)) st = (ok, st1)" for input ok st1
    using CreateRun_store [OF I1, of "childRun now j (sub_workflowID cfg) (newUUID E (s_calls st)) input (t_run t)" now ok st1] that
    by (simp add: childRun_def wf_run_def Let_def)
  have launched: "I (t\<lparr>t_store := st2\<rparr>)"
    if "CreateRun E now (childRun now j (sub_workflowID cfg) (newUUID E (s_calls st)) input (t_run t)) st = (True, st1)"
      "start (sub_workflowID cfg) (newUUID E (s_calls st)) st1 = (ok2, st2)" for input st1 ok2 st2
    using started_store [of "t\<lparr>t_store := st1\<rparr>" "s_calls st" "sub_workflowID cfg" ok2 st2] base [OF I1] made [OF that(1)] that(2) by simp
  show ?thesis
    using own_I [OF assms] I1 g
    by (auto simp: startChild_def Let_def gw intro!: fin dest: made launched split: option.split lookup.split prod.split bool.split)
qed

lemma pollChild_I:
  assumes "I t" may shows "I (pollChild E now j s cfg rid (stepRunOf (t_run t) j) t)"
proof -
  obtain p st where gr: "GetRun E rid (t_store t) = (p, st)" by fastforce
  have I1: "I (t\<lparr>t_store := st\<rparr>)" by (rule GetRun_store [OF assms(1) gr])
  have g: "good C j (stepRunOf (t_run t) j)" using own_good [OF assms(1)] .
  show ?thesis using own_I [OF I1 assms(2)] completeT_I [OF I1 assms(2)] g
    by (simp add: pollChild_def gr Let_def split: lookup.split option.split)
qed

lemma subWorkflowStep_I: "I t \<Longrightarrow> may \<Longrightarrow> I (subWorkflowStep E start now j s (stepRunOf (t_run t) j) t)"
  by (auto simp: subWorkflowStep_def intro!: own_I startChild_I pollChild_I split: option.split)

text \<open>Every step type.\<close>

lemma runStep_I:
  assumes "I t" "may \<or> st_Type s = StepTypeApproval" "\<And>n. childID j n \<in> L"
    "\<And>ids st n. resolveParallelConfig E s (buildEvalScope (t_run t) VNil) = Some (ids, st, n) \<Longrightarrow> set ids \<subseteq> L"
  shows "I (runStep E start now wfDef owners j s (stepRunOf (t_run t) j) t)"
proof (cases "st_Type s = StepTypeApproval")
  case True
  then show ?thesis using approvalStep_I [OF assms(1)] by (simp add: runStep_def)
next
  case False
  then have m: may using assms(2) by simp
  note handlers = conditionStep_I [OF assms(1) m] delayStep_I [OF assms(1) m] notifyStep_I [OF assms(1) m] transformStep_I [OF assms(1) m]
    switchStep_I [OF assms(1) m] subWorkflowStep_I [OF assms(1) m] parallelStep_I [OF assms(1) m assms(4)] loopStep_I [OF assms(1) m assms(3)]
    forEachStep_I [OF assms(1) m assms(3)] storageStep_I [OF assms(1) m] dispatchStep_I [OF assms(1)]
  show ?thesis using False handlers by (simp add: runStep_def Let_def split: step_type.split)
qed

lemma processStep_I:
  assumes "I t" "\<And>s. x = Some s \<Longrightarrow> may \<or> (st_Type s = StepTypeApproval \<and> st_Condition s = [])" "\<And>n. childID j n \<in> L"
    "\<And>s ids st n. x = Some s \<Longrightarrow> resolveParallelConfig E s (buildEvalScope (t_run t) VNil) = Some (ids, st, n) \<Longrightarrow> set ids \<subseteq> L"
  shows "I (processStep E start now wfDef (j, x) t)"
proof (cases x)
  case (Some s)
  have gate: "I t1" if "conditionGate E now j s (stepRunOf (t_run t) j) t = Some t1" for t1
    using conditionGate_I [OF assms(1) _ that] assms(2) [OF Some] that by (auto simp: conditionGate_def)
  have "I (runStep E start now wfDef owners j s (stepRunOf (t_run t) j) t)" for owners
    using assms(2) [OF Some] by (intro runStep_I [OF assms(1) _ assms(3)] assms(4) [OF Some]) auto
  with gate assms(1) show ?thesis by (simp add: processStep_def Some Let_def split: option.split)
qed (use assms(1) in \<open>simp add: processStep_def\<close>)

end

section \<open>The scheduler\<close>

text \<open>
  What an operation on a whole run relies on: the step handlers keep the invariant on the workflows in
  question, and so does putting the handler of a failed step or the outcome of a job.
\<close>

locale run_moves = tick_moves +
  fixes start :: "string \<Rightarrow> string \<Rightarrow> wf_store \<Rightarrow> bool \<times> wf_store" and ok :: "workflow \<Rightarrow> bool" and names :: "string set" and free :: "string \<Rightarrow> bool"
  assumes step: "I t \<Longrightarrow> ok W \<Longrightarrow> e \<in> set (wf_Steps W) \<Longrightarrow> I (processStep E start now W e t)"
    and activate: "I t \<Longrightarrow> ok W \<Longrightarrow> handler W i = Some h \<Longrightarrow> good C h sr \<Longrightarrow> sr_Status sr \<noteq> StepStatusSucceeded \<Longrightarrow> I (putT h sr t)"
    and found: "I t \<Longrightarrow> x \<in> names \<Longrightarrow> map_of (s_workflows (t_store t)) x = Some W \<Longrightarrow> ok W"
    and named: "I t \<Longrightarrow> run_WorkflowID (t_run t) \<in> names"
    and take: "I t \<Longrightarrow> free k \<Longrightarrow> good C k sr \<Longrightarrow> sr_Input sr = sr_Input (stepRunOf (t_run t) k) \<Longrightarrow> I (putT k sr t)"
begin

lemma activate_I: "I t \<Longrightarrow> ok W \<Longrightarrow> I (t\<lparr>t_run := activateOnErrorHandler W i sr (t_run t)\<rparr>)"
proof (cases "handler W i")
  case (Some h)
  assume a: "I t" "ok W"
  have "good C h (stepRunOf (t_run t) h)" using own_good [OF a(1)] .
  then have "I (putT h (upd (\<lambda>f. f\<lparr>sf_Status := StepStatusPending,
      sf_Input := mput ''error'' (VMap (mput ''step_id'' (VString i) (sr_Error sr))) (sf_Input f)\<rparr>) (stepRunOf (t_run t) h)) t)"
    by (intro activate [OF a Some]) simp_all
  then show ?thesis using a(1) by (simp add: activateOnErrorHandler_def Some putT_def)
qed (simp add: activateOnErrorHandler_def)

lemma activateFailed_I: "I t \<Longrightarrow> ok W \<Longrightarrow> I (t\<lparr>t_run := activateFailed W (t_run t)\<rparr>)"
proof -
  assume a: "I t" "ok W"
  define f where "f = (\<lambda>i r. let sr = stepRunOf r i in
      if sr_Status sr = StepStatusFailed \<or> sr_Status sr = StepStatusTimedOut then activateOnErrorHandler W i sr r else r)"
  have "I (t\<lparr>t_run := fold f is (t_run t)\<rparr>)" if "I t" for "is" t
    using that
  proof (induction "is" arbitrary: t)
    case (Cons i "is")
    have "I (t\<lparr>t_run := f i (t_run t)\<rparr>)" using activate_I [OF Cons.prems a(2)] Cons.prems by (simp add: f_def Let_def)
    from Cons.IH [OF this] show ?case by simp
  qed simp
  from this [OF a(1)] show ?thesis by (simp add: activateFailed_def f_def)
qed

lemma onePass_I:
  assumes "I t" "ok W" shows "I (onePass E start now W t)"
proof -
  have "I (fold (processStep E start now W) es u)" if "set es \<subseteq> set (wf_Steps W)" "I u" for es u
    using that assms(2) by (induction es arbitrary: u) (auto intro: step)
  from activateFailed_I [OF this [OF _ assms(1)] assms(2)] show ?thesis by (simp add: onePass_def Let_def)
qed

lemma passes_I: "I t \<Longrightarrow> ok W \<Longrightarrow> I (passes E start now W n t)"
  by (induction n arbitrary: t) (simp_all add: onePass_I Let_def)

lemma scheduleReady_K:
  assumes "K r s" "ok W" "scheduleReady E start now W r s = (b, r', s')" shows "K r' s'"
proof -
  let ?r1 = "if run_Status r = RunStatusPending then r\<lparr>run_Status := RunStatusRunning, run_StartedAt := Some now\<rparr> else r"
  obtain x r2 s1 where e: "enforceWorkflowTimeout E W now ?r1 s = (x, r2, s1)" by (metis prod_cases3)
  have k1: "K ?r1 s" by (rule K_settle [OF assms(1)]) simp
  have k2: "K r2 s1" by (rule K_timeout [OF k1 e])
  define t where "t = passes E start now W (max 1 (length (wf_Steps W))) \<lparr>t_run = r2, t_disp = [], t_store = s1\<rparr>"
  have "I (t\<lparr>t_disp := []\<rparr>)" using passes_I [OF _ assms(2)] k2 by (auto simp: t_def K_def intro: put_disp)
  then have k3: "K (t_run t) (t_store t)" by (cases t) (simp add: K_def)
  obtain b1 s2 where u: "UpdateRun E (updateRunStatus W now (t_run t)) (t_store t) = (b1, s2)" by fastforce
  have k4: "K (updateRunStatus W now (t_run t)) s2" by (rule K_UpdateRun [OF K_settle [OF k3 calm_updateRunStatus] u])
  show ?thesis using assms(1,3) k2 k4
    by (simp add: scheduleReady_def Let_def e u t_def [symmetric, simplified] split: if_splits option.splits bool.splits)
qed

end

section \<open>The frame of an operation\<close>

text \<open>
  The runs a store holds are well formed and stored under their ids. An operation on the run \<open>rid\<close>
  changes that run and runs with ids drawn since, nothing else; it dispatches jobs of these runs only.
\<close>

definition stored_ok :: "wf_store \<Rightarrow> bool" where
  "stored_ok s \<longleftrightarrow> wf_map (s_runs s) \<and> (\<forall>(rid, r) \<in> set (s_runs s). run_ID r = rid \<and> wf_run UNIV r)"

definition fresh :: "engine \<Rightarrow> nat \<Rightarrow> string set" where
  "fresh E n = newUUID E ` {n..}"

definition concerns :: "string set \<Rightarrow> wf_effect \<Rightarrow> bool" where
  "concerns R e = (case e of Dispatched r _ _ \<Rightarrow> r \<in> R | _ \<Rightarrow> True)"

definition ext :: "engine \<Rightarrow> string \<Rightarrow> wf_store \<Rightarrow> wf_store \<Rightarrow> bool" where
  "ext E rid s s' \<longleftrightarrow>
     s_workflows s' = s_workflows s \<and> s_calls s \<le> s_calls s' \<and> (stored_ok s \<longrightarrow> stored_ok s') \<and>
     (\<forall>r. r \<notin> insert rid (fresh E (s_calls s)) \<longrightarrow> map_of (s_runs s') r = map_of (s_runs s) r) \<and>
     (\<exists>es. s_trace s' = s_trace s @ es \<and> list_all (concerns (insert rid (fresh E (s_calls s)))) es)"

lemma fresh_mono: "m \<le> n \<Longrightarrow> fresh E n \<subseteq> fresh E m"
  by (auto simp: fresh_def)

lemma ext_refl [simp]: "ext E rid s s"
  by (simp add: ext_def)

lemma ext_trans:
  assumes "ext E rid s s'" "ext E rid' s' s''" "rid' \<in> insert rid (fresh E (s_calls s))" shows "ext E rid s s''"
proof -
  let ?R = "insert rid (fresh E (s_calls s))" and ?R' = "insert rid' (fresh E (s_calls s'))"
  have sub: "?R' \<subseteq> ?R" using assms(1,3) fresh_mono [of "s_calls s" "s_calls s'"] by (auto simp: ext_def)
  obtain es es' where es: "s_trace s' = s_trace s @ es" "list_all (concerns ?R) es" "s_trace s'' = s_trace s' @ es'" "list_all (concerns ?R') es'"
    using assms(1,2) by (auto simp: ext_def)
  have "concerns ?R' e \<Longrightarrow> concerns ?R e" for e using sub by (cases e) (auto simp: concerns_def)
  then have "list_all (concerns ?R) es'" using es(4) list.pred_mono_strong by blast
  moreover have "map_of (s_runs s'') r = map_of (s_runs s) r" if "r \<notin> ?R" for r
    using that sub assms(1,2) unfolding ext_def by (metis subsetD)
  ultimately show ?thesis using es assms(1,2) by (auto simp: ext_def)
qed

lemma set_mput: "set (mput k v m) \<subseteq> insert (k, v) (set m)"
  by (induction m) (auto split: if_splits)

lemma stored_ok_put: "stored_ok s \<Longrightarrow> wf_run UNIV r \<Longrightarrow> stored_ok (storeRun r s)"
  using set_mput [of "run_ID r" r "s_runs s"] by (auto simp: stored_ok_def storeRun_def)

lemma stored_ok_fields [simp]:
  "stored_ok (s\<lparr>s_calls := n\<rparr>) = stored_ok s" "stored_ok (s\<lparr>s_trace := es\<rparr>) = stored_ok s" "stored_ok (s\<lparr>s_active := a\<rparr>) = stored_ok s" "stored_ok (bump s) = stored_ok s"
  by (simp_all add: stored_ok_def bump_def)

lemma storeRun_fields [simp]:
  "s_runs (storeRun r s) = mput (run_ID r) r (s_runs s)" "s_workflows (storeRun r s) = s_workflows s"
  "s_calls (storeRun r s) = s_calls s" "s_trace (storeRun r s) = s_trace s"
  by (simp_all add: storeRun_def)

lemma bump_fields [simp]:
  "s_runs (bump s) = s_runs s" "s_workflows (bump s) = s_workflows s" "s_calls (bump s) = Suc (s_calls s)" "s_trace (bump s) = s_trace s"
  by (simp_all add: bump_def)

lemma stored_okD: "stored_ok s \<Longrightarrow> map_of (s_runs s) rid = Some r \<Longrightarrow> run_ID r = rid \<and> wf_run UNIV r"
  by (auto simp: stored_ok_def dest!: map_of_SomeD)

text \<open>Starting a run is an operation of that kind.\<close>

definition start_ok :: "engine \<Rightarrow> (string \<Rightarrow> string \<Rightarrow> wf_store \<Rightarrow> bool \<times> wf_store) \<Rightarrow> bool" where
  "start_ok E start \<longleftrightarrow> (\<forall>wid rid s. stored_ok s \<longrightarrow> ext E rid s (snd (start wid rid s)))"

definition frame :: "engine \<Rightarrow> (string \<Rightarrow> string \<Rightarrow> wf_store \<Rightarrow> bool \<times> wf_store) \<Rightarrow> string \<Rightarrow> wf_store \<Rightarrow> tick \<Rightarrow> bool" where
  "frame E start rid s0 t \<longleftrightarrow> start_ok E start \<and> stored_ok s0 \<and> wf_run UNIV (t_run t) \<and> run_ID (t_run t) = rid \<and> ext E rid s0 (t_store t)"

lemma ext_bump: "ext E rid s s' \<Longrightarrow> ext E rid s (bump s')"
  by (auto simp: ext_def bump_def stored_ok_def)

lemma ext_storeRun: "ext E rid s s' \<Longrightarrow> wf_run UNIV r \<Longrightarrow> run_ID r \<in> insert rid (fresh E (s_calls s)) \<Longrightarrow> ext E rid s (storeRun r s')"
  by (auto simp: ext_def stored_ok_put)

lemma ext_trace: "ext E rid s s' \<Longrightarrow> concerns {rid} e \<Longrightarrow> ext E rid s (s'\<lparr>s_trace := s_trace s' @ [e]\<rparr>)"
  by (auto simp: ext_def stored_ok_def concerns_def split: wf_effect.splits)

lemma ext_active: "ext E rid s s' \<Longrightarrow> ext E rid s (s'\<lparr>s_active := a\<rparr>)"
  by (auto simp: ext_def)

lemma good_mono: "good C i sr \<Longrightarrow> C \<subseteq> D \<Longrightarrow> good D i sr" "goods C cs \<Longrightarrow> C \<subseteq> D \<Longrightarrow> goods D cs"
  by (induction C i sr and C cs rule: good_goods.induct) auto

lemma wf_run_mono: "wf_run C r \<Longrightarrow> C \<subseteq> D \<Longrightarrow> wf_run D r"
  by (auto simp: wf_run_def intro: good_mono)

interpretation frame_step: step_moves E UNIV "s_calls s0" "frame E start rid s0" UNIV start j True
proof unfold_locales
  fix t wid n assume "frame E start rid s0 t" "s_calls s0 \<le> n"
  then have "ext E rid s0 (t_store t)" "start_ok E start" "newUUID E n \<in> fresh E (s_calls s0)" "stored_ok (t_store t)"
    by (auto simp: frame_def fresh_def ext_def)
  then have "ext E rid s0 (snd (start wid (newUUID E n) (t_store t)))" unfolding start_ok_def by (blast intro: ext_trans)
  then show "frame E start rid s0 (t\<lparr>t_store := snd (start wid (newUUID E n) (t_store t))\<rparr>)" using \<open>frame E start rid s0 t\<close> by (simp add: frame_def)
next
  fix t r assume f: "frame E start rid s0 t" "wf_run {} r" "run_ID r = newUUID E (s_calls (t_store t))"
  have "newUUID E (s_calls (t_store t)) \<in> fresh E (s_calls s0)" using f(1) by (auto simp: frame_def ext_def fresh_def)
  then show "frame E start rid s0 (t\<lparr>t_store := storeRun r (bump (t_store t))\<rparr>)"
    using f wf_run_mono [OF f(2), of UNIV] by (auto simp: frame_def intro!: ext_storeRun ext_bump)
qed (auto simp: frame_def calm_def trace_def isDispatch_def concerns_def intro!: ext_bump ext_active ext_storeRun ext_trace split: wf_effect.splits, simp_all add: ext_def)

interpretation frame_run: run_moves E UNIV "s_calls s0" "frame E start rid s0" start "\<lambda>_. True" UNIV "\<lambda>_. True"
proof unfold_locales
  fix t W e now assume "frame E start rid s0 t"
  then show "frame E start rid s0 (processStep E start now W e t)"
    using frame_step.processStep_I [of E start rid s0 t "snd e" "fst e" now W] by simp
qed (auto simp: frame_def)

section \<open>Steps behind an approval\<close>

abbreviation baseOf :: "string \<Rightarrow> string" where
  "baseOf c \<equiv> fst (splitForEachStep c)"

text \<open>
  The step \<open>i\<close> of the workflow depends on the approval step \<open>g\<close>, which is unconditional and has no
  handler; \<open>i\<close> handles no failure, and neither is a child of a parallel step.
\<close>

definition gated :: "engine \<Rightarrow> workflow \<Rightarrow> string \<Rightarrow> string \<Rightarrow> bool" where
  "gated E W g i \<longleftrightarrow>
     wf_map (wf_Steps W) \<and> g \<noteq> i \<and> (\<forall>k \<in> keys (wf_Steps W). CHR ''['' \<notin> set k) \<and> \<not> isOnErrorTarget W i \<and>
     (case step_def W g of None \<Rightarrow> False | Some a \<Rightarrow> st_Type a = StepTypeApproval \<and> st_Condition a = [] \<and> st_OnError a = []) \<and>
     (case step_def W i of None \<Rightarrow> False | Some s \<Rightarrow> st_ID s = i \<and> g \<in> set (st_DependsOn s)) \<and>
     (\<forall>k s scope ids strat n. step_def W k = Some s \<longrightarrow> resolveParallelConfig E s scope = Some (ids, strat, n) \<longrightarrow>
        g \<notin> set ids \<and> (\<forall>c \<in> set ids. baseOf c \<noteq> i))"

definition awaiting :: "string \<Rightarrow> string \<Rightarrow> workflow_run \<Rightarrow> bool" where
  "awaiting g i r \<longleftrightarrow> sr_Status (stepRunOf r g) \<noteq> StepStatusSucceeded \<and> map_of (sr_Input (stepRunOf r i)) ''error'' = None"

text \<open>A job of the step \<open>i\<close> of the run \<open>rid\<close>, or of one of its for-each children.\<close>

definition launches :: "string \<Rightarrow> string \<Rightarrow> wf_effect \<Rightarrow> bool" where
  "launches rid i e = (case e of Dispatched r c _ \<Rightarrow> r = rid \<and> baseOf c = i | _ \<Rightarrow> False)"

definition heldRun :: "string \<Rightarrow> string \<Rightarrow> string \<Rightarrow> string \<Rightarrow> workflow_run \<Rightarrow> bool" where
  "heldRun wid rid g i r \<longleftrightarrow> run_ID r = rid \<and> run_WorkflowID r = wid \<and> wf_run (- {g, i}) r \<and> awaiting g i r"

definition held :: "string \<Rightarrow> workflow \<Rightarrow> string \<Rightarrow> string \<Rightarrow> string \<Rightarrow> wf_store \<Rightarrow> bool" where
  "held wid W rid g i s \<longleftrightarrow>
     map_of (s_workflows s) wid = Some W \<and> (\<forall>r. map_of (s_runs s) rid = Some r \<longrightarrow> heldRun wid rid g i r) \<and>
     (\<forall>e \<in> set (s_trace s). \<not> launches rid i e)"

definition gate :: "engine \<Rightarrow> (string \<Rightarrow> string \<Rightarrow> wf_store \<Rightarrow> bool \<times> wf_store) \<Rightarrow> nat \<Rightarrow> string \<Rightarrow> workflow \<Rightarrow> string \<Rightarrow> string \<Rightarrow> string \<Rightarrow> tick \<Rightarrow> bool" where
  "gate E start b wid W rid g i t \<longleftrightarrow>
     start_ok E start \<and> stored_ok (t_store t) \<and> rid \<notin> fresh E b \<and> b \<le> s_calls (t_store t) \<and> gated E W g i \<and> heldRun wid rid g i (t_run t) \<and> held wid W rid g i (t_store t)"

lemma IndexByte_None: "c \<notin> set xs \<Longrightarrow> IndexByte xs c = None"
  by (induction xs) auto

lemma baseOf_plain: "CHR ''['' \<notin> set k \<Longrightarrow> baseOf k = k"
  by (simp add: splitForEachStep_def IndexByte_None)

lemma baseOf_childID: "CHR ''['' \<notin> set k \<Longrightarrow> baseOf (childID k n) = k"
  by (simp add: splitForEachStep_def childID_def IndexByte_skip)

lemma held_ext:
  assumes "held wid W rid g i s" "ext E r s s'" "rid \<notin> insert r (fresh E (s_calls s))" shows "held wid W rid g i s'"
proof -
  obtain es where es: "s_trace s' = s_trace s @ es" "list_all (concerns (insert r (fresh E (s_calls s)))) es" using assms(2) by (auto simp: ext_def)
  have "\<not> launches rid i e" if "e \<in> set es" for e
  proof -
    have "concerns (insert r (fresh E (s_calls s))) e" using that es(2) by (simp add: list_all_iff)
    with assms(3) show ?thesis by (cases e) (auto simp: launches_def concerns_def)
  qed
  moreover have "map_of (s_runs s') rid = map_of (s_runs s) rid" "s_workflows s' = s_workflows s" using assms(2,3) by (auto simp: ext_def)
  ultimately show ?thesis using assms(1) es(1) by (auto simp: held_def)
qed

lemma heldRun_put:
  "heldRun wid rid g i r \<Longrightarrow> good (- {g, i}) k sr \<Longrightarrow> (k = g \<Longrightarrow> sr_Status sr \<noteq> StepStatusSucceeded) \<Longrightarrow>
   (k = i \<Longrightarrow> map_of (sr_Input sr) ''error'' = None) \<Longrightarrow> heldRun wid rid g i (put_step k sr r)"
  by (auto simp: heldRun_def awaiting_def)

interpretation gate_step: step_moves E "- {g, i}" b "\<lambda>t. gate E start b wid W rid g i t \<and> j \<noteq> i \<and> baseOf j \<noteq> i \<and> may = (j \<noteq> g)"
  "{c. c \<noteq> g \<and> c \<noteq> i \<and> baseOf c \<noteq> i}" start j may
proof unfold_locales
  show "gate E start b wid W rid g i t \<and> j \<noteq> i \<and> baseOf j \<noteq> i \<and> may = (j \<noteq> g) \<Longrightarrow> b \<le> n \<Longrightarrow>
      gate E start b wid W rid g i (t\<lparr>t_store := snd (start wid' (newUUID E n) (t_store t))\<rparr>) \<and> j \<noteq> i \<and> baseOf j \<noteq> i \<and> may = (j \<noteq> g)" for t n wid'
  proof -
    assume a: "gate E start b wid W rid g i t \<and> j \<noteq> i \<and> baseOf j \<noteq> i \<and> may = (j \<noteq> g)" "b \<le> n"
    let ?s = "snd (start wid' (newUUID E n) (t_store t))"
    have e: "ext E (newUUID E n) (t_store t) ?s" using a(1) by (simp add: gate_def start_ok_def)
    have "rid \<notin> insert (newUUID E n) (fresh E (s_calls (t_store t)))" using a by (auto simp: gate_def fresh_def)
    with held_ext [OF _ e] a(1) e show ?thesis by (auto simp: gate_def ext_def)
  qed
  show "gate E start b wid W rid g i t \<and> j \<noteq> i \<and> baseOf j \<noteq> i \<and> may = (j \<noteq> g) \<Longrightarrow> wf_run {} r \<Longrightarrow> run_ID r = newUUID E (s_calls (t_store t)) \<Longrightarrow>
      gate E start b wid W rid g i (t\<lparr>t_store := storeRun r (bump (t_store t))\<rparr>) \<and> j \<noteq> i \<and> baseOf j \<noteq> i \<and> may = (j \<noteq> g)" for t r
    by (auto simp: gate_def held_def fresh_def intro!: stored_ok_put wf_run_mono [of "{}" _ UNIV])
qed (auto simp: gate_def held_def trace_def launches_def isDispatch_def calm_def heldRun_def awaiting_def
    intro!: stored_ok_put wf_run_mono [of "- {g, i}" _ UNIV] split: wf_effect.splits)

lemma gated_blocked:
  assumes "gated E W g i" "awaiting g i r" "step_def W i = Some s" shows "\<not> depsSatisfied s r W"
proof -
  have "\<not> errorActivated r s" "\<not> depSatisfied r W g" "g \<in> set (st_DependsOn s)"
    using assms by (auto simp: gated_def awaiting_def errorActivated_def depSatisfied_def stepRunOf_def split: option.splits)
  then show ?thesis by (auto simp: depsSatisfied_def list_all_iff)
qed

lemma step_def_entry: "wf_map (wf_Steps W) \<Longrightarrow> (k, x) \<in> set (wf_Steps W) \<Longrightarrow> step_def W k = x"
  by (simp add: step_def_def wf_map_def split: option.split)

lemma step_def_key: "step_def W k \<noteq> None \<Longrightarrow> k \<in> keys (wf_Steps W)"
  by (force simp: step_def_def keys_def split: option.splits dest: map_of_SomeD)

lemma gated_plain: "gated E W g i \<Longrightarrow> CHR ''['' \<notin> set g \<and> CHR ''['' \<notin> set i"
  using step_def_key [of W g] step_def_key [of W i] by (auto simp: gated_def split: option.splits)

lemma gate_processStep:
  assumes "gate E start b wid W rid g i t" "(k, x) \<in> set (wf_Steps W)"
  shows "gate E start b wid W rid g i (processStep E start now W (k, x) t)"
proof (cases "k = i")
  case True
  have d: "step_def W i = x" using assms True by (auto simp: gate_def gated_def intro: step_def_entry)
  show ?thesis
    using gated_blocked [of E W g i "t_run t"] assms(1) d True by (auto simp: processStep_def gate_def heldRun_def Let_def split: option.split)
next
  case False
  have W: "gated E W g i" using assms(1) by (simp add: gate_def)
  have d: "step_def W k = x" using W assms(2) by (auto simp: gated_def intro: step_def_entry)
  have plain: "CHR ''['' \<notin> set k" "CHR ''['' \<notin> set g" "CHR ''['' \<notin> set i"
    using W assms(2) gated_plain [OF W] by (auto simp: gated_def keys_def)
  have "gate E start b wid W rid g i (processStep E start now W (k, x) t) \<and> k \<noteq> i \<and> baseOf k \<noteq> i \<and> (k \<noteq> g) = (k \<noteq> g)"
  proof (rule gate_step.processStep_I)
    show "childID k n \<in> {c. c \<noteq> g \<and> c \<noteq> i \<and> baseOf c \<noteq> i}" for n using plain False baseOf_childID by (auto simp: childID_def)
    show "k \<noteq> g \<or> st_Type s = StepTypeApproval \<and> st_Condition s = []" if "x = Some s" for s
      using W d that by (auto simp: gated_def)
    show "set ids \<subseteq> {c. c \<noteq> g \<and> c \<noteq> i \<and> baseOf c \<noteq> i}"
      if "x = Some s" "resolveParallelConfig E s (buildEvalScope (t_run t) VNil) = Some (ids, st, n)" for s ids st n
      using W d that baseOf_plain [OF plain(3)] unfolding gated_def by blast
  qed (use assms(1) False plain baseOf_plain in auto)
  then show ?thesis by simp
qed

interpretation gate_run: run_moves E "- {g, i}" b "gate E start b wid W rid g i" start "\<lambda>X. X = W" "{wid}" "\<lambda>k. k \<noteq> g"
proof unfold_locales
  show "gate E start b wid W rid g i t \<Longrightarrow> X = W \<Longrightarrow> e \<in> set (wf_Steps X) \<Longrightarrow> gate E start b wid W rid g i (processStep E start now X e t)" for t X e now
    using gate_processStep by (cases e) simp
  show "gate E start b wid W rid g i t \<Longrightarrow> X = W \<Longrightarrow> handler X k = Some h \<Longrightarrow> good (- {g, i}) h sr \<Longrightarrow>
      sr_Status sr \<noteq> StepStatusSucceeded \<Longrightarrow> gate E start b wid W rid g i (putT h sr t)" for t X k h sr
    by (auto simp: gate_def gated_def isOnErrorTarget_def handler_def step_def_def intro!: heldRun_put dest!: map_of_SomeD split: option.splits if_splits)
qed (auto simp: gate_def held_def trace_def launches_def isDispatch_def calm_def heldRun_def awaiting_def
    intro!: stored_ok_put wf_run_mono [of "- {g, i}" _ UNIV] split: wf_effect.splits)

end
