(* ===== verification/Workflow_Operations.thy ===== *)
theory Workflow_Operations
  imports Workflow_Runs Workflow_Invariants
begin

text \<open>
  Correctness of the operations on workflow runs, alone and in any sequence. The lemmas on one operation
  are proved once in the locale \<open>run_moves\<close>, for any invariant it admits, and used through its two
  interpretations: the frame of an operation and the steps behind an approval.

  Shown: stored runs stay well formed; an operation on a run leaves the other runs alone; a finished run
  is final as long as its workflow exists; nothing behind an approval step is dispatched before it is
  approved; a cancelled run keeps no open step and each of its running jobs is sent a cancellation; a
  rerun starts with exactly the succeeded steps its first step depends on; a for-each step keeps within
  its limit of parallel children.
\<close>

section \<open>What the operations keep\<close>

text \<open>Reading numbers the calls of the store and changes nothing else.\<close>

definition reads :: "wf_store \<Rightarrow> wf_store \<Rightarrow> bool" where
  "reads s s' \<longleftrightarrow> (\<exists>n. s' = s\<lparr>s_calls := s_calls s + n\<rparr>)"

lemma reads_refl [simp]: "reads s s"
  by (auto simp: reads_def intro: exI [of _ 0])

lemma reads_Suc: "reads s s' \<Longrightarrow> reads s (s'\<lparr>s_calls := Suc (s_calls s')\<rparr>)"
  by (auto simp: reads_def) (metis add_Suc_right)

lemma reads_trans: "reads s s' \<Longrightarrow> reads s' s'' \<Longrightarrow> reads s s''"
  by (auto simp: reads_def add.assoc)

lemma reads_fields: "reads s s' \<Longrightarrow> s_runs s' = s_runs s \<and> s_workflows s' = s_workflows s \<and> s_trace s' = s_trace s \<and> s_calls s \<le> s_calls s'"
  by (auto simp: reads_def)

lemma GetRun_reads: "GetRun E i s = (p, s') \<Longrightarrow> reads s s'"
  by (auto simp: GetRun_def readCall_def intro: reads_Suc split: if_splits)

lemma GetWorkflow_reads: "GetWorkflow E i s = (p, s') \<Longrightarrow> reads s s'"
  by (auto simp: GetWorkflow_def readCall_def intro: reads_Suc split: if_splits)

lemma GetRun_Found: "GetRun E i s = (Found r, s') \<Longrightarrow> map_of (s_runs s) i = Some r"
  by (auto simp: GetRun_def readCall_def split: if_splits option.splits)

lemma GetWorkflow_Found: "GetWorkflow E i s = (Found W, s') \<Longrightarrow> map_of (s_workflows s) i = Some W"
  by (auto simp: GetWorkflow_def readCall_def split: if_splits option.splits)

text \<open>A result changes the outcome of a step run, not its input or its children, and the context of the run.\<close>

definition keeps :: "step_run \<Rightarrow> step_run \<Rightarrow> bool" where
  "keeps sr sr' \<longleftrightarrow> sr_Input sr' = sr_Input sr \<and> sf_StepID (sr_fields sr') = sf_StepID (sr_fields sr) \<and> sr_Children sr' = sr_Children sr"

lemma keeps_good: "keeps sr sr' \<Longrightarrow> good C k sr \<Longrightarrow> good C k sr'"
  by (cases sr; cases sr') (simp add: keeps_def)

lemma applyResult_keeps: "keeps sr (fst (applyResult E sr res s now))"
  by (auto simp: applyResult_def Let_def keeps_def split: job_status.split)

lemma applyStepOutputDecision_keeps: "applyStepOutputDecision now d reason sr = Some sr' \<Longrightarrow> keeps sr sr'"
  by (cases d) (auto simp: applyStepOutputDecision_def failStepOutput_def keeps_def)

lemma checkStepOutputPolicy_keeps: "checkStepOutputPolicy V now run i sr res out = Some sr' \<Longrightarrow> keeps sr sr'"
  by (auto simp: checkStepOutputPolicy_def failStepOutput_def keeps_def dest!: applyStepOutputDecision_keeps split: if_splits option.splits sum.splits)

lemma recordEntry_context: "\<exists>c. recordEntry i path v entry run = run\<lparr>run_Context := c\<rparr>"
  by (auto simp: recordEntry_def Let_def split: prod.split)

lemma recordStepOutput_context: "\<exists>c. recordStepOutput i s ptr applyPath run = run\<lparr>run_Context := c\<rparr>"
  using recordEntry_context by (auto simp: recordStepOutput_def intro: exI [of _ "run_Context run"])

lemma processStepOutput_keeps:
  assumes "processStepOutput E V now i s res applyPath run sr = (run', sr', b)"
  shows "(\<exists>c. run' = run\<lparr>run_Context := c\<rparr>) \<and> keeps sr sr'"
proof -
  have "\<exists>c. run = run\<lparr>run_Context := c\<rparr>" by (rule exI [of _ "run_Context run"]) simp
  then show ?thesis
    using assms recordEntry_context recordStepOutput_context checkStepOutputPolicy_keeps
    by (auto simp: processStepOutput_def recordBoundLegacyPointer_def recordResolvedStepOutput_def failStepOutput_def keeps_def
        split: if_splits option.splits sum.splits)
qed

lemma takeResult_keeps:
  assumes "takeResult E V now i s res applyPath run sr = Some (run', sr', d)"
  shows "(\<exists>c. run' = run\<lparr>run_Context := c\<rparr>) \<and> keeps sr sr'"
proof -
  let ?sr = "upd (\<lambda>f. f\<lparr>sf_JobID := res_JobId res, sf_Attempts := max (sf_Attempts f) (parseAttempt (res_JobId res))\<rparr>) sr"
  obtain sr2 x where a: "applyResult E ?sr res s now = (sr2, x)" by fastforce
  have k: "keeps sr sr2" using applyResult_keeps [of ?sr E res s now] a by (simp add: keeps_def)
  obtain r3 sr3 b where p: "processStepOutput E V now i s res applyPath run sr2 = (r3, sr3, b)" by (metis prod_cases3)
  have c: "\<exists>c. run = run\<lparr>run_Context := c\<rparr>" by (rule exI [of _ "run_Context run"]) simp
  show ?thesis
    using assms k c processStepOutput_keeps [OF p]
    by (auto simp: takeResult_def Let_def a p keeps_def split: if_splits option.splits)
qed

text \<open>
  Every operation on a run, for an invariant of the locale: when it holds of the run as it is loaded, it
  holds of the run and the store at the end, or the operation only read.
\<close>

context run_moves
begin

definition loads :: "string \<Rightarrow> wf_store \<Rightarrow> bool" where
  "loads rid s \<longleftrightarrow> (\<forall>r. map_of (s_runs s) rid = Some r \<longrightarrow> K r s)"

definition after :: "wf_store \<Rightarrow> wf_store \<Rightarrow> bool" where
  "after s s' \<longleftrightarrow> (\<exists>r. K r s') \<or> reads s s'"

lemma K_reads: "K r s \<Longrightarrow> reads s s' \<Longrightarrow> K r s'"
proof -
  assume k: "K r s"
  have "K r (s\<lparr>s_calls := s_calls s + n\<rparr>)" for n
    using k
  proof (induction n)
    case (Suc n)
    then show ?case using K_called [of r "s\<lparr>s_calls := s_calls s + n\<rparr>"] by simp
  qed simp
  then show "reads s s' \<Longrightarrow> K r s'" by (auto simp: reads_def)
qed

lemma loaded:
  assumes "loads rid s" "reads s s1" "GetRun E rid s1 = (Found r, s2)" shows "K r s2" "reads s s2"
proof -
  show "reads s s2" by (rule reads_trans [OF assms(2) GetRun_reads [OF assms(3)]])
  moreover have "map_of (s_runs s) rid = Some r" using GetRun_Found [OF assms(3)] reads_fields [OF assms(2)] by simp
  ultimately show "K r s2" using assms(1) K_reads by (auto simp: loads_def)
qed

lemma after_K: "K r s' \<Longrightarrow> after s s'"
  by (auto simp: after_def)

lemma after_reads: "reads s s' \<Longrightarrow> after s s'"
  by (auto simp: after_def)

lemma K_found: "K r s \<Longrightarrow> x \<in> names \<Longrightarrow> map_of (s_workflows s) x = Some W \<Longrightarrow> ok W"
  using found [of "\<lparr>t_run = r, t_disp = [], t_store = s\<rparr>"] by (simp add: K_def)

lemma K_named: "K r s \<Longrightarrow> run_WorkflowID r \<in> names"
  using named [of "\<lparr>t_run = r, t_disp = [], t_store = s\<rparr>"] by (simp add: K_def)

lemma advanceRun_K:
  assumes "K r s" "ok W" shows "\<exists>r'. K r' (snd (advanceRun E start now W r s))"
proof -
  obtain b s1 where a: "admitRun E W r s = (b, s1)" by fastforce
  have k: "K r s1" using a assms(1) K_called [OF assms(1)]
    by (auto simp: admitRun_def CountActiveRuns_def split: if_splits option.splits)
  obtain b2 r2 s2 where sr: "scheduleReady E start now W r s1 = (b2, r2, s2)" by (metis prod_cases3)
  show ?thesis using assms(1) k scheduleReady_K [OF k assms(2) sr] by (auto simp: advanceRun_def a sr split: bool.split)
qed

lemma orphanRun_K:
  assumes "K r s" "wid \<in> names" shows "\<exists>r'. K r' (snd (orphanRun E start now wid r s))"
proof -
  obtain p s1 where g: "GetWorkflow E wid s = (p, s1)" by fastforce
  have k: "K r s1" by (rule K_GetWorkflow [OF assms(1) g])
  let ?r = "r\<lparr>run_Status := RunStatusFailed, run_CompletedAt := Some now, run_Error := msg ''workflow deleted''\<rparr>"
  obtain b s2 where u: "UpdateRun E ?r s1 = (b, s2)" by fastforce
  have "K ?r s2" by (rule K_UpdateRun [OF K_settle [OF k] u]) simp
  moreover have "ok W" if "p = Found W" for W using K_found [OF assms] GetWorkflow_Found g that by blast
  ultimately show ?thesis using k advanceRun_K [OF k] by (auto simp: orphanRun_def g u split: lookup.split)
qed

lemma startRunLocked_after:
  assumes "loads rid s" "wid \<in> names" shows "after s (snd (startRunLocked E start now wid rid s))"
proof -
  obtain p s1 where g: "GetWorkflow E wid s = (p, s1)" by fastforce
  obtain q s2 where h: "GetRun E rid s1 = (q, s2)" by fastforce
  have r1: "reads s s1" by (rule GetWorkflow_reads [OF g])
  have r2: "reads s s2" by (rule reads_trans [OF r1 GetRun_reads [OF h]])
  have "after s (snd (orphanRun E start now wid r s2))" "p = Found W \<Longrightarrow> after s (snd (advanceRun E start now W r s2))" if "q = Found r" for r W
  proof -
    have k: "K r s2" using loaded [OF assms(1) r1] h that by simp
    show "after s (snd (orphanRun E start now wid r s2))" using orphanRun_K [OF k assms(2)] after_K by blast
    assume "p = Found W"
    then have "ok W" using K_found [OF k assms(2)] GetWorkflow_Found [of E wid s W s1] g reads_fields [OF r2] by simp
    then show "after s (snd (advanceRun E start now W r s2))" using advanceRun_K [OF k] after_K by blast
  qed
  then show ?thesis using after_reads [OF r1] after_reads [OF r2] by (simp add: startRunLocked_def g h split: lookup.split)
qed

lemma resumeRun_K: "K r s \<Longrightarrow> ok W \<Longrightarrow> \<exists>r'. K r' (snd (resumeRun E start now W r s))"
  by (auto simp: resumeRun_def split: prod.split dest: scheduleReady_K)

lemma updateTwice_K: "K r s \<Longrightarrow> updateTwice E r s = (b, s') \<Longrightarrow> K r s'"
  by (auto simp: updateTwice_def split: prod.splits bool.splits dest: K_UpdateRun)

text \<open>Results.\<close>

lemma K_put: "I (putT k sr \<lparr>t_run = r, t_disp = [], t_store = s\<rparr>) \<Longrightarrow> K (put_step k sr r) s"
  by (simp add: K_def putT_def)

lemma K_good: "K r s \<Longrightarrow> good C k (stepRunOf r k)"
  using own_good [of "\<lparr>t_run = r, t_disp = [], t_store = s\<rparr>" k] by (simp add: K_def)

lemma K_take: "K r s \<Longrightarrow> free k \<Longrightarrow> good C k sr \<Longrightarrow> sr_Input sr = sr_Input (stepRunOf r k) \<Longrightarrow> K (put_step k sr r) s"
  using take [of "\<lparr>t_run = r, t_disp = [], t_store = s\<rparr>" k sr] by (intro K_put) (simp add: K_def)

lemma K_activate: "K r s \<Longrightarrow> ok W \<Longrightarrow> K (activateOnErrorHandler W i sr r) s"
  using activate_I [of "\<lparr>t_run = r, t_disp = [], t_store = s\<rparr>" W i sr] by (simp add: K_def)

lemma K_armRetry: "K r s \<Longrightarrow> K r (armRetry d s)"
  by (auto simp: armRetry_def K_scheduleAfter split: option.split)

lemma stepResult_K:
  assumes "K r s" "ok W" "free i" "stepResult E V W now i res r s = Some (r', s')" shows "K r' s'"
proof -
  obtain r1 sr d where t: "takeResult E V now i (step_def W i) res True r (stepRunOf r i) = Some (r1, sr, d)"
    using assms(4) by (auto simp: stepResult_def split: option.splits)
  note kp = takeResult_keeps [OF t]
  then obtain c where r1: "r1 = r\<lparr>run_Context := c\<rparr>" by blast
  have k1: "K r1 s" by (rule K_settle [OF assms(1)]) (simp add: r1)
  have "stepRunOf r1 i = stepRunOf r i" by (simp add: r1 stepRunOf_def)
  with kp keeps_good [of "stepRunOf r i" sr C i] K_good [OF assms(1)] have k2: "K (put_step i sr r1) s"
    by (intro K_take [OF k1 assms(3)]) (auto simp: keeps_def)
  show ?thesis using assms(4) K_armRetry [OF k2] K_armRetry [OF K_activate [OF k2 assms(2)]]
    by (auto simp: stepResult_def t Let_def split: if_splits)
qed

text \<open>The siblings of a failed for-each child; the step run of the parent itself is put last.\<close>

definition siblings :: "string \<Rightarrow> step_run \<Rightarrow> workflow_run \<Rightarrow> fan \<Rightarrow> bool" where
  "siblings p parent r w \<longleftrightarrow> J p w \<and> sr_fields (f_parent w) = sr_fields parent \<and> (p \<notin> C \<longrightarrow> stepRunOf (f_run w) p = stepRunOf r p)"

lemma cancelSibling_J:
  assumes "siblings p parent r w" "c \<in> C" "good C c child" shows "siblings p parent r (cancelSibling E now (c, child) w)"
proof -
  let ?x = "upd (\<lambda>f. f\<lparr>sf_Status := StepStatusCancelled, sf_CompletedAt := Some now,
      sf_Error := (if sf_Error f = [] then msg ''cancelled: forEach sibling failed'' else sf_Error f)\<rparr>) child"
  have j: "J p (putFan c ?x w)" using putFan_J [of p w c ?x] assms by (simp add: siblings_def)
  from cancel_J [OF j, of "sr_JobID child"] assms show ?thesis
    by (auto simp: siblings_def cancelSibling_def putFan_def put_child_def)
qed

lemma cancelForEachSiblings_J:
  assumes "siblings p parent r w" shows "siblings p parent r (cancelForEachSiblings E now w)"
proof -
  have g: "good C p (f_parent w)" using assms by (simp add: siblings_def J_def)
  have "siblings p parent r (fold (cancelSibling E now) cs w)" if "goods C cs" "keys cs \<subseteq> C" "siblings p parent r w" for cs w
    using that
  proof (induction cs arbitrary: w)
    case (Cons x cs)
    obtain c child where x: "x = (c, child)" by fastforce
    have "siblings p parent r (cancelSibling E now x w)" using Cons.prems unfolding x by (intro cancelSibling_J) auto
    from Cons.IH [OF _ _ this] Cons.prems x show ?case by simp
  qed simp
  from this [of "sr_Children (f_parent w)"] g assms show ?thesis unfolding cancelForEachSiblings_def by (cases "f_parent w") auto
qed

lemma childResult_K:
  assumes "K r s" "ok W" "free p" "i \<in> C" "childResult E V W now p i res r s = Some (r', s')" shows "K r' s'"
proof -
  define parent where "parent = stepRunOf r p"
  define child where "child = (case map_of (sr_Children parent) i of Some c \<Rightarrow> c | None \<Rightarrow> stepRunOf r i)"
  obtain r1 child1 d where t: "takeResult E V now i (step_def W p) res False r child = Some (r1, child1, d)"
    using assms(5) unfolding childResult_def Let_def parent_def [symmetric] child_def [symmetric] by (auto split: option.splits)
  have gp: "good C p parent" unfolding parent_def by (rule K_good [OF assms(1)])
  have gc: "good C i child" using good_child [OF gp] K_good [OF assms(1)] by (simp add: child_def split: option.split)
  note kp = takeResult_keeps [OF t]
  then obtain c where r1: "r1 = r\<lparr>run_Context := c\<rparr>" by blast
  have g1: "good C i child1" using kp keeps_good gc by blast
  define parent1 where "parent1 = parentStatus (step_def W p) now (put_child i child1 parent)"
  have p1: "good C p parent1" "sr_Input parent1 = sr_Input parent"
    using good_put_child [OF gp assms(4) g1] by (simp_all add: parent1_def parentStatus_def Let_def put_child_def)
  define w0 where "w0 = \<lparr>f_run = put_step i child1 r1, f_parent = parent1, f_running = 0, f_disp = [], f_store = s\<rparr>"
  have "I \<lparr>t_run = r1, t_disp = [], t_store = s\<rparr>" using K_settle [OF assms(1), of r1] by (simp add: r1 K_def)
  from put_child_of [OF this assms(4) g1] have w0: "siblings p parent1 r w0"
    using p1(1) assms(4) by (auto simp: siblings_def J_def w0_def fanTick_def putT_def r1 stepRunOf_def)
  define w1 where "w1 = (if failedStatus (sr_Status parent1) \<and> (case step_def W p of None \<Rightarrow> False | Some x \<Rightarrow> st_ForEach x \<noteq> [])
      then cancelForEachSiblings E now w0 else w0)"
  have w1: "siblings p parent1 r w1" using w0 cancelForEachSiblings_J by (simp add: w1_def)
  have k1: "K (f_run w1) (f_store w1)" using put_disp [of "fanTick w1" "[]"] w1 by (simp add: siblings_def J_def K_def fanTick_def)
  have "K (put_step p (f_parent w1) (f_run w1)) (f_store w1)"
  proof (cases "p \<in> C")
    case True
    then show ?thesis using put_child_of [of "\<lparr>t_run = f_run w1, t_disp = [], t_store = f_store w1\<rparr>"] k1 w1
      by (intro K_put) (auto simp: K_def siblings_def J_def)
  next
    case False
    then show ?thesis using w1 p1(2) by (intro K_take [OF k1 assms(3)]) (auto simp: siblings_def J_def parent_def)
  qed
  then have "K (if b then activateOnErrorHandler W p sr (put_step p (f_parent w1) (f_run w1)) else put_step p (f_parent w1) (f_run w1)) (armRetry d (f_store w1))" for b sr
    using K_armRetry K_activate [OF _ assms(2)] by simp
  then show ?thesis
    using assms(5) unfolding childResult_def Let_def parent_def [symmetric] child_def [symmetric] t option.case prod.case
      parent1_def [symmetric] w0_def [symmetric] w1_def [symmetric]
    by (metis option.inject prod.inject)
qed

lemma finishResult_K:
  assumes "K r s" "ok W" shows "\<exists>r'. K r' (snd (finishResult E start now W r s))"
proof -
  obtain b s1 where u: "updateTwice E (updateRunStatus W now r) s = (b, s1)" by fastforce
  have "K (updateRunStatus W now r) s1" by (rule updateTwice_K [OF K_settle [OF assms(1) calm_updateRunStatus] u])
  with resumeRun_K [OF this assms(2)] show ?thesis by (auto simp: finishResult_def u Let_def split: bool.split)
qed

lemma applyJobResult_K:
  assumes "K r s" "ok W" "free (baseOf i)" "snd (splitForEachStep i) \<noteq> [] \<Longrightarrow> i \<in> C"
  shows "\<exists>r'. K r' (snd (applyJobResult E V start now W res i r s))"
proof -
  obtain b r1 s1 where e: "enforceWorkflowTimeout E W now r s = (b, r1, s1)" by (metis prod_cases3)
  have k1: "K r1 s1" by (rule K_timeout [OF assms(1) e])
  obtain p child where sp: "splitForEachStep i = (p, child)" by fastforce
  have plain: "child = [] \<Longrightarrow> p = i" using sp by (auto simp: splitForEachStep_def split: option.splits)
  have "K r2 s2" if "(if child \<noteq> [] then childResult E V W now p i res r1 s1 else stepResult E V W now i res r1 s1) = Some (r2, s2)" for r2 s2
    using that childResult_K [OF k1 assms(2)] stepResult_K [OF k1 assms(2)] assms(3,4) sp plain by (auto split: if_splits)
  with k1 finishResult_K [OF _ assms(2)] show ?thesis by (auto simp: applyJobResult_def e sp split: option.split bool.split)
qed

text \<open>Operations that load the run first and then its workflow.\<close>

lemma load_both:
  assumes "loads rid s" "GetRun E rid s = (q, s1)"
  obtains "\<nexists>r. q = Found r" "reads s s1"
  | r p s2 where "q = Found r" "K r s1" "GetWorkflow E (run_WorkflowID r) s1 = (p, s2)" "K r s2" "\<And>W. p = Found W \<Longrightarrow> ok W"
proof (cases "\<exists>r. q = Found r")
  case True
  then obtain r where q: "q = Found r" by blast
  have k1: "K r s1" using loaded [OF assms(1) reads_refl] assms(2) q by simp
  obtain p s2 where g: "GetWorkflow E (run_WorkflowID r) s1 = (p, s2)" by fastforce
  have "ok W" if "p = Found W" for W using K_found [OF k1 K_named [OF k1]] GetWorkflow_Found g that by blast
  with that(2) q k1 g K_GetWorkflow [OF k1 g] show ?thesis by blast
qed (use that(1) GetRun_reads [OF assms(2)] in blast)

lemma handleJobResultLocked_after:
  assumes "loads rid s" "free (baseOf i)" "snd (splitForEachStep i) \<noteq> [] \<Longrightarrow> i \<in> C"
  shows "after s (snd (handleJobResultLocked E V start now res rid i s))"
proof (cases "GetRun E rid s")
  case (Pair q s1)
  from assms(1) Pair show ?thesis
  proof (cases rule: load_both)
    case 1
    then show ?thesis by (cases q) (auto simp: handleJobResultLocked_def Pair intro: after_reads)
  next
    case (2 r p s2)
    have "p = Found W \<Longrightarrow> after s (snd (applyJobResult E V start now W res i r s2))" for W
      using applyJobResult_K [OF 2(4) 2(5) assms(2,3)] after_K by blast
    with 2 show ?thesis by (auto simp: handleJobResultLocked_def Pair intro: after_K split: lookup.split)
  qed
qed

lemma decidedRun_K:
  assumes "K r s" "ok W" "free i \<or> \<not> approved" "map_of (run_Steps r) i = Some sr" shows "K (decidedRun W now i approved sr r) s"
proof -
  have sr: "stepRunOf r i = sr" using assms(4) by (simp add: stepRunOf_def)
  let ?sr = "upd (\<lambda>f. f\<lparr>sf_Status := (if approved then StepStatusSucceeded else StepStatusFailed), sf_CompletedAt := Some now\<rparr>) sr"
  have g: "good C i ?sr" using K_good [OF assms(1), of i] sr by simp
  have "K (put_step i ?sr r) s"
  proof (cases "free i")
    case True
    then show ?thesis using g sr by (intro K_take [OF assms(1)]) simp_all
  next
    case False
    then show ?thesis using assms(3) g sr by (intro K_settle [OF assms(1)] calm_put) simp_all
  qed
  then show ?thesis using K_activate [OF _ assms(2)] by (auto simp: decidedRun_def Let_def intro!: K_settle [OF _ calm_updateRunStatus])
qed

lemma decideStep_K:
  assumes "K r s" "ok W" "free i \<or> \<not> approved" shows "\<exists>r'. K r' (snd (decideStep E start now W i approved r s))"
proof -
  obtain b r1 s1 where e: "enforceWorkflowTimeout E W now r s = (b, r1, s1)" by (metis prod_cases3)
  have k1: "K r1 s1" by (rule K_timeout [OF assms(1) e])
  have "\<exists>r'. K r' (snd (case UpdateRun E (decidedRun W now i approved sr r1) s1 of
      (False, s2) \<Rightarrow> (False, s2) | (True, s2) \<Rightarrow> resumeRun E start now W (decidedRun W now i approved sr r1) s2))"
    if "map_of (run_Steps r1) i = Some sr" for sr
  proof -
    obtain b s2 where u: "UpdateRun E (decidedRun W now i approved sr r1) s1 = (b, s2)" by fastforce
    have "K (decidedRun W now i approved sr r1) s2" by (rule K_UpdateRun [OF decidedRun_K [OF k1 assms(2,3) that] u])
    with resumeRun_K [OF this assms(2)] show ?thesis by (auto simp: u split: bool.split)
  qed
  with k1 show ?thesis by (auto simp: decideStep_def e Let_def split: option.split bool.split)
qed

lemma ApproveStep_after:
  assumes "loads rid s" "free i \<or> \<not> approved" shows "after s (snd (ApproveStep E start now rid i approved s))"
proof (cases "GetRun E rid s")
  case (Pair q s1)
  from assms(1) Pair show ?thesis
  proof (cases rule: load_both)
    case 1
    then show ?thesis by (cases q) (auto simp: ApproveStep_def Pair intro: after_reads)
  next
    case (2 r p s2)
    have "p = Found W \<Longrightarrow> after s (snd (decideStep E start now W i approved r s2))" for W
      using decideStep_K [OF 2(4) 2(5) assms(2)] after_K by blast
    with 2 show ?thesis by (auto simp: ApproveStep_def Pair intro: after_K split: lookup.split)
  qed
qed

lemma CancelRun_after:
  assumes "loads rid s" shows "after s (snd (CancelRun E now rid s))"
proof (cases "GetRun E rid s")
  case (Pair q s1)
  from assms(1) Pair show ?thesis
  proof (cases rule: load_both)
    case 1
    then show ?thesis by (cases q) (auto simp: CancelRun_def Pair intro: after_reads)
  next
    case (2 r p s2)
    have "after s (snd (case UpdateRun E (cancelledRun W now r) s2 of
        (False, s3) \<Rightarrow> (False, s3) | (True, s3) \<Rightarrow> (case publishCancels E js s3 of (bad, s4) \<Rightarrow> (bad = [], s4))))" for W js
    proof -
      obtain b s3 where u: "UpdateRun E (cancelledRun W now r) s2 = (b, s3)" by fastforce
      obtain bad s4 where c: "publishCancels E js s3 = (bad, s4)" by fastforce
      have "calm C r (cancelledRun W now r)" using calm_trans [OF calm_fillSteps calm_cancelSteps] by (simp add: cancelledRun_def Let_def)
      then have k: "K (cancelledRun W now r) s3" by (rule K_UpdateRun [OF K_settle [OF 2(4)] u])
      from K_publishCancels [OF k c] k show ?thesis by (auto simp: u c intro: after_K split: bool.split)
    qed
    with 2 show ?thesis by (auto simp: CancelRun_def Pair intro: after_K split: lookup.split)
  qed
qed

end

section \<open>Sequences of operations\<close>

datatype wf_op = OpStart string string | OpResult step_result | OpApprove string string bool | OpCancel string | OpRerun string string bool

text \<open>One operation at the instant \<open>now\<close>, with child runs followed to a depth \<open>d\<close>; what is shown holds for every depth.\<close>

fun execute :: "engine \<Rightarrow> nat \<Rightarrow> int \<times> output_env \<times> wf_op \<Rightarrow> wf_store \<Rightarrow> wf_store" where
  "execute E d (now, V, OpStart wid rid) s = snd (StartRun E now d wid rid s)"
| "execute E d (now, V, OpResult res) s = snd (HandleJobResult E V (StartRun E now d) now res s)"
| "execute E d (now, V, OpApprove rid i approved) s = snd (ApproveStep E (StartRun E now d) now rid i approved s)"
| "execute E d (now, V, OpCancel rid) s = snd (CancelRun E now rid s)"
| "execute E d (now, V, OpRerun rid i dry) s = snd (RerunFrom E now rid i dry s)"

fun opRun :: "wf_op \<Rightarrow> string" where
  "opRun (OpStart wid rid) = rid"
| "opRun (OpResult res) = fst (splitJobID (res_JobId res))"
| "opRun (OpApprove rid i approved) = rid"
| "opRun (OpCancel rid) = rid"
| "opRun (OpRerun rid i dry) = rid"

lemmas frame_unfold = frame_run.loads_def frame_run.after_def frame_step.K_def frame_def

lemma ext_reads: "reads s s' \<Longrightarrow> ext E rid s s'"
  by (auto simp: reads_def ext_def)

lemma startRunLocked_ext: "start_ok E start \<Longrightarrow> stored_ok s \<Longrightarrow> ext E rid s (snd (startRunLocked E start now wid rid s))"
  using frame_run.startRunLocked_after [of E start rid s rid s wid now] by (auto simp: frame_unfold dest: stored_okD intro: ext_reads)

lemma StartRun_ok: "start_ok E (StartRun E now n)"
  by (induction n) (simp_all add: start_ok_def startRunLocked_ext)

lemma handleJobResultLocked_ext:
  "start_ok E start \<Longrightarrow> stored_ok s \<Longrightarrow> ext E rid s (snd (handleJobResultLocked E V start now res rid i s))"
  using frame_run.handleJobResultLocked_after [of E start rid s rid s i V now res]
  by (auto simp: frame_unfold dest: stored_okD intro: ext_reads)

lemma HandleJobResult_ext:
  "start_ok E start \<Longrightarrow> stored_ok s \<Longrightarrow> ext E (fst (splitJobID (res_JobId res))) s (snd (HandleJobResult E V start now res s))"
  by (auto simp: HandleJobResult_def handleJobResultLocked_ext split: prod.split)

lemma ApproveStep_ext: "start_ok E start \<Longrightarrow> stored_ok s \<Longrightarrow> ext E rid s (snd (ApproveStep E start now rid i approved s))"
  using frame_run.ApproveStep_after [of E start rid s rid s approved now i]
  by (auto simp: frame_unfold dest: stored_okD intro: ext_reads)

lemma CancelRun_ext: "stored_ok s \<Longrightarrow> ext E rid s (snd (CancelRun E now rid s))"
  using frame_run.CancelRun_after [of E "StartRun E 0 0" rid s rid s now] StartRun_ok [of E 0 0]
  by (auto simp: frame_unfold dest: stored_okD intro: ext_reads)

lemma rerun_wf: "wf_run C r \<Longrightarrow> distinct deps \<Longrightarrow> wf_run C (rerun now newID i dry deps r)"
  by (auto simp: wf_run_def rerun_def wf_map_def goods_iff comp_def Let_def good_stepRunOf [unfolded wf_run_def wf_map_def])

lemma RerunFrom_ext:
  assumes "stored_ok s" shows "\<exists>n \<ge> s_calls s. ext E (newUUID E n) s (snd (RerunFrom E now rid i dry s))"
proof -
  obtain q s1 where g: "GetRun E rid s = (q, s1)" by fastforce
  have r1: "reads s s1" by (rule GetRun_reads [OF g])
  have none: "\<exists>n \<ge> s_calls s. ext E (newUUID E n) s s'" if "reads s s'" for s' using ext_reads [OF that] by blast
  show ?thesis
  proof (cases q)
    case (Found r)
    obtain p s2 where h: "GetWorkflow E (run_WorkflowID r) s1 = (p, s2)" by fastforce
    have r2: "reads s s2" by (rule reads_trans [OF r1 GetWorkflow_reads [OF h]])
    have wf: "wf_run UNIV r" using stored_okD [OF assms] GetRun_Found [of E rid s r s1] g Found by simp
    have made: "\<exists>n \<ge> s_calls s. ext E (newUUID E n) s (snd (CreateRun E now (rerun now (newUUID E (s_calls s2)) i dry deps r) s2))"
      if "distinct deps" for deps
    proof (intro exI conjI)
      let ?r = "rerun now (newUUID E (s_calls s2)) i dry deps r"
      have created: "run_CreatedAt ?r = Some now" by (simp add: rerun_def Let_def)
      have e: "ext E (newUUID E (s_calls s2)) s (bump s2)" by (intro ext_bump ext_reads r2)
      have "ext E (newUUID E (s_calls s2)) s (storeRun ?r (bump s2))"
        using rerun_wf [OF wf that] by (intro ext_storeRun [OF e]) (simp_all add: rerun_def Let_def)
      with e ext_reads [OF r2] show "ext E (newUUID E (s_calls s2)) s (snd (CreateRun E now ?r s2))"
        unfolding CreateRun_def externalCall_def bump_def [symmetric] Let_def
        by (auto simp: created indexRun_def intro: ext_active split: outcome.split)
    qed (use reads_fields [OF r2] in simp)
    have "distinct (collectDependencies W i)" for W using collectDeps_distinct [of "[]"] by (simp add: collectDependencies_def)
    then show ?thesis using none [OF reads_refl] none [OF r2] made [of "[]"] made [of "collectDependencies W i" for W]
      by (cases "i = []") (simp_all add: RerunFrom_def g Found h Let_def case_prod_beta split: lookup.split)
  qed (use none [OF r1] none [OF reads_refl] in \<open>simp_all add: RerunFrom_def g\<close>)
qed

lemma execute_ext:
  assumes "stored_ok s" shows "ext E (opRun op) s (execute E d (now, V, op) s)"
proof (cases op)
  case (OpRerun rid i dry)
  obtain n where n: "s_calls s \<le> n" "ext E (newUUID E n) s (snd (RerunFrom E now rid i dry s))" using RerunFrom_ext [OF assms] by blast
  show ?thesis using ext_trans [OF ext_refl n(2), of rid] n(1) by (simp add: OpRerun fresh_def)
qed (use assms StartRun_ok [of E now d] startRunLocked_ext HandleJobResult_ext ApproveStep_ext CancelRun_ext in \<open>simp_all add: start_ok_def\<close>)

lemma executes_ok: "stored_ok s \<Longrightarrow> stored_ok (fold (execute E d) ops s)"
proof (induction ops arbitrary: s)
  case (Cons x ops)
  obtain now V op where x: "x = (now, V, op)" by (metis prod_cases3)
  show ?case using Cons.IH [of "execute E d x s"] execute_ext [OF Cons.prems, of E op d now V] Cons.prems by (simp add: x ext_def)
qed simp

text \<open>A finished run is only read.\<close>

lemma terminal_advance: "isTerminalRunStatus (run_Status r) \<Longrightarrow> advanceRun E start now W r s = (True, s)"
  by (simp add: advanceRun_def)

lemma terminal_orphan:
  assumes "isTerminalRunStatus (run_Status r)" "map_of (s_workflows s) wid \<noteq> None"
  shows "reads s (snd (orphanRun E start now wid r s))"
proof -
  obtain p s1 where g: "GetWorkflow E wid s = (p, s1)" by fastforce
  have "p \<noteq> Missing" using g assms(2) by (auto simp: GetWorkflow_def readCall_def split: if_splits option.splits)
  then show ?thesis using GetWorkflow_reads [OF g] by (auto simp: orphanRun_def g terminal_advance assms(1) split: lookup.split)
qed

lemma terminal_start:
  assumes "map_of (s_runs s) rid = Some r" "isTerminalRunStatus (run_Status r)" "map_of (s_workflows s) wid \<noteq> None"
  shows "reads s (snd (startRunLocked E start now wid rid s))"
proof -
  obtain p s1 where g: "GetWorkflow E wid s = (p, s1)" by fastforce
  obtain q s2 where h: "GetRun E rid s1 = (q, s2)" by fastforce
  have r1: "reads s s1" by (rule GetWorkflow_reads [OF g])
  have r2: "reads s s2" by (rule reads_trans [OF r1 GetRun_reads [OF h]])
  have "r' = r" if "q = Found r'" for r' using GetRun_Found h that assms(1) reads_fields [OF r1] by fastforce
  then show ?thesis
    using r1 r2 terminal_orphan [OF assms(2), of s2 wid E start now] assms(3) reads_fields [OF r2] reads_trans [OF r2]
    by (auto simp: startRunLocked_def g h terminal_advance assms(2) split: lookup.split)
qed

lemma terminal_ops:
  assumes "map_of (s_runs s) rid = Some r" "isTerminalRunStatus (run_Status r)"
  shows "reads s (snd (handleJobResultLocked E V start now res rid i s))"
    "reads s (snd (ApproveStep E start now rid i approved s))" "reads s (snd (CancelRun E now rid s))"
proof -
  obtain q s1 where h: "GetRun E rid s = (q, s1)" by fastforce
  have r1: "reads s s1" by (rule GetRun_reads [OF h])
  have q: "r' = r" if "q = Found r'" for r' using GetRun_Found h that assms(1) by fastforce
  obtain p s2 where g: "GetWorkflow E (run_WorkflowID r) s1 = (p, s2)" by fastforce
  have r2: "reads s s2" by (rule reads_trans [OF r1 GetWorkflow_reads [OF g]])
  have "decideStep E start now W i approved r s2 = (False, s2)" for W
    by (simp add: decideStep_def enforceWorkflowTimeout_def assms(2))
  then show "reads s (snd (handleJobResultLocked E V start now res rid i s))"
    "reads s (snd (ApproveStep E start now rid i approved s))" "reads s (snd (CancelRun E now rid s))"
    using r1 r2 q g by (cases q; auto simp: handleJobResultLocked_def ApproveStep_def CancelRun_def h assms(2) split: lookup.split)+
qed

fun keepsWorkflow :: "wf_store \<Rightarrow> wf_op \<Rightarrow> bool" where
  "keepsWorkflow s (OpStart wid rid) = (map_of (s_workflows s) wid \<noteq> None)"
| "keepsWorkflow s _ = True"

lemma terminal_execute:
  assumes "stored_ok s" "map_of (s_runs s) rid = Some r" "isTerminalRunStatus (run_Status r)" "rid \<notin> fresh E (s_calls s)"
    "opRun op = rid \<Longrightarrow> keepsWorkflow s op"
  shows "map_of (s_runs (execute E d (now, V, op) s)) rid = Some r"
proof (cases "opRun op = rid")
  case False
  then show ?thesis using execute_ext [OF assms(1), of E op d now V] assms(2,4) by (auto simp: ext_def)
next
  case True
  have rd: "reads s s' \<Longrightarrow> map_of (s_runs s') rid = Some r" for s' using reads_fields assms(2) by simp
  show ?thesis
  proof (cases op)
    case (OpStart wid x)
    then show ?thesis using True assms(5) rd terminal_start [OF assms(2,3)] assms(2) by (cases d) auto
  next
    case (OpResult res)
    then show ?thesis using True rd terminal_ops(1) [OF assms(2,3)] assms(2) by (auto simp: HandleJobResult_def split: prod.split)
  next
    case (OpRerun x i dry)
    obtain n where "s_calls s \<le> n" "ext E (newUUID E n) s (snd (RerunFrom E now x i dry s))" using RerunFrom_ext [OF assms(1)] by blast
    then show ?thesis using assms(2,4) OpRerun by (auto simp: ext_def fresh_def)
  qed (use True rd terminal_ops(2,3) [OF assms(2,3)] in auto)
qed

text \<open>Operations that do not approve the step \<open>g\<close> of the run \<open>rid\<close>, and start that run with its own workflow.\<close>

fun unapproved :: "string \<Rightarrow> string \<Rightarrow> string \<Rightarrow> wf_op \<Rightarrow> bool" where
  "unapproved wid rid g (OpStart x r) = (r = rid \<longrightarrow> x = wid)"
| "unapproved wid rid g (OpResult res) = (case splitJobID (res_JobId res) of (r, k) \<Rightarrow> r = rid \<longrightarrow> baseOf k \<noteq> g)"
| "unapproved wid rid g (OpApprove r k approved) = (r = rid \<longrightarrow> k = g \<longrightarrow> \<not> approved)"
| "unapproved wid rid g _ = True"

lemmas gate_unfold = gate_run.loads_def gate_run.after_def gate_run.K_def

lemma held_reads: "held wid W rid g i s \<Longrightarrow> reads s s' \<Longrightarrow> held wid W rid g i s'"
  using reads_fields [of s s'] by (simp add: held_def)

lemma gate_op:
  assumes "held wid W rid g i s" "gated E W g i" "stored_ok s" "rid \<notin> fresh E (s_calls s)" "start_ok E start"
  shows "run_moves.loads (gate E start (s_calls s) wid W rid g i) rid s"
    "run_moves.after (gate E start (s_calls s) wid W rid g i) s s' \<Longrightarrow> held wid W rid g i s'"
proof -
  show "run_moves.loads (gate E start (s_calls s) wid W rid g i) rid s" using assms by (auto simp: gate_unfold gate_def held_def)
  show "run_moves.after (gate E start (s_calls s) wid W rid g i) s s' \<Longrightarrow> held wid W rid g i s'"
    using held_reads [OF assms(1)] by (auto simp: gate_unfold gate_def)
qed

lemma child_not: "snd (splitForEachStep k) \<noteq> [] \<Longrightarrow> gated E W g i \<Longrightarrow> k \<in> - {g, i}"
  using gated_plain [of E W g i] by (auto simp: splitForEachStep_def IndexByte_None split: option.splits)

lemma held_execute:
  assumes "held wid W rid g i s" "gated E W g i" "stored_ok s" "rid \<notin> fresh E (s_calls s)" "unapproved wid rid g op"
  shows "held wid W rid g i (execute E d (now, V, op) s)"
proof (cases "opRun op = rid")
  case False
  show ?thesis by (rule held_ext [OF assms(1) execute_ext [OF assms(3)]]) (use assms(4) False in simp)
next
  case True
  note op = gate_op [OF assms(1-4) StartRun_ok]
  show ?thesis
  proof (cases op)
    case (OpStart x r)
    show ?thesis
    proof (cases d)
      case (Suc n)
      have "held wid W rid g i (snd (startRunLocked E (StartRun E now n) now wid rid s))"
        by (rule op(2), rule gate_run.startRunLocked_after, rule op(1)) simp
      then show ?thesis using OpStart True assms(5) Suc by simp
    qed (use OpStart assms(1) in simp)
  next
    case (OpResult res)
    obtain r k where k: "splitJobID (res_JobId res) = (r, k)" by fastforce
    have "held wid W rid g i (snd (handleJobResultLocked E V (StartRun E now d) now res rid k s))"
      by (rule op(2), rule gate_run.handleJobResultLocked_after, rule op(1)) (use assms(5) True OpResult k child_not [OF _ assms(2)] in simp_all)
    then show ?thesis using OpResult True k assms(1) by (simp add: HandleJobResult_def)
  next
    case (OpApprove r k approved)
    have "held wid W rid g i (snd (ApproveStep E (StartRun E now d) now rid k approved s))"
      by (rule op(2), rule gate_run.ApproveStep_after, rule op(1)) (use assms(5) True OpApprove in auto)
    then show ?thesis using True OpApprove by simp
  next
    case (OpCancel r)
    have "held wid W rid g i (snd (CancelRun E now rid s))"
      by (rule op(2) [of now 0], rule gate_run.CancelRun_after, rule op(1))
    then show ?thesis using True OpCancel by simp
  next
    case (OpRerun r k dry)
    obtain n where n: "s_calls s \<le> n" "ext E (newUUID E n) s (snd (RerunFrom E now r k dry s))" using RerunFrom_ext [OF assms(3)] by blast
    have "rid \<notin> insert (newUUID E n) (fresh E (s_calls s))" using assms(4) n(1) by (auto simp: fresh_def)
    from held_ext [OF assms(1) n(2) this] OpRerun show ?thesis by simp
  qed
qed

section \<open>Cancelling\<close>

text \<open>A step run and the runs below it.\<close>

inductive within :: "step_run \<Rightarrow> step_run \<Rightarrow> bool" where
  within_self: "within sr sr"
| within_child: "(i, child) \<in> set (sr_Children sr) \<Longrightarrow> within x child \<Longrightarrow> within x sr"

inductive_cases withinE: "within x sr"

definition active :: "step_run \<Rightarrow> bool" where
  "active sr \<longleftrightarrow> (sr_Status sr = StepStatusRunning \<or> sr_Status sr = StepStatusWaiting) \<and> sr_JobID sr \<noteq> []"

lemma cancelable_within: "within x sr \<Longrightarrow> active x \<Longrightarrow> sr_JobID x \<in> set (collectCancelableJobs sr)"
proof (induction rule: within.induct)
  case (within_self sr)
  then show ?case by (cases sr) (auto simp: active_def)
next
  case (within_child i child sr x)
  have "set (collectCancelableJobs child) \<subseteq> set (cancelableJobs cs)" if "(i, child) \<in> set cs" for cs
    using that by (induction cs) auto
  with within_child show ?case by (cases sr) auto
qed

lemma cancelRuns_map: "cancelRuns now cs = map (\<lambda>(i, c). (i, cancelStepRun now c)) cs"
  by (induction cs) auto

lemma cancelled_within: "within x root \<Longrightarrow> root = cancelStepRun now sr \<Longrightarrow> isTerminalStepStatus (sr_Status x)"
proof (induction arbitrary: sr rule: within.induct)
  case (within_self root)
  then show ?case by (simp add: isTerminalStepStatus_def)
next
  case (within_child i child root x)
  then obtain c where "child = cancelStepRun now c" by (cases sr) (auto simp: cancelRuns_map)
  then show ?case by (rule within_child.IH)
qed

lemma publish_trace: "publish E e s = (ok, s') \<Longrightarrow> set (s_trace s) \<subseteq> set (s_trace s') \<and> s_runs s' = s_runs s \<and> (ok \<longrightarrow> e \<in> set (s_trace s'))"
  by (auto simp: publish_def externalCall_def Let_def split: outcome.splits)

lemma publishAttempts_trace:
  "publishAttempts E n e s = (ok, s') \<Longrightarrow> set (s_trace s) \<subseteq> set (s_trace s') \<and> s_runs s' = s_runs s \<and> (ok \<longrightarrow> e \<in> set (s_trace s'))"
proof (induction n arbitrary: s)
  case (Suc n)
  obtain ok1 s1 where p: "publish E e s = (ok1, s1)" by fastforce
  show ?case using Suc.IH [of s1] Suc.prems publish_trace [OF p] p by (auto split: if_splits)
qed simp

lemma publishCancels_trace:
  "publishCancels E js s = (bad, s') \<Longrightarrow>
   set (s_trace s) \<subseteq> set (s_trace s') \<and> s_runs s' = s_runs s \<and> (bad = [] \<longrightarrow> hasBus E \<longrightarrow> (\<forall>j \<in> set js. j \<noteq> [] \<longrightarrow> CancelSent j \<in> set (s_trace s')))"
proof (induction js arbitrary: s bad)
  case (Cons j js)
  obtain ok s1 where p: "publishJobCancel E j s = (ok, s1)" by fastforce
  obtain bad1 where r: "publishCancels E js s1 = (bad1, s')" "bad = (if ok then bad1 else j # bad1)" using Cons.prems p by (auto split: prod.splits)
  have "set (s_trace s) \<subseteq> set (s_trace s1) \<and> s_runs s1 = s_runs s \<and> (ok \<longrightarrow> hasBus E \<longrightarrow> j \<noteq> [] \<longrightarrow> CancelSent j \<in> set (s_trace s1))"
    using p publishAttempts_trace [of E 3 "CancelSent j" s ok s1] by (auto simp: publishJobCancel_def split: if_splits)
  with Cons.IH [OF r(1)] r(2) show ?case by auto
qed simp

lemma fillSteps_keeps:
  assumes "map_of (run_Steps r) k = Some sr" shows "map_of (run_Steps (fillSteps W r)) k = Some sr"
proof -
  have "map_of (run_Steps (fold (\<lambda>(i, _) r. if map_of (run_Steps r) i = None then put_step i (new_run i StepStatusNone) r else r) es r)) k = Some sr"
    if "map_of (run_Steps r) k = Some sr" for es :: "step option gomap" and r
    using that
  proof (induction es arbitrary: r)
    case (Cons e es)
    then show ?case by (cases e) (auto intro!: Cons.IH)
  qed simp
  with assms show ?thesis by (simp add: fillSteps_def)
qed

lemma CancelRun_success:
  assumes "map_of (s_runs s) rid = Some r" "\<not> isTerminalRunStatus (run_Status r)" "CancelRun E now rid s = (True, s')"
  obtains W s2 s3 where "UpdateRun E (cancelledRun W now r) s2 = (True, s3)" "publishCancels E (cancelJobIDs (fillSteps W r)) s3 = ([], s')"
proof -
  obtain q s1 where g: "GetRun E rid s = (q, s1)" by fastforce
  have q: "q = Found r" using assms(1,3) g GetRun_Found [of E rid s _ s1] by (cases q) (auto simp: CancelRun_def)
  obtain p s2 where h: "GetWorkflow E (run_WorkflowID r) s1 = (p, s2)" by fastforce
  obtain W where p: "p = Found W" using assms(2,3) by (cases p) (auto simp: CancelRun_def g q h)
  obtain b s3 where u: "UpdateRun E (cancelledRun W now r) s2 = (b, s3)" by fastforce
  obtain bad s4 where c: "publishCancels E (cancelJobIDs (fillSteps W r)) s3 = (bad, s4)" by fastforce
  show ?thesis using assms(2,3) that u c by (cases b) (auto simp: CancelRun_def g q h p)
qed

section \<open>Capacity\<close>

text \<open>The counter of a for-each step is the number of its running children.\<close>

definition counted :: "step \<Rightarrow> int \<Rightarrow> fan \<Rightarrow> bool" where
  "counted s n w \<longleftrightarrow> wf_map (sr_Children (f_parent w)) \<and> f_running w = runningChildren (f_parent w) \<and>
     (st_MaxParallel s > 0 \<longrightarrow> f_running w \<le> max n (st_MaxParallel s))"

lemma running_put:
  assumes "wf_map cs" "case map_of cs c of None \<Rightarrow> True | Some x \<Rightarrow> sr_Status x \<noteq> StepStatusRunning"
  shows "length (filter (\<lambda>(_, x). sr_Status x = StepStatusRunning) (mput c child cs)) =
    length (filter (\<lambda>(_, x). sr_Status x = StepStatusRunning) cs) + (if sr_Status child = StepStatusRunning then 1 else 0)"
  using assms by (induction cs) (auto split: if_splits option.splits)

lemma counted_put:
  assumes "counted s n w" "case map_of (sr_Children (f_parent w)) c of None \<Rightarrow> True | Some x \<Rightarrow> sr_Status x \<noteq> StepStatusRunning"
    "sr_Status child \<noteq> StepStatusRunning"
  shows "counted s n (putFan c child w)"
  using assms running_put [OF _ assms(2), of child] by (auto simp: counted_def putFan_def put_child_def runningChildren_def)

lemma counted_launch:
  assumes "counted s n w" "case map_of (sr_Children (f_parent w)) c of None \<Rightarrow> True | Some x \<Rightarrow> sr_Status x \<noteq> StepStatusRunning"
    "sr_Status child = StepStatusRunning" "\<not> atCapacity s w"
  shows "counted s n (launchedFan c True st (putFan c child w))"
  using assms running_put [OF _ assms(2), of child]
  by (auto simp: counted_def putFan_def launchedFan_def put_child_def runningChildren_def atCapacity_def)

lemma counted_idle: "counted s n w \<Longrightarrow> counted s n (launchedFan c False st w)"
  by (auto simp: counted_def launchedFan_def)

lemma forEachChild_counted:
  assumes "counted s n w" shows "counted s n (forEachChild E now i s e w)"
proof -
  let ?c = "childID i (fst e)"
  define child where "child = (case map_of (sr_Children (f_parent w)) ?c of None \<Rightarrow> new_run ?c StepStatusPending | Some x \<Rightarrow> x)"
  show ?thesis
  proof (cases "atCapacity s w \<or> \<not> isFresh child \<or> ?c \<in> set (f_disp w)")
    case False
    then have fr: "case map_of (sr_Children (f_parent w)) ?c of None \<Rightarrow> True | Some x \<Rightarrow> sr_Status x \<noteq> StepStatusRunning"
      and cap: "\<not> atCapacity s w" and st: "sr_Status child \<noteq> StepStatusRunning"
      by (auto simp: child_def isFresh_def split: option.splits)
    have "counted s n (launchItem E now ?c s (snd e) child w)"
      using counted_put [OF assms fr] counted_launch [OF assms fr _ cap] counted_idle st
      by (auto simp: launchItem_def Let_def markFailed_def inputSR_def revertSR_def split: option.split prod.split bool.split)
    moreover have "counted s n (w\<lparr>f_store := st\<rparr>)" for st using assms by (auto simp: counted_def)
    ultimately show ?thesis using False unfolding forEachChild_def Let_def child_def [symmetric] by (auto split: option.split)
  qed (use assms in \<open>simp add: forEachChild_def Let_def child_def [symmetric]\<close>)
qed

lemma precreate_running: "wf_map (sr_Children (f_parent w)) \<Longrightarrow>
   wf_map (sr_Children (f_parent (precreate i m w))) \<and> runningChildren (f_parent (precreate i m w)) = runningChildren (f_parent w)"
  using running_put [of "sr_Children (f_parent w)" "childID i m" "new_run (childID i m) StepStatusPending"]
  by (auto simp: precreate_def putFan_def put_child_def runningChildren_def new_run_def new_fields_def Let_def)

lemma precreates_running: "wf_map (sr_Children (f_parent w)) \<Longrightarrow>
   wf_map (sr_Children (f_parent (fold (precreate i) ms w))) \<and> runningChildren (f_parent (fold (precreate i) ms w)) = runningChildren (f_parent w)"
  using precreate_running by (induction ms arbitrary: w) auto

lemma fold_counted: "counted s n w \<Longrightarrow> counted s n (fold (forEachChild E now i s) es w)"
  by (induction es arbitrary: w) (auto intro: forEachChild_counted)

lemma forEachStep_capacity:
  assumes "wf_map (sr_Children sr)" "st_MaxParallel s > 0"
  shows "runningChildren (stepRunOf (t_run (forEachStep E now i s sr t)) i) \<le> max (runningChildren sr) (st_MaxParallel s)"
proof (cases "forEachItems E s sr (t_run t)")
  case (Inr items)
  define w0 where "w0 = \<lparr>f_run = t_run t, f_parent = upd (\<lambda>f. f\<lparr>sf_ResolvedItems := Some items\<rparr>) sr, f_running = 0, f_disp = t_disp t, f_store = t_store t\<rparr>"
  define w1 where "w1 = fold (precreate i) [0..<length items] w0"
  define parent where "parent = upd (\<lambda>f. f\<lparr>sf_Status := StepStatusRunning\<rparr>) (started now (f_parent w1))"
  have w1: "wf_map (sr_Children (f_parent w1))" "runningChildren (f_parent w1) = runningChildren sr"
    using precreates_running [of w0 i "[0..<length items]"] assms(1) by (simp_all add: w0_def w1_def runningChildren_def)
  then have "counted s (runningChildren sr) (w1\<lparr>f_parent := parent, f_running := runningChildren parent\<rparr>)"
    by (simp add: counted_def parent_def runningChildren_def started_def)
  from fold_counted [OF this, of E now i "zip [0..<length items] items"] assms(2)
  show ?thesis unfolding forEachStep_def Inr sum.case Let_def w0_def [symmetric] w1_def [symmetric] parent_def [symmetric]
    by (auto simp: counted_def endFan_def succeedSR_def outputSR_def runningChildren_def)
qed (simp add: forEachStep_def failSR_def started_def runningChildren_def)

section \<open>Examples\<close>

text \<open>
  An approval step \<open>g\<close> and a step \<open>i\<close> that depends on it; a new run of this workflow, and a run of the
  same workflow whose first step is running.
\<close>

definition ex_g :: step where "ex_g = ex_step ''g'' StepTypeApproval"
definition ex_i :: step where "ex_i = (ex_step ''i'' StepTypeWorker)\<lparr>st_DependsOn := [''g'']\<rparr>"

definition ex_store :: "(string \<times> step_run) list \<Rightarrow> run_status \<Rightarrow> wf_store" where
  "ex_store srs status = \<lparr>s_runs = [(''r'', (ex_run srs)\<lparr>run_Status := status\<rparr>), (''q'', (ex_run [])\<lparr>run_ID := ''q''\<rparr>)],
     s_active = [(''acme'', ''r''), (''acme'', ''q'')],
     s_workflows = [(''w'', ex_workflow [ex_g, ex_i])], s_calls = 0, s_trace = []\<rparr>"

lemma ex_store_ok: "stored_ok (ex_store [] status)" "stored_ok (ex_store [(''i'', new_run ''i'' st)] status)"
  by (simp_all add: stored_ok_def ex_store_def ex_run_def wf_run_def new_run_def new_fields_def)

lemma ex_fresh: "x \<noteq> CHR ''u'' \<Longrightarrow> x # xs \<notin> fresh ex_engine n"
  by (auto simp: fresh_def ex_engine_def)

lemma ex_gated: "gated ex_engine (ex_workflow [ex_g, ex_i]) ''g'' ''i''"
  by (simp add: gated_def ex_workflow_def ex_g_def ex_i_def ex_step_def step_def_def isOnErrorTarget_def resolveParallelConfig_def keys_def)

section \<open>Corners\<close>

text \<open>A finished run is set to failed when it is started again after its workflow was deleted.\<close>

lemma orphan_overwrites_finished:
  "map_option run_Status (map_of (s_runs (execute ex_engine 1 (0, ex_outputs, OpStart ''gone'' ''r'') (ex_store [] RunStatusSucceeded))) ''r'')
   = Some RunStatusFailed"
  by code_simp

text \<open>A result for a child that was never created completes its parent, here an approval step that is waiting.\<close>

lemma unknown_child_completes_approval:
  "map_option (\<lambda>(r, s). stepStatus r ''g'')
     (childResult ex_engine ex_outputs (ex_workflow [ex_g, ex_i]) 0 ''g'' ''g[0]'' ((ex_result ''r:g[0]@1'' JobStatusSucceeded)\<lparr>res_ResultPtr := []\<rparr>)
        (ex_run [(''g'', new_run ''g'' StepStatusWaiting)]) (ex_store [] RunStatusWaiting)) = Some StepStatusSucceeded"
  by code_simp

text \<open>A failure that the second handler of a chain recovers counts as recovered for the run and still blocks the steps that depend on it.\<close>

definition ex_chain :: workflow where
  "ex_chain = ex_workflow [(ex_step ''a'' StepTypeWorker)\<lparr>st_OnError := ''h''\<rparr>, (ex_step ''h'' StepTypeWorker)\<lparr>st_OnError := ''k''\<rparr>,
     ex_step ''k'' StepTypeWorker, (ex_step ''c'' StepTypeWorker)\<lparr>st_DependsOn := [''a'']\<rparr>]"

definition ex_recovered :: workflow_run where
  "ex_recovered = ex_run [(''a'', new_run ''a'' StepStatusFailed), (''h'', new_run ''h'' StepStatusFailed), (''k'', new_run ''k'' StepStatusSucceeded)]"

lemma recovered_chain_blocks:
  "walkOnErrorChain ex_chain ex_recovered ''a'' = ChainRecovered"
  "\<not> depsSatisfied ((ex_step ''c'' StepTypeWorker)\<lparr>st_DependsOn := [''a'']\<rparr>) ex_recovered ex_chain"
  "run_Status (updateRunStatus ex_chain 0 ex_recovered) = RunStatusRunning"
  by code_simp+

text \<open>A workflow whose id contains a separator is not found on the call stack it is on.\<close>

lemma call_stack_misses: "\<not> containsString (parseCallStack (encodeCallStack [''a,b'', ''x''])) ''a,b''"
  by code_simp

text \<open>An approval step that is waiting and whose condition turns false is completed without an approval.\<close>

lemma condition_completes_approval:
  "stepStatus (t_run (processStep (ex_engine\<lparr>exprRun := \<lambda>_ _. Some (VBool False)\<rparr>) (\<lambda>_ _ s. (False, s)) 0
      (ex_workflow [ex_g\<lparr>st_Condition := ''late''\<rparr>, ex_i]) (''g'', Some (ex_g\<lparr>st_Condition := ''late''\<rparr>))
      \<lparr>t_run = ex_run [(''g'', new_run ''g'' StepStatusWaiting)], t_disp = [], t_store = ex_store [] RunStatusWaiting\<rparr>)) ''g'' = StepStatusSucceeded"
  by code_simp

text \<open>Once the approval step has succeeded, the step behind it is dispatched.\<close>

lemma approval_opens:
  "list_ex (launches ''r'' ''i'') (s_trace (t_store (processStep ex_engine (\<lambda>_ _ s. (False, s)) 0 (ex_workflow [ex_g, ex_i]) (''i'', Some ex_i)
      \<lparr>t_run = ex_run [(''g'', new_run ''g'' StepStatusSucceeded)], t_disp = [], t_store = ex_store [] RunStatusRunning\<rparr>)))"
  by code_simp

section \<open>Properties\<close>



text \<open>
  C15. Runs stay well formed. In a store where every run is stored under its own id, and every step run
  and every child of a step run under its step id and no id twice, any sequence of operations leads to a
  store of that kind, with calls to the store and the bus failing at any point.
\<close>

theorem runs_well_formed:
  assumes "stored_ok s" shows "stored_ok (fold (execute E d) ops s)"
  by (rule executes_ok [OF assms])

theorem runs_well_formed_witness:
  "stored_ok (fold (execute ex_engine 3) [(0, ex_outputs, OpStart ''w'' ''r''), (1, ex_outputs, OpApprove ''r'' ''g'' True),
     (2, ex_outputs, OpCancel ''r'')] (ex_store [] RunStatusPending))"
  by (rule runs_well_formed [OF ex_store_ok(1)])

text \<open>
  C12. A finished run is final. Once a run has succeeded, failed, been denied, cancelled or timed out, no
  sequence of operations changes it or anything stored about it - as long as it is started with
  workflows that exist. Ids drawn for new runs differ from its id.
\<close>

theorem terminal_run_final:
  assumes "stored_ok s" "map_of (s_runs s) rid = Some r" "isTerminalRunStatus (run_Status r)" "rid \<notin> fresh E (s_calls s)"
    "list_all (\<lambda>(now, V, op). opRun op = rid \<longrightarrow> keepsWorkflow s op) ops"
  shows "map_of (s_runs (fold (execute E d) ops s)) rid = Some r"
  using assms
proof (induction ops arbitrary: s)
  case (Cons x ops)
  obtain now V op where x: "x = (now, V, op)" by (metis prod_cases3)
  have e: "ext E (opRun op) s (execute E d x s)" using execute_ext [OF Cons.prems(1)] x by simp
  have "map_of (s_runs (execute E d x s)) rid = Some r" using terminal_execute [OF Cons.prems(1-4)] Cons.prems(5) x by simp
  moreover have "rid \<notin> fresh E (s_calls (execute E d x s))" using e Cons.prems(4) fresh_mono by (auto simp: ext_def)
  moreover have "keepsWorkflow (execute E d x s) op' = keepsWorkflow s op'" for op' using e by (cases op') (simp_all add: ext_def)
  ultimately show ?case using Cons.IH [of "execute E d x s"] Cons.prems(1,3,5) e x by (simp add: ext_def)
qed simp

theorem terminal_run_final_witness:
  "map_of (s_runs (fold (execute ex_engine 3) [(0, ex_outputs, OpStart ''w'' ''r''), (1, ex_outputs, OpResult (ex_result ''r:i@1'' JobStatusSucceeded))]
     (ex_store [] RunStatusFailed))) ''r'' = Some ((ex_run [])\<lparr>run_Status := RunStatusFailed\<rparr>)"
  by (rule terminal_run_final [OF ex_store_ok(1)]) (simp_all add: ex_store_def isTerminalRunStatus_def ex_fresh)

text \<open>
  C16. Operations are isolated. Operations on other runs leave a run as it is stored, dispatch no job of
  it, and leave the workflows as they are. Ids drawn for new runs differ from its id.
\<close>

theorem operations_isolated:
  assumes "stored_ok s" "rid \<notin> fresh E (s_calls s)" "list_all (\<lambda>(now, V, op). opRun op \<noteq> rid) ops"
  shows "map_of (s_runs (fold (execute E d) ops s)) rid = map_of (s_runs s) rid \<and> s_workflows (fold (execute E d) ops s) = s_workflows s \<and>
    (\<exists>es. s_trace (fold (execute E d) ops s) = s_trace s @ es \<and> list_all (\<lambda>e. \<forall>step job. e \<noteq> Dispatched rid step job) es)"
  using assms
proof (induction ops arbitrary: s)
  case (Cons x ops)
  obtain now V op where x: "x = (now, V, op)" by (metis prod_cases3)
  have e: "ext E (opRun op) s (execute E d x s)" using execute_ext [OF Cons.prems(1)] x by simp
  have other: "rid \<notin> insert (opRun op) (fresh E (s_calls s))" using Cons.prems(2,3) x by auto
  obtain es where es: "s_trace (execute E d x s) = s_trace s @ es" "list_all (concerns (insert (opRun op) (fresh E (s_calls s)))) es"
    using e by (auto simp: ext_def)
  have one: "list_all (\<lambda>e. \<forall>step job. e \<noteq> Dispatched rid step job) es"
    using es(2) other unfolding list_all_iff concerns_def by fastforce
  have "rid \<notin> fresh E (s_calls (execute E d x s))" using e Cons.prems(2) fresh_mono by (auto simp: ext_def)
  then have "map_of (s_runs (fold (execute E d) ops (execute E d x s))) rid = map_of (s_runs (execute E d x s)) rid \<and>
      s_workflows (fold (execute E d) ops (execute E d x s)) = s_workflows (execute E d x s) \<and>
      (\<exists>es. s_trace (fold (execute E d) ops (execute E d x s)) = s_trace (execute E d x s) @ es \<and> list_all (\<lambda>e. \<forall>step job. e \<noteq> Dispatched rid step job) es)"
    using Cons.IH [of "execute E d x s"] Cons.prems(1,3) e by (simp add: ext_def)
  moreover have "map_of (s_runs (execute E d x s)) rid = map_of (s_runs s) rid" "s_workflows (execute E d x s) = s_workflows s"
    using e other by (simp_all add: ext_def)
  ultimately show ?case using es(1) one by auto
qed simp

theorem operations_isolated_witness:
  "map_of (s_runs (fold (execute ex_engine 3) [(0, ex_outputs, OpStart ''w'' ''q'')] (ex_store [] RunStatusPending))) ''r'' =
   Some ((ex_run [])\<lparr>run_Status := RunStatusPending\<rparr>)"
  using operations_isolated [of "ex_store [] RunStatusPending" "''r''" ex_engine "[(0, ex_outputs, OpStart ''w'' ''q'')]" 3] ex_store_ok(1) ex_fresh
  by (simp add: ex_store_def)

text \<open>
  C14. Cancelling is complete. When cancelling a run that had not finished reports success, the stored run
  is cancelled, no step run in it is open, at any depth of children, and with a bus attached a
  cancellation was sent for the job of every step run that was running or waiting.
\<close>

theorem cancel_complete:
  assumes "map_of (s_runs s) rid = Some r" "run_ID r = rid" "\<not> isTerminalRunStatus (run_Status r)" "CancelRun E now rid s = (True, s')"
  shows "(\<exists>r'. map_of (s_runs s') rid = Some r' \<and> run_Status r' = RunStatusCancelled \<and>
       (\<forall>k sr x. map_of (run_Steps r') k = Some sr \<longrightarrow> within x sr \<longrightarrow> isTerminalStepStatus (sr_Status x))) \<and>
    (\<forall>k sr x. hasBus E \<longrightarrow> map_of (run_Steps r) k = Some sr \<longrightarrow> within x sr \<longrightarrow> active x \<longrightarrow> CancelSent (sr_JobID x) \<in> set (s_trace s'))"
proof -
  obtain W s2 s3 where u: "UpdateRun E (cancelledRun W now r) s2 = (True, s3)"
    and c: "publishCancels E (cancelJobIDs (fillSteps W r)) s3 = ([], s')" by (rule CancelRun_success [OF assms(1,3,4)])
  have id: "run_ID (cancelledRun W now r) = rid" using calm_fillSteps [of UNIV r W] assms(2) by (simp add: cancelledRun_def Let_def calm_def)
  have "map_of (s_runs s3) rid = Some (cancelledRun W now r)"
    using u id by (auto simp: UpdateRun_def externalCall_def indexRun_def Let_def split: if_splits outcome.splits)
  then have stored: "map_of (s_runs s') rid = Some (cancelledRun W now r)" using publishCancels_trace [OF c] by simp
  have closed: "isTerminalStepStatus (sr_Status x)" if "map_of (run_Steps (cancelledRun W now r)) k = Some sr" "within x sr" for k sr x
    using that cancelled_within [OF that(2)] by (auto simp: cancelledRun_def Let_def dest!: map_of_SomeD)
  have "CancelSent (sr_JobID x) \<in> set (s_trace s')" if "hasBus E" "map_of (run_Steps r) k = Some sr" "within x sr" "active x" for k sr x
  proof -
    have "sr_JobID x \<in> set (cancelJobIDs (fillSteps W r))"
      using cancelable_within [OF that(3,4)] fillSteps_keeps [OF that(2), of W] by (force simp: cancelJobIDs_def dest: map_of_SomeD)
    then show ?thesis using publishCancels_trace [OF c] that(1,4) by (auto simp: active_def)
  qed
  with stored closed show ?thesis by (auto simp: cancelledRun_def Let_def)
qed

theorem cancel_complete_witness:
  "let s = ex_store [(''i'', upd (\<lambda>f. f\<lparr>sf_JobID := ''r:i@1''\<rparr>) (new_run ''i'' StepStatusRunning))] RunStatusRunning;
       (ok, s') = CancelRun ex_engine 5 ''r'' s
   in ok \<and> map_option run_Status (map_of (s_runs s') ''r'') = Some RunStatusCancelled \<and> CancelSent ''r:i@1'' \<in> set (s_trace s')"
proof -
  let ?sr = "upd (\<lambda>f. f\<lparr>sf_JobID := ''r:i@1''\<rparr>) (new_run ''i'' StepStatusRunning)"
  let ?s = "ex_store [(''i'', ?sr)] RunStatusRunning" and ?r = "(ex_run [(''i'', ?sr)])\<lparr>run_Status := RunStatusRunning\<rparr>"
  obtain ok s' where c: "CancelRun ex_engine 5 ''r'' ?s = (ok, s')" by fastforce
  have ok: ok using c
    by (simp add: CancelRun_def GetRun_def GetWorkflow_def readCall_def UpdateRun_def externalCall_def cancelledRun_def ex_store_def ex_run_def
        ex_engine_def isTerminalRunStatus_def fillSteps_def ex_workflow_def ex_g_def ex_i_def ex_step_def put_step_def new_run_def new_fields_def
        cancelJobIDs_def upd_def publishJobCancel_def publish_def Let_def numeral_3_eq_3)
  have p: "map_of (s_runs ?s) ''r'' = Some ?r" "run_ID ?r = ''r''" "\<not> isTerminalRunStatus (run_Status ?r)"
    by (simp_all add: ex_store_def ex_run_def isTerminalRunStatus_def)
  have "active ?sr" "within ?sr ?sr" "map_of (run_Steps ?r) ''i'' = Some ?sr" "hasBus ex_engine"
    by (simp_all add: active_def ex_run_def new_run_def new_fields_def upd_def ex_engine_def within_self)
  then show ?thesis using cancel_complete [OF p] c ok by (fastforce simp: Let_def upd_def)
qed

text \<open>
  C23. A rerun from a step starts with exactly the steps that step depends on, directly or over other
  steps: they succeeded in the old run and are taken over as they were; no other step has a step run.
\<close>

theorem rerun_exact:
  assumes "map_of (s_runs s) rid = Some r" "map_of (s_workflows s) (run_WorkflowID r) = Some W" "i \<noteq> []"
    "RerunFrom E now rid i dry s = (Some new, s')"
  shows "\<exists>r'. map_of (s_runs s') new = Some r' \<and> run_Status r' = RunStatusPending \<and> run_DryRun r' = dry \<and> run_RerunOf r' = run_ID r \<and>
    (\<forall>k. map_of (run_Steps r') k = (if (dep_edge W)\<^sup>+\<^sup>+ i k then Some (stepRunOf r k) else None)) \<and>
    (\<forall>k. (dep_edge W)\<^sup>+\<^sup>+ i k \<longrightarrow> stepStatus r k = StepStatusSucceeded)"
proof -
  obtain q s1 where g: "GetRun E rid s = (q, s1)" by fastforce
  have q: "q = Found r" using assms(1,4) g GetRun_Found [of E rid s _ s1] by (cases q) (auto simp: RerunFrom_def split: if_splits)
  obtain p s2 where h: "GetWorkflow E (run_WorkflowID r) s1 = (p, s2)" by fastforce
  have p: "p = Found W" using assms(2,4) GetWorkflow_Found [of E "run_WorkflowID r" s1 _ s2] reads_fields [OF GetRun_reads [OF g]]
    by (cases p) (auto simp: RerunFrom_def g q h split: if_splits)
  define deps where "deps = collectDependencies W i"
  define r' where "r' = rerun now (newUUID E (s_calls s2)) i dry deps r"
  have ok: "list_all (\<lambda>d. stepStatus r d = StepStatusSucceeded) deps" and c: "CreateRun E now r' s2 = (True, s')" and new: "new = newUUID E (s_calls s2)"
    using assms(3,4) by (auto simp: RerunFrom_def g q h p Let_def deps_def r'_def split: if_splits prod.splits)
  have set: "set deps = {d. (dep_edge W)\<^sup>+\<^sup>+ i d}" unfolding deps_def by (rule collectDependencies_reachable [OF assms(3)])
  have "map_of (s_runs s') new = Some r'"
    using c new by (auto simp: CreateRun_def externalCall_def indexRun_def r'_def rerun_def Let_def split: if_splits outcome.splits)
  moreover have "map_of (map (\<lambda>d. (d, stepRunOf r d)) ds) k = (if k \<in> set ds then Some (stepRunOf r k) else None)" for ds k by (induction ds) auto
  ultimately show ?thesis using ok set by (auto simp: r'_def rerun_def Let_def list_all_iff)
qed

theorem rerun_exact_witness:
  "let s = ex_store [(''g'', new_run ''g'' StepStatusSucceeded)] RunStatusFailed;
       (new, s') = RerunFrom ex_engine 5 ''r'' ''i'' True s
   in new = Some ''uxx'' \<and> (\<exists>r'. map_of (s_runs s') ''uxx'' = Some r' \<and> run_DryRun r' \<and> (\<forall>k. map_of (run_Steps r') k =
        (if (dep_edge (ex_workflow [ex_g, ex_i]))\<^sup>+\<^sup>+ ''i'' k then Some (stepRunOf (ex_run [(''g'', new_run ''g'' StepStatusSucceeded)]) k) else None)))"
proof -
  let ?s = "ex_store [(''g'', new_run ''g'' StepStatusSucceeded)] RunStatusFailed"
  let ?r = "(ex_run [(''g'', new_run ''g'' StepStatusSucceeded)])\<lparr>run_Status := RunStatusFailed\<rparr>" and ?W = "ex_workflow [ex_g, ex_i]"
  obtain new s' where c: "RerunFrom ex_engine 5 ''r'' ''i'' True ?s = (new, s')" by fastforce
  have d: "collectDependencies ?W ''i'' = [''g'']" by code_simp
  have w: "map_of (wf_Steps ?W) ''i'' = Some (Some ex_i)" by (simp add: ex_workflow_def ex_g_def ex_i_def ex_step_def)
  have new: "new = Some ''uxx''" using c d w
    by (simp add: RerunFrom_def GetRun_def GetWorkflow_def readCall_def CreateRun_def externalCall_def indexRun_def rerun_def ex_store_def ex_run_def ex_engine_def
        stepStatus_def new_run_def new_fields_def Let_def numeral_2_eq_2)
  have p: "map_of (s_runs ?s) ''r'' = Some ?r" "map_of (s_workflows ?s) (run_WorkflowID ?r) = Some ?W" "''i'' \<noteq> []" by (simp_all add: ex_store_def ex_run_def)
  have "stepRunOf ?r k = stepRunOf (ex_run [(''g'', new_run ''g'' StepStatusSucceeded)]) k" for k by (simp add: stepRunOf_def)
  then show ?thesis using rerun_exact [OF p, of ex_engine 5 True "''uxx''" s'] c new by (auto simp: Let_def)
qed

text \<open>
  C24. Capacity. A tick of a for-each step with a limit on its parallel children leaves at most as many
  children running as the limit allows, or as were running before when that was more; it counts the
  children that are running and starts no other beyond the limit.
\<close>

theorem forEach_capacity:
  assumes "wf_run C (t_run t)" "st_MaxParallel s > 0" "sr = stepRunOf (t_run t) i"
  shows "runningChildren (stepRunOf (t_run (forEachStep E now i s sr t)) i) \<le> max (runningChildren sr) (st_MaxParallel s)"
  using forEachStep_capacity [of sr s E now i t] good_stepRunOf [OF assms(1), of i] assms(2,3) by (simp add: good_iff)

theorem forEach_capacity_witness:
  "runningChildren (stepRunOf (t_run (forEachStep ex_engine 0 ''a'' (ex_a\<lparr>st_ForEach := ''xs'', st_MaxParallel := 2\<rparr>)
     (upd (\<lambda>f. f\<lparr>sf_ResolvedItems := Some [VInt 1, VInt 2, VInt 3]\<rparr>) (new_run ''a'' StepStatusPending))
     \<lparr>t_run = ex_run [(''a'', upd (\<lambda>f. f\<lparr>sf_ResolvedItems := Some [VInt 1, VInt 2, VInt 3]\<rparr>) (new_run ''a'' StepStatusPending))],
      t_disp = [], t_store = ex_store [] RunStatusRunning\<rparr>)) ''a'') \<le> 2"
  using forEach_capacity [of "{}" "\<lparr>t_run = ex_run [(''a'', upd (\<lambda>f. f\<lparr>sf_ResolvedItems := Some [VInt 1, VInt 2, VInt 3]\<rparr>) (new_run ''a'' StepStatusPending))],
      t_disp = [], t_store = ex_store [] RunStatusRunning\<rparr>" "ex_a\<lparr>st_ForEach := ''xs'', st_MaxParallel := 2\<rparr>"
     "upd (\<lambda>f. f\<lparr>sf_ResolvedItems := Some [VInt 1, VInt 2, VInt 3]\<rparr>) (new_run ''a'' StepStatusPending)" "''a''" ex_engine 0]
  by (simp add: ex_run_def wf_run_def new_run_def new_fields_def upd_def stepRunOf_def runningChildren_def)



end
