(* ===== verification/Spec2Isabelle.thy ===== *)
theory Spec2Isabelle
  imports Safety_Kernel Resource_Locks Circuit_Breaker Job_Store Audit_Chain Workflow_Operations
begin

text \<open>
  A model of the control plane of Cordum and proofs about it.

  \<^bold>\<open>The program.\<close> Cordum lets agents and services submit jobs. The gateway stores a job, the scheduler
  asks the safety kernel for a decision, waits for a human approval where the policy demands one,
  picks a worker and publishes the job. Events and results come back and move the job through its
  states in Redis. The workflow engine runs graphs of steps, of which many are jobs, and takes their
  results in. Resource locks keep holders apart, a circuit breaker stands in front of the kernel, and
  an audit chain records what happened. All file names below are relative to \<open>src\<close>.

  \<^bold>\<open>Foundations.\<close>
  \<^item> \<open>Prelude\<close>: Go maps as association lists, the locale \<open>first_match\<close> of first-match rule lists,
    lemmas on lists and maps.
  \<^item> \<open>Go_Strings\<close>, \<open>Go_Float\<close>, \<open>Go_Base64\<close>: what the code uses of Go's string functions, IEEE 754 values
    as bit patterns, and unpadded Base64.
  \<^item> \<open>Redis\<close>: the server as a record of commands that every operation takes as an argument. The locale
    \<open>redis_server\<close> has their documented effect as its law; it is interpreted on a concrete server of
    association lists, and its facts carry the proofs of the stores. A script is one atomic step; a
    call can fail, or be applied and lose its reply.

  \<^bold>\<open>Policies\<close> (\<open>core/infra/config\<close>).
  \<^item> \<open>Policy_Types\<close>: policy documents and requests (\<open>safety_policy.go\<close>, \<open>mcp.go\<close>, \<open>delegation_policy.go\<close>).
  \<^item> \<open>Delegation_Match\<close> (\<open>delegation_policy.go\<close>): accepting a delegation implies accepting what it extends.
  \<^item> \<open>Safety_Policy\<close> (\<open>safety_policy.go\<close>): \<open>matchRule\<close>, \<open>Evaluate\<close>, validation. Whatever is not denied was
    allowed by the first matching rule or by an explicit default.
  \<^item> \<open>Policy_Merge\<close> (\<open>policy_merge.go\<close>): cloning and merging of fragments.

  \<^bold>\<open>Safety kernel\<close> (\<open>core/controlplane/safetykernel\<close>).
  \<^item> \<open>Global_Policy\<close> (\<open>global_policy.go\<close>, \<open>global_policy_tiers.go\<close>, \<open>kernel_invariants.go\<close>,
    \<open>tier_scope.go\<close>): invariants bound every scoped policy; the tiers are a first match over layers.
  \<^item> \<open>Input_Policy\<close> (\<open>input_policy.go\<close>, \<open>input_scope.go\<close>, parts of \<open>output_policy.go\<close> and \<open>scanners.go\<close>):
    compilation and evaluation of input rules.
  \<^item> \<open>Velocity\<close> (\<open>velocity.go\<close>): the sliding window in a sorted set, and rules with rate limits.
  \<^item> \<open>Safety_Kernel\<close> (\<open>kernel.go\<close>): \<open>evaluate\<close> with its caches and the installation of a policy. A matching
    kernel invariant bounds the decision; later stages only restrict; the caches are bounded, fresh and
    separate tenants.

  \<^bold>\<open>Jobs\<close> (\<open>core/infra/store\<close>, \<open>core/model/job.go\<close>).
  \<^item> \<open>Job_States\<close>: states and the transition table.
  \<^item> \<open>Job_Runtime\<close> (\<open>job_event_store.go\<close>, \<open>job_event_fence.go\<close>, \<open>job_runtime_state.go\<close>): the runtime hash of
    a job as a step relation over scripts. Stale attempts are fenced off, a result is applied at most
    once, its effect is replayed until acknowledged.
  \<^item> \<open>Job_Store\<close> (\<open>job_store.go\<close>, \<open>job_event_projection.go\<close>): WATCH transactions and the projection. Indexes
    are exact, states walk the table, idempotency keys belong to one job.

  \<^bold>\<open>Coordination and audit.\<close>
  \<^item> \<open>Resource_Locks\<close> (\<open>core/infra/locks\<close>): the scripts refine an abstract lock; the locale \<open>lock_store\<close>
    extends \<open>redis_server\<close> by the laws of the script's JSON codec.
  \<^item> \<open>Circuit_Breaker\<close> (\<open>core/controlplane/scheduler\<close>, \<open>circuit_breaker.go\<close>, \<open>backoff.go\<close>): the shared and the
    local breaker, and the backoff on 64-bit words.
  \<^item> \<open>Audit_Chain\<close> (\<open>core/audit\<close>, \<open>chain.go\<close>, \<open>chain_verify.go\<close>): racing appends keep a linked chain, the
    verifier accepts it, and an accepted chain is determined by its length and last hash up to collisions.

  \<^bold>\<open>Workflow engine\<close> (\<open>core/workflow\<close>).
  \<^item> \<open>Workflow_Model\<close> (\<open>models.go\<close> and pure helpers): graphs, contexts, templates, step configuration.
  \<^item> \<open>Workflow_Status\<close> (\<open>engine_state.go\<close>, \<open>engine_helpers.go\<close>): what results, handlers, skips, timeouts and
    cancellations make of the steps and the run.
  \<^item> \<open>Workflow_Output\<close> (\<open>engine_resource.go\<close>, \<open>engine_output_safety.go\<close>): an output enters a run only when it
    was allowed.
  \<^item> \<open>Workflow_Engine\<close> (\<open>engine.go\<close>, \<open>scheduleReady\<close> with its step handlers; run documents and the index of
    active runs from \<open>store_redis.go\<close>). The store and the bus are the record \<open>wf_store\<close>; each call is
    numbered and delivered, refused or delivered with its reply lost, as the engine's \<open>callOutcome\<close> says.
  \<^item> \<open>Workflow_Runs\<close> (\<open>StartRun\<close>, \<open>HandleJobResult\<close>, \<open>ApproveStep\<close>, \<open>CancelRun\<close>, \<open>RerunFrom\<close>).
  \<^item> \<open>Workflow_Invariants\<close>: locales \<open>tick_moves\<close>, \<open>step_moves\<close> and \<open>run_moves\<close> say that a predicate survives
    the primitive changes the handlers are built from; it then survives every handler and operation. They
    are interpreted for the frame of an operation and for the steps behind an approval.
  \<^item> \<open>Workflow_Operations\<close>: sequences of operations (\<open>execute\<close>). Nothing behind an approval is dispatched
    before it, runs stay well formed, finished runs are final, operations are isolated, cancellations are
    complete.

  \<^bold>\<open>Corner cases.\<close> Lemmas on concrete inputs, in the theory of their component, show where the code departs
  from its intention, for example \<open>invariant_block_overridden\<close>, \<open>rollback_reopens_finished\<close>,
  \<open>removed_prefix_verifies\<close> and \<open>orphan_overwrites_finished\<close>. The hypotheses of the properties are drawn
  around them: an approval step with a condition, or a finished run whose workflow is gone, is excluded.

  \<^bold>\<open>Bounds.\<close> The passes of \<open>scheduleReady\<close> (the number of steps, at least one), the three attempts of
  \<open>publishAttempts\<close> and the \<open>chainMaxCASRetries\<close> of \<open>Append\<close> are bounds of the code itself. Child runs are followed to a depth that is an argument of
  \<open>StartRun\<close>; at depth 0 a start is refused. The properties hold for every depth. Collecting dependencies
  is proved to end on every graph. No other definition has fuel.

  \<^bold>\<open>Parameters.\<close> Redis, YAML and JSON codecs, regular expressions, protobuf, SHA-256 and HMAC, the expression
  library, schema validation, resource readers, the policy service seen from the engine, random ids
  and clocks are arguments. Laws used of them are named hypotheses.

  \<^bold>\<open>Not modelled.\<close>
  \<^item> Of the engine: identity checks of production mode, cancelled contexts, run locks (an operation whose
    lock is refused does nothing, and one that has it is one step), the timeline, callbacks, audit hashes
    in the store script, other indexes, the durable timers (one that fires is another start), the
    reconciler, and fields of requests and alerts beyond their ids.
  \<^item> Of the kernel: the gRPC server, the policy watcher, explain and simulate, metrics, action gates (a
    parameter), the scanners built on regular expressions and the output rules.
  \<^item> Of the job store: request and approval records, listings, per-field getters, the cluster-wide scan of
    pending effects.
  \<^item> HTTP handlers of the gateway, the message loops of the scheduler, the bus, registries, tokens,
    licensing, the MCP server, edge agents, audit export, reporting, command line tools and the dashboard:
    input and output around the components above, or libraries they only call.
\<close>

end
